(* ===== verification/Prelude.thy ===== *)
theory Prelude
  imports Complex_Main "HOL-Library.AList"
begin

text \<open>
  Shared vocabulary of the development.

  \<^item> The insertion-ordered \<^verbatim>\<open>dict\<close> of Python as an association list: a lookup is
    \<open>map_of\<close>, an assignment keeps the position of an existing key and appends a new one
    (\<open>AList.update\<close>), a \<^verbatim>\<open>pop\<close> removes the key (\<open>AList.delete\<close>).
  \<^item> Python exceptions from outside dbkit (\<open>py_exn\<close>), seen through exactly what dbkit
    observes of them: which classes they are instances of, \<^verbatim>\<open>str(exc)\<close>, and the
    attributes the classifier reads.
  \<^item> The sum-type bind that composes fallible steps, and generic list lemmas.

  Floating-point numbers of the source (seconds, milliseconds, factors) are exact reals here:
  rounding is not modelled.
\<close>

named_theorems dict_simps \<open>facts about insertion-ordered dictionaries\<close>

type_synonym ('k, 'v) dict = "('k \<times> 'v) list"

abbreviation dict_get :: "('k, 'v) dict \<Rightarrow> 'k \<Rightarrow> 'v option" where
  "dict_get d k \<equiv> map_of d k"

abbreviation dict_set :: "'k \<Rightarrow> 'v \<Rightarrow> ('k, 'v) dict \<Rightarrow> ('k, 'v) dict" where
  "dict_set k v d \<equiv> AList.update k v d"

abbreviation dict_pop :: "'k \<Rightarrow> ('k, 'v) dict \<Rightarrow> ('k, 'v) dict" where
  "dict_pop k d \<equiv> AList.delete k d"

abbreviation dict_keys :: "('k, 'v) dict \<Rightarrow> 'k list" where
  "dict_keys d \<equiv> map fst d"

definition dict_wf :: "('k, 'v) dict \<Rightarrow> bool" where
  "dict_wf d \<longleftrightarrow> distinct (dict_keys d)"

text \<open>\<^verbatim>\<open>OrderedDict.move_to_end\<close>: the key becomes the most recent one.\<close>

definition move_to_end :: "'k \<Rightarrow> ('k, 'v) dict \<Rightarrow> ('k, 'v) dict" where
  "move_to_end k d =
     (case dict_get d k of None \<Rightarrow> d | Some v \<Rightarrow> dict_pop k d @ [(k, v)])"

lemma dict_wf_Nil [simp]: "dict_wf []"
  by (simp add: dict_wf_def)

lemma dict_wf_set [simp]: "dict_wf d \<Longrightarrow> dict_wf (dict_set k v d)"
  by (simp add: dict_wf_def distinct_update)

lemma dict_wf_pop [simp]: "dict_wf d \<Longrightarrow> dict_wf (dict_pop k d)"
  by (simp add: dict_wf_def distinct_delete)

lemma dict_get_set [dict_simps]:
  "dict_get (dict_set k v d) k' = (if k = k' then Some v else dict_get d k')"
  by (auto simp: update_conv')

lemma dict_get_pop [dict_simps]:
  "dict_get (dict_pop k d) k' = (if k = k' then None else dict_get d k')"
  by (auto simp: delete_conv')

lemma dict_get_None_iff [dict_simps]: "dict_get d k = None \<longleftrightarrow> k \<notin> set (dict_keys d)"
  by (simp add: map_of_eq_None_iff)

lemma dict_set_new: "dict_get d k = None \<Longrightarrow> dict_set k v d = d @ [(k, v)]"
  by (induction d) auto

lemma length_dict_set: "length (dict_set k v d) = (if dict_get d k = None then Suc (length d) else length d)"
  by (induction d) auto

lemma length_dict_set_le: "length (dict_set k v d) \<le> Suc (length d)"
  by (simp add: length_dict_set)

lemma dict_keys_set: "set (dict_keys (dict_set k v d)) = insert k (set (dict_keys d))"
  using dom_update [of k v d] by (simp add: dom_map_of_conv_image_fst [symmetric] del: image_set)

lemma dict_keys_pop: "set (dict_keys (dict_pop k d)) = set (dict_keys d) - {k}"
  by (simp add: AList.delete_eq) auto

lemma dict_pop_fresh: "dict_get d k = None \<Longrightarrow> dict_pop k d = d"
  by (induction d) (auto split: if_splits)

lemma length_dict_pop:
  "dict_wf d \<Longrightarrow> dict_get d k = Some v \<Longrightarrow> Suc (length (dict_pop k d)) = length d"
proof (induction d)
  case Nil
  then show ?case by simp
next
  case (Cons x d)
  show ?case
  proof (cases "fst x = k")
    case True
    with Cons.prems have "dict_get d k = None"
      by (auto simp: dict_wf_def map_of_eq_None_iff)
    then have "dict_pop k d = d" by (rule dict_pop_fresh)
    with True show ?thesis by (cases x) simp
  next
    case False
    with Cons show ?thesis by (cases x) (auto simp: dict_wf_def)
  qed
qed

lemma length_dict_pop_le: "length (dict_pop k d) \<le> length d"
  by (simp add: AList.delete_eq)

lemma move_to_end_wf [simp]: "dict_wf d \<Longrightarrow> dict_wf (move_to_end k d)"
  by (auto simp: move_to_end_def dict_wf_def distinct_delete AList.delete_eq distinct_map
      intro: inj_on_subset split: option.splits)

lemma length_move_to_end [simp]: "dict_wf d \<Longrightarrow> length (move_to_end k d) = length d"
  by (auto simp: move_to_end_def split: option.split dest: length_dict_pop)

lemma dict_get_move_to_end [simp]: "dict_get (move_to_end k d) k' = dict_get d k'"
  by (auto simp: move_to_end_def map_add_def dict_get_pop split: option.splits)

subsection \<open>Sums as fallible results\<close>

fun sum_bind :: "'e + 'a \<Rightarrow> ('a \<Rightarrow> 'e + 'b) \<Rightarrow> 'e + 'b" where
  "sum_bind (Inl e) f = Inl e"
| "sum_bind (Inr x) f = f x"

lemma sum_bind_Inr_iff: "sum_bind m f = Inr y \<longleftrightarrow> (\<exists>x. m = Inr x \<and> f x = Inr y)"
  by (cases m) auto

lemma sum_bind_Inl_iff:
  "sum_bind m f = Inl e \<longleftrightarrow> m = Inl e \<or> (\<exists>x. m = Inr x \<and> f x = Inl e)"
  by (cases m) auto

lemma sum_bind_cong [fundef_cong]:
  "m = m' \<Longrightarrow> (\<And>x. m' = Inr x \<Longrightarrow> f x = g x) \<Longrightarrow> sum_bind m f = sum_bind m' g"
  by (cases m') auto

text \<open>Run a fallible step over a list, stopping at the first failure.\<close>

fun map_sum :: "('a \<Rightarrow> 'e + 'b) \<Rightarrow> 'a list \<Rightarrow> 'e + 'b list" where
  "map_sum f [] = Inr []"
| "map_sum f (x # xs) = sum_bind (f x) (\<lambda>y. sum_bind (map_sum f xs) (\<lambda>ys. Inr (y # ys)))"

fun each_sum :: "('a \<Rightarrow> 'e + unit) \<Rightarrow> 'a list \<Rightarrow> 'e + unit" where
  "each_sum f [] = Inr ()"
| "each_sum f (x # xs) = sum_bind (f x) (\<lambda>_. each_sum f xs)"

lemma each_sum_Inr_iff: "each_sum f xs = Inr u \<longleftrightarrow> (\<forall>x \<in> set xs. f x = Inr ())"
  by (induction xs) (auto simp: sum_bind_Inr_iff)

lemma map_sum_length: "map_sum f xs = Inr ys \<Longrightarrow> length ys = length xs"
  by (induction xs arbitrary: ys) (auto simp: sum_bind_Inr_iff)

text \<open>Attribute lookup along a method-resolution order: the first class that sets it.\<close>

fun attr_lookup :: "('c \<Rightarrow> 'v option) \<Rightarrow> 'c list \<Rightarrow> 'v option" where
  "attr_lookup own [] = None"
| "attr_lookup own (c # cs) = (case own c of Some v \<Rightarrow> Some v | None \<Rightarrow> attr_lookup own cs)"

text \<open>Python truthiness of an optional string: missing and empty are both false.\<close>

definition str_or :: "string option \<Rightarrow> string \<Rightarrow> string" where
  "str_or s d = (case s of None \<Rightarrow> d | Some x \<Rightarrow> if x = [] then d else x)"

definition truthy_str :: "string option \<Rightarrow> bool" where
  "truthy_str s \<longleftrightarrow> (case s of None \<Rightarrow> False | Some x \<Rightarrow> x \<noteq> [])"

definition join_with :: "string \<Rightarrow> string list \<Rightarrow> string" where
  "join_with sep xs = (case xs of [] \<Rightarrow> [] | x # ys \<Rightarrow> x @ concat (map (\<lambda>y. sep @ y) ys))"

subsection \<open>Decimal numerals\<close>

definition digit :: "nat \<Rightarrow> char" where
  "digit d = char_of (48 + d)"

fun show_nat :: "nat \<Rightarrow> string" where
  "show_nat n = (if n < 10 then [digit n] else show_nat (n div 10) @ [digit (n mod 10)])"

declare show_nat.simps [simp del]

definition quoted :: "string \<Rightarrow> string" where
  "quoted s = CHR 0x27 # s @ [CHR 0x27]"

definition show_int :: "int \<Rightarrow> string" where
  "show_int i = (if i < 0 then CHR ''-'' # show_nat (nat (- i)) else show_nat (nat i))"

text \<open>The format \<^verbatim>\<open>{n:0wd}\<close> for a natural number.\<close>

definition zero_pad :: "nat \<Rightarrow> nat \<Rightarrow> string" where
  "zero_pad w n = replicate (w - length (show_nat n)) (CHR ''0'') @ show_nat n"

definition read_nat :: "string \<Rightarrow> nat" where
  "read_nat s = foldl (\<lambda>a c. a * 10 + (of_char c - 48)) 0 s"

lemma of_char_digit: "d < 10 \<Longrightarrow> of_char (digit d) = 48 + d"
  by (simp add: digit_def)

lemma read_nat_show: "read_nat (show_nat n) = n"
proof (induction n rule: show_nat.induct)
  case (1 n)
  show ?case
  proof (cases "n < 10")
    case True
    then show ?thesis by (subst show_nat.simps) (simp add: read_nat_def of_char_digit)
  next
    case False
    then have "read_nat (show_nat (n div 10)) = n div 10" by (rule 1)
    with False show ?thesis
      by (subst show_nat.simps) (simp add: read_nat_def of_char_digit)
  qed
qed

lemma foldl_zeros: "foldl (\<lambda>a c. a * 10 + (of_char c - 48)) 0 (replicate k (CHR ''0'')) = (0 :: nat)"
  by (induction k) auto

lemma read_nat_zero_pad: "read_nat (zero_pad w n) = n"
  using read_nat_show [of n] by (simp add: read_nat_def zero_pad_def foldl_zeros)

lemma zero_pad_inj: "zero_pad w m = zero_pad w n \<Longrightarrow> m = n"
  by (metis read_nat_zero_pad)

text \<open>What \<^verbatim>\<open>int(s)\<close> accepts: ASCII white space around, a sign, digits, single underscores between
  digits.\<close>

definition ascii_space :: "char \<Rightarrow> bool" where
  "ascii_space c \<longleftrightarrow> (let n = of_char c :: nat in n = 32 \<or> (9 \<le> n \<and> n \<le> 13) \<or> (28 \<le> n \<and> n \<le> 31))"

definition strip_spaces :: "string \<Rightarrow> string" where
  "strip_spaces s = rev (dropWhile ascii_space (rev (dropWhile ascii_space s)))"

definition decimal_digit :: "char \<Rightarrow> bool" where
  "decimal_digit c \<longleftrightarrow> (let n = of_char c :: nat in 48 \<le> n \<and> n \<le> 57)"

fun digit_groups :: "string \<Rightarrow> bool" where
  "digit_groups [] = False"
| "digit_groups [c] = decimal_digit c"
| "digit_groups (c # d # s) = (decimal_digit c \<and> (if d = CHR ''_'' then digit_groups s else digit_groups (d # s)))"

definition nat_literal :: "string \<Rightarrow> nat option" where
  "nat_literal s = (if digit_groups s then Some (read_nat (filter decimal_digit s)) else None)"

definition int_literal :: "string \<Rightarrow> int option" where
  "int_literal s =
     (case strip_spaces s of
        [] \<Rightarrow> None
      | c # r \<Rightarrow>
          if c = CHR ''-'' then map_option (\<lambda>n. - int n) (nat_literal r)
          else if c = CHR ''+'' then map_option int (nat_literal r)
          else map_option int (nat_literal (c # r)))"

subsection \<open>Machines, runs, and what every run keeps\<close>

text \<open>A component with state is a step function: an event produces an observation and the next
  state. A run collects the observations.\<close>

fun run_steps :: "('s \<Rightarrow> 'e \<Rightarrow> 'o \<times> 's) \<Rightarrow> 's \<Rightarrow> 'e list \<Rightarrow> 'o list \<times> 's" where
  "run_steps step s [] = ([], s)"
| "run_steps step s (e # es) =
     (case step s e of (o1, s1) \<Rightarrow> case run_steps step s1 es of (os, s2) \<Rightarrow> (o1 # os, s2))"

lemma run_steps_Cons [simp]:
  "fst (run_steps step s (e # es)) = fst (step s e) # fst (run_steps step (snd (step s e)) es)"
  "snd (run_steps step s (e # es)) = snd (run_steps step (snd (step s e)) es)"
  by (simp_all split: prod.split)

declare run_steps.simps(2) [simp del]

lemma run_steps_append:
  "snd (run_steps step s (es @ fs)) = snd (run_steps step (snd (run_steps step s es)) fs)"
  "fst (run_steps step s (es @ fs)) =
     fst (run_steps step s es) @ fst (run_steps step (snd (run_steps step s es)) fs)"
  by (induction es arbitrary: s) simp_all

lemma length_run_steps [simp]: "length (fst (run_steps step s es)) = length es"
  by (induction es arbitrary: s) simp_all

text \<open>The contract of a component with an invariant: every operation keeps it. What holds after one
  operation then holds after any sequence of operations.\<close>

locale invariant_machine =
  fixes step :: "'s \<Rightarrow> 'e \<Rightarrow> 'o \<times> 's"
    and inv :: "'s \<Rightarrow> bool"
  assumes step_inv: "inv s \<Longrightarrow> inv (snd (step s e))"
begin

lemma run_inv: "inv s \<Longrightarrow> inv (snd (run_steps step s es))"
proof (induction es arbitrary: s)
  case Nil
  then show ?case by simp
next
  case (Cons e es)
  then have "inv (snd (step s e))" by (blast intro: step_inv)
  then have "inv (snd (run_steps step (snd (step s e)) es))" by (rule Cons.IH)
  then show ?case by (simp add: run_steps_Cons)
qed

end

text \<open>A store with a capacity: the invariant bounds the size, so no run exceeds the capacity.\<close>

locale bounded_store = invariant_machine +
  fixes occupancy :: "'s \<Rightarrow> nat"
    and capacity :: "'s \<Rightarrow> nat"
  assumes inv_bound: "inv s \<Longrightarrow> occupancy s \<le> capacity s"
    and capacity_const: "capacity (snd (step s e)) = capacity s"
begin

lemma run_capacity: "capacity (snd (run_steps step s es)) = capacity s"
  by (induction es arbitrary: s) (simp_all add: run_steps_Cons capacity_const)

lemma run_bounded: "inv s \<Longrightarrow> occupancy (snd (run_steps step s es)) \<le> capacity s"
  using inv_bound [OF run_inv] run_capacity by metis

end

text \<open>Refinement: a machine and its specification give the same observations as long as the
  environment keeps to what the specification allows.\<close>

fun ok_run :: "('t \<Rightarrow> 'e \<Rightarrow> 'o \<times> 't) \<Rightarrow> ('t \<Rightarrow> 'e \<Rightarrow> bool) \<Rightarrow> 't \<Rightarrow> 'e list \<Rightarrow> bool" where
  "ok_run step ok t [] = True"
| "ok_run step ok t (e # es) = (ok t e \<and> ok_run step ok (snd (step t e)) es)"

locale simulation =
  fixes step :: "'s \<Rightarrow> 'e \<Rightarrow> 'o \<times> 's"
    and spec :: "'t \<Rightarrow> 'e \<Rightarrow> 'o \<times> 't"
    and ok :: "'t \<Rightarrow> 'e \<Rightarrow> bool"
    and rel :: "'s \<Rightarrow> 't \<Rightarrow> bool"
  assumes sim: "rel s t \<Longrightarrow> ok t e \<Longrightarrow>
      fst (step s e) = fst (spec t e) \<and> rel (snd (step s e)) (snd (spec t e))"
begin

lemma run_sim:
  "rel s t \<Longrightarrow> ok_run spec ok t es \<Longrightarrow>
     fst (run_steps step s es) = fst (run_steps spec t es)
     \<and> rel (snd (run_steps step s es)) (snd (run_steps spec t es))"
proof (induction es arbitrary: s t)
  case Nil
  then show ?case by simp
next
  case (Cons e es)
  then have one: "fst (step s e) = fst (spec t e)" "rel (snd (step s e)) (snd (spec t e))"
    using sim [of s t e] by auto
  from Cons.prems have "ok_run spec ok (snd (spec t e)) es" by simp
  with Cons.IH [OF one(2)] one(1) show ?case by (simp add: run_steps_Cons)
qed

end

subsection \<open>Python values and foreign exceptions\<close>

datatype pyval =
    PNone
  | PBool bool
  | PInt int
  | PFloat real
  | PStr string
  | PBytes "nat list"
  | PList "pyval list"
  | PDict "(string \<times> pyval) list"

text \<open>The exception classes that dbkit tests with \<^verbatim>\<open>isinstance\<close> or names in an
  \<^verbatim>\<open>except\<close> clause. An exception value carries the list of those it is an instance of, so
  no class hierarchy of a third-party package is assumed.\<close>

datatype py_class =
    CException
  | CTimeoutError
  | CConnectionError
  | COSError
  | CKeyError
  | CTypeError
  | CValueError
  | CAttributeError
  | CRuntimeError
  | CCancelledError
  | CStopIteration
  | CSAIntegrityError
  | CSAProgrammingError
  | CSAOperationalError
  | CSADisconnectionError
  | CSATimeoutError
  | CSADBAPIError
  | CNoResultFound
  | CMultipleResultsFound

text \<open>An attribute read with \<^verbatim>\<open>getattr\<close>: missing, a string, or some other value.\<close>

datatype py_attr = NoAttr | AttrStr string | AttrOther

text \<open>The psycopg \<^verbatim>\<open>diag\<close> attribute: missing, \<^verbatim>\<open>None\<close>, or an object with its own
  \<^verbatim>\<open>sqlstate\<close>.\<close>

datatype py_diag = NoDiag | DiagNone | Diag py_attr

datatype py_exn = PyExn
  (exn_classes: "py_class list")
  (exn_str: string)
  (exn_orig: "py_exn option")
  (exn_sqlstate: py_attr)
  (exn_pgcode: py_attr)
  (exn_diag: py_diag)
  (exn_conn_invalidated: bool)

definition isinstance :: "py_exn \<Rightarrow> py_class \<Rightarrow> bool" where
  "isinstance e c \<longleftrightarrow> c \<in> set (exn_classes e)"

text \<open>An exception of the standard library with no driver attributes.\<close>

definition plain_exn :: "py_class list \<Rightarrow> string \<Rightarrow> py_exn" where
  "plain_exn cs msg = PyExn cs msg None NoAttr NoAttr NoDiag False"

lemma isinstance_plain [simp]: "isinstance (plain_exn cs msg) c \<longleftrightarrow> c \<in> set cs"
  by (simp add: isinstance_def plain_exn_def)

end
