(* ===== verification/Errors.thy ===== *)
theory Errors
  imports Prelude
begin

text \<open>
  The normalized error hierarchy (\<^verbatim>\<open>_core/errors/base.py\<close>): categories, the exception
  classes with their class attributes looked up along the method-resolution order, the instance
  built by \<^verbatim>\<open>__init__\<close> (a record), and the operations on it. \<open>raised\<close> is what a
  Python call can raise: a normalized error or a foreign exception.
\<close>

datatype error_category =
    CONFIGURATION | ROUTING | AVAILABILITY | CONNECTION | POOL | TIMEOUT | LOCK | CONCURRENCY
  | INTEGRITY | PROGRAMMING | PERMISSION | TRANSACTION | CANCELLED | RESULT | RESILIENCE
  | UNSUPPORTED

fun category_value :: "error_category \<Rightarrow> string" where
  "category_value CONFIGURATION = ''configuration''"
| "category_value ROUTING = ''routing''"
| "category_value AVAILABILITY = ''availability''"
| "category_value CONNECTION = ''connection''"
| "category_value POOL = ''pool''"
| "category_value TIMEOUT = ''timeout''"
| "category_value LOCK = ''lock''"
| "category_value CONCURRENCY = ''concurrency''"
| "category_value INTEGRITY = ''integrity''"
| "category_value PROGRAMMING = ''programming''"
| "category_value PERMISSION = ''permission''"
| "category_value TRANSACTION = ''transaction''"
| "category_value CANCELLED = ''cancelled''"
| "category_value RESULT = ''result''"
| "category_value RESILIENCE = ''resilience''"
| "category_value UNSUPPORTED = ''unsupported''"

definition OVERLOAD_CATEGORIES :: "error_category list" where
  "OVERLOAD_CATEGORIES = [POOL, CONCURRENCY, RESILIENCE, AVAILABILITY, CONNECTION]"

definition TIMEOUT_CATEGORIES :: "error_category list" where
  "TIMEOUT_CATEGORIES = [TIMEOUT, CANCELLED, LOCK]"

datatype error_class =
    DatabaseError
  | DatabaseConfigurationError
  | DatabaseRoutingError
  | DatabaseUnavailableError
  | DatabaseConnectionError
  | DatabasePoolTimeoutError
  | DatabaseQueryTimeoutError
  | DatabaseLockTimeoutError
  | DatabaseDeadlockError
  | DatabaseSerializationError
  | DatabaseIntegrityError
  | DatabaseUniqueViolationError
  | DatabaseForeignKeyViolationError
  | DatabaseNotNullViolationError
  | DatabaseCheckViolationError
  | DatabaseProgrammingError
  | DatabaseSyntaxError
  | DatabasePermissionError
  | DatabaseReadOnlyError
  | DatabaseTransactionError
  | DatabaseCommitUnknownError
  | DatabaseCancellationError
  | DatabaseResultError
  | DatabaseMappingError
  | DatabaseCircuitOpenError
  | DatabaseOverloadedError
  | DatabaseUnsupportedOperationError

text \<open>The method-resolution order within the hierarchy, from each \<^verbatim>\<open>class C(B)\<close> line.\<close>

fun mro :: "error_class \<Rightarrow> error_class list" where
  "mro DatabaseError = [DatabaseError]"
| "mro DatabaseUniqueViolationError =
     [DatabaseUniqueViolationError, DatabaseIntegrityError, DatabaseError]"
| "mro DatabaseForeignKeyViolationError =
     [DatabaseForeignKeyViolationError, DatabaseIntegrityError, DatabaseError]"
| "mro DatabaseNotNullViolationError =
     [DatabaseNotNullViolationError, DatabaseIntegrityError, DatabaseError]"
| "mro DatabaseCheckViolationError =
     [DatabaseCheckViolationError, DatabaseIntegrityError, DatabaseError]"
| "mro DatabaseSyntaxError = [DatabaseSyntaxError, DatabaseProgrammingError, DatabaseError]"
| "mro c = [c, DatabaseError]"

definition is_subclass :: "error_class \<Rightarrow> error_class \<Rightarrow> bool" where
  "is_subclass c d \<longleftrightarrow> d \<in> set (mro c)"

subsection \<open>Class attributes\<close>

text \<open>Every class of the hierarchy sets its own \<^verbatim>\<open>code\<close>.\<close>

fun own_code :: "error_class \<Rightarrow> string option" where
  "own_code DatabaseError = Some ''database_error''"
| "own_code DatabaseConfigurationError = Some ''configuration_error''"
| "own_code DatabaseRoutingError = Some ''routing_error''"
| "own_code DatabaseUnavailableError = Some ''unavailable''"
| "own_code DatabaseConnectionError = Some ''connection_error''"
| "own_code DatabasePoolTimeoutError = Some ''pool_timeout''"
| "own_code DatabaseQueryTimeoutError = Some ''query_timeout''"
| "own_code DatabaseLockTimeoutError = Some ''lock_timeout''"
| "own_code DatabaseDeadlockError = Some ''deadlock''"
| "own_code DatabaseSerializationError = Some ''serialization_failure''"
| "own_code DatabaseIntegrityError = Some ''integrity_error''"
| "own_code DatabaseUniqueViolationError = Some ''unique_violation''"
| "own_code DatabaseForeignKeyViolationError = Some ''foreign_key_violation''"
| "own_code DatabaseNotNullViolationError = Some ''not_null_violation''"
| "own_code DatabaseCheckViolationError = Some ''check_violation''"
| "own_code DatabaseProgrammingError = Some ''programming_error''"
| "own_code DatabaseSyntaxError = Some ''syntax_error''"
| "own_code DatabasePermissionError = Some ''permission_denied''"
| "own_code DatabaseReadOnlyError = Some ''read_only_transaction''"
| "own_code DatabaseTransactionError = Some ''transaction_error''"
| "own_code DatabaseCommitUnknownError = Some ''commit_unknown''"
| "own_code DatabaseCancellationError = Some ''cancelled''"
| "own_code DatabaseResultError = Some ''result_error''"
| "own_code DatabaseMappingError = Some ''mapping_error''"
| "own_code DatabaseCircuitOpenError = Some ''circuit_open''"
| "own_code DatabaseOverloadedError = Some ''overloaded''"
| "own_code DatabaseUnsupportedOperationError = Some ''unsupported_operation''"

text \<open>The classes below \<^verbatim>\<open>DatabaseIntegrityError\<close> and
  \<^verbatim>\<open>DatabaseSyntaxError\<close> inherit their category.\<close>

fun own_category :: "error_class \<Rightarrow> error_category option" where
  "own_category DatabaseError = Some AVAILABILITY"
| "own_category DatabaseConfigurationError = Some CONFIGURATION"
| "own_category DatabaseRoutingError = Some ROUTING"
| "own_category DatabaseUnavailableError = Some AVAILABILITY"
| "own_category DatabaseConnectionError = Some CONNECTION"
| "own_category DatabasePoolTimeoutError = Some POOL"
| "own_category DatabaseQueryTimeoutError = Some TIMEOUT"
| "own_category DatabaseLockTimeoutError = Some LOCK"
| "own_category DatabaseDeadlockError = Some LOCK"
| "own_category DatabaseSerializationError = Some CONCURRENCY"
| "own_category DatabaseIntegrityError = Some INTEGRITY"
| "own_category DatabaseProgrammingError = Some PROGRAMMING"
| "own_category DatabasePermissionError = Some PERMISSION"
| "own_category DatabaseReadOnlyError = Some PERMISSION"
| "own_category DatabaseTransactionError = Some TRANSACTION"
| "own_category DatabaseCommitUnknownError = Some TRANSACTION"
| "own_category DatabaseCancellationError = Some CANCELLED"
| "own_category DatabaseResultError = Some RESULT"
| "own_category DatabaseMappingError = Some RESULT"
| "own_category DatabaseCircuitOpenError = Some RESILIENCE"
| "own_category DatabaseOverloadedError = Some CONCURRENCY"
| "own_category DatabaseUnsupportedOperationError = Some UNSUPPORTED"
| "own_category c = None"

fun own_retryable :: "error_class \<Rightarrow> bool option" where
  "own_retryable DatabaseError = Some False"
| "own_retryable DatabaseUnavailableError = Some True"
| "own_retryable DatabaseConnectionError = Some True"
| "own_retryable DatabasePoolTimeoutError = Some True"
| "own_retryable DatabaseLockTimeoutError = Some True"
| "own_retryable DatabaseDeadlockError = Some True"
| "own_retryable DatabaseSerializationError = Some True"
| "own_retryable DatabaseCircuitOpenError = Some True"
| "own_retryable DatabaseOverloadedError = Some True"
| "own_retryable c = None"

definition class_code :: "error_class \<Rightarrow> string" where
  "class_code c = (case attr_lookup own_code (mro c) of Some v \<Rightarrow> v | None \<Rightarrow> '''')"

definition class_category :: "error_class \<Rightarrow> error_category" where
  "class_category c = (case attr_lookup own_category (mro c) of Some v \<Rightarrow> v | None \<Rightarrow> AVAILABILITY)"

definition class_retryable :: "error_class \<Rightarrow> bool" where
  "class_retryable c = (case attr_lookup own_retryable (mro c) of Some v \<Rightarrow> v | None \<Rightarrow> False)"

lemma attr_lookup_total:
  "attr_lookup own_code (mro c) \<noteq> None" "attr_lookup own_category (mro c) \<noteq> None"
  "attr_lookup own_retryable (mro c) \<noteq> None"
  by (cases c; simp)+

lemma class_code_nonempty [simp]: "class_code c \<noteq> []"
  by (cases c) (simp_all add: class_code_def)

subsection \<open>Error instances\<close>

record db_error =
  err_class :: error_class
  err_message :: string
  err_code :: string
  err_category :: error_category
  err_retryable :: bool
  err_connection_invalidated :: bool
  err_transaction_state_unknown :: bool
  err_database_name :: "string option"
  err_shard_id :: "string option"
  err_role :: "string option"
  err_query_name :: "string option"
  err_sqlstate :: "string option"
  err_original :: "py_exn option"

text \<open>The keyword arguments of \<^verbatim>\<open>__init__\<close>; \<open>None\<close> is "not passed" (for the two
  booleans, whose default is \<^verbatim>\<open>False\<close>) or the default \<^verbatim>\<open>None\<close>.\<close>

record err_kwargs =
  kw_code :: "string option"
  kw_category :: "error_category option"
  kw_retryable :: "bool option"
  kw_connection_invalidated :: "bool option"
  kw_transaction_state_unknown :: "bool option"
  kw_database_name :: "string option"
  kw_shard_id :: "string option"
  kw_role :: "string option"
  kw_query_name :: "string option"
  kw_sqlstate :: "string option"
  kw_original :: "py_exn option"

definition no_kwargs :: err_kwargs where
  "no_kwargs = \<lparr>kw_code = None, kw_category = None, kw_retryable = None,
     kw_connection_invalidated = None, kw_transaction_state_unknown = None,
     kw_database_name = None, kw_shard_id = None, kw_role = None, kw_query_name = None,
     kw_sqlstate = None, kw_original = None\<rparr>"

definition default_message :: "string \<Rightarrow> err_kwargs \<Rightarrow> string" where
  "default_message code kw = join_with '' ''
     ([code]
      @ (if truthy_str (kw_query_name kw) then [''query='' @ the (kw_query_name kw)] else [])
      @ (if truthy_str (kw_database_name kw) then [''database='' @ the (kw_database_name kw)] else [])
      @ (if truthy_str (kw_sqlstate kw) then [''sqlstate='' @ the (kw_sqlstate kw)] else []))"

definition base_init :: "error_class \<Rightarrow> string \<Rightarrow> err_kwargs \<Rightarrow> db_error" where
  "base_init c message kw =
     (let code = str_or (kw_code kw) (class_code c) in
      \<lparr>err_class = c,
       err_message = (if message = [] then default_message code kw else message),
       err_code = code,
       err_category = (case kw_category kw of Some k \<Rightarrow> k | None \<Rightarrow> class_category c),
       err_retryable = (case kw_retryable kw of Some r \<Rightarrow> r | None \<Rightarrow> class_retryable c),
       err_connection_invalidated = (kw_connection_invalidated kw = Some True),
       err_transaction_state_unknown = (kw_transaction_state_unknown kw = Some True),
       err_database_name = kw_database_name kw,
       err_shard_id = kw_shard_id kw,
       err_role = kw_role kw,
       err_query_name = kw_query_name kw,
       err_sqlstate = kw_sqlstate kw,
       err_original = kw_original kw\<rparr>)"

definition setdefault_true :: "bool option \<Rightarrow> bool option" where
  "setdefault_true b = (case b of None \<Rightarrow> Some True | Some x \<Rightarrow> Some x)"

definition commit_unknown_init :: "string \<Rightarrow> err_kwargs \<Rightarrow> db_error" where
  "commit_unknown_init message kw =
     base_init DatabaseCommitUnknownError message
       (kw\<lparr>kw_transaction_state_unknown := setdefault_true (kw_transaction_state_unknown kw),
           kw_connection_invalidated := setdefault_true (kw_connection_invalidated kw)\<rparr>)"

text \<open>Calling a class: only \<^verbatim>\<open>DatabaseCommitUnknownError\<close> overrides the constructor.\<close>

definition new_error :: "error_class \<Rightarrow> string \<Rightarrow> err_kwargs \<Rightarrow> db_error" where
  "new_error c message kw =
     (if c = DatabaseCommitUnknownError then commit_unknown_init message kw
      else base_init c message kw)"

definition with_context ::
  "string option \<Rightarrow> string option \<Rightarrow> string option \<Rightarrow> string option \<Rightarrow> db_error \<Rightarrow> db_error" where
  "with_context database shard role query e =
     e\<lparr>err_database_name := (if database \<noteq> None then database else err_database_name e),
       err_shard_id := (if shard \<noteq> None then shard else err_shard_id e),
       err_role := (if role \<noteq> None then role else err_role e),
       err_query_name := (if query \<noteq> None then query else err_query_name e)\<rparr>"

definition opt_str :: "string option \<Rightarrow> pyval" where
  "opt_str s = (case s of None \<Rightarrow> PNone | Some x \<Rightarrow> PStr x)"

definition error_to_dict :: "db_error \<Rightarrow> (string, pyval) dict" where
  "error_to_dict e =
     [(''code'', PStr (err_code e)),
      (''category'', PStr (category_value (err_category e))),
      (''retryable'', PBool (err_retryable e)),
      (''connection_invalidated'', PBool (err_connection_invalidated e)),
      (''transaction_state_unknown'', PBool (err_transaction_state_unknown e)),
      (''database'', opt_str (err_database_name e)),
      (''shard'', opt_str (err_shard_id e)),
      (''role'', opt_str (err_role e)),
      (''query_name'', opt_str (err_query_name e)),
      (''sqlstate'', opt_str (err_sqlstate e)),
      (''message'', PStr (err_message e))]"

text \<open>What a call can raise, and the type of a call that can raise.\<close>

datatype raised = DbErr db_error | Foreign py_exn

type_synonym 'a py = "raised + 'a"

definition raise_db :: "error_class \<Rightarrow> string \<Rightarrow> 'a py" where
  "raise_db c msg = Inl (DbErr (new_error c msg no_kwargs))"

definition error_isa :: "db_error \<Rightarrow> error_class \<Rightarrow> bool" where
  "error_isa e c \<longleftrightarrow> is_subclass (err_class e) c"

definition is_db_raise :: "error_class \<Rightarrow> 'a py \<Rightarrow> bool" where
  "is_db_raise c r \<longleftrightarrow>
     (case r of Inl (DbErr e) \<Rightarrow> err_class e = c | _ \<Rightarrow> False)"

subsection \<open>Facts about error instances\<close>

lemma new_error_class [simp]: "err_class (new_error c msg kw) = c"
  by (simp add: new_error_def commit_unknown_init_def base_init_def Let_def)

lemma new_error_category [simp]:
  "err_category (new_error c msg kw) = (case kw_category kw of Some k \<Rightarrow> k | None \<Rightarrow> class_category c)"
  by (cases "kw_category kw") (simp_all add: new_error_def commit_unknown_init_def base_init_def Let_def)

lemma new_error_retryable [simp]:
  "err_retryable (new_error c msg kw) = (case kw_retryable kw of Some k \<Rightarrow> k | None \<Rightarrow> class_retryable c)"
  by (cases "kw_retryable kw") (simp_all add: new_error_def commit_unknown_init_def base_init_def Let_def)

lemma new_error_message:
  "msg \<noteq> [] \<Longrightarrow> err_message (new_error c msg kw) = msg"
  by (simp add: new_error_def commit_unknown_init_def base_init_def Let_def)

lemma new_error_fields [simp]:
  "err_database_name (new_error c msg kw) = kw_database_name kw"
  "err_shard_id (new_error c msg kw) = kw_shard_id kw"
  "err_role (new_error c msg kw) = kw_role kw"
  "err_query_name (new_error c msg kw) = kw_query_name kw"
  "err_sqlstate (new_error c msg kw) = kw_sqlstate kw"
  "err_original (new_error c msg kw) = kw_original kw"
  by (simp_all add: new_error_def commit_unknown_init_def base_init_def Let_def)

lemma new_error_state_unknown:
  "err_transaction_state_unknown (new_error c msg kw) \<longleftrightarrow>
     (if c = DatabaseCommitUnknownError then kw_transaction_state_unknown kw \<noteq> Some False
      else kw_transaction_state_unknown kw = Some True)"
  by (auto simp: new_error_def commit_unknown_init_def base_init_def setdefault_true_def Let_def
      split: option.splits)

lemma no_kwargs_simps [simp]:
  "kw_code no_kwargs = None" "kw_category no_kwargs = None" "kw_retryable no_kwargs = None"
  "kw_connection_invalidated no_kwargs = None" "kw_transaction_state_unknown no_kwargs = None"
  "kw_database_name no_kwargs = None" "kw_shard_id no_kwargs = None" "kw_role no_kwargs = None"
  "kw_query_name no_kwargs = None" "kw_sqlstate no_kwargs = None" "kw_original no_kwargs = None"
  by (simp_all add: no_kwargs_def)

lemma is_db_raise_raise_db [simp]: "is_db_raise c (raise_db d msg) \<longleftrightarrow> c = d"
  by (auto simp: is_db_raise_def raise_db_def)

lemma is_db_raise_Inr [simp]: "\<not> is_db_raise c (Inr x)"
  by (simp add: is_db_raise_def)

lemma raise_db_not_Inr [simp]: "raise_db c msg \<noteq> Inr x" "Inr x \<noteq> raise_db c msg"
  by (simp_all add: raise_db_def)

lemma with_context_frame [simp]:
  "err_class (with_context d s r q e) = err_class e"
  "err_code (with_context d s r q e) = err_code e"
  "err_message (with_context d s r q e) = err_message e"
  "err_category (with_context d s r q e) = err_category e"
  "err_retryable (with_context d s r q e) = err_retryable e"
  "err_sqlstate (with_context d s r q e) = err_sqlstate e"
  "err_connection_invalidated (with_context d s r q e) = err_connection_invalidated e"
  "err_transaction_state_unknown (with_context d s r q e) = err_transaction_state_unknown e"
  by (simp_all add: with_context_def)

lemma with_context_same:
  "err_database_name e = d \<Longrightarrow> err_shard_id e = s \<Longrightarrow> err_role e = r \<Longrightarrow> err_query_name e = q \<Longrightarrow>
     with_context d s r q e = e"
  by (cases e) (auto simp: with_context_def)

lemma with_context_keeps_known:
  "err_query_name e \<noteq> None \<Longrightarrow> err_query_name (with_context d s r q e) \<noteq> None"
  by (auto simp: with_context_def)

end
