(* ===== verification/Redaction.thy ===== *)
theory Redaction
  imports Prelude
begin

text \<open>
  Secret redaction (\<^verbatim>\<open>_core/errors/redaction.py\<close>). The regular expression
  \<^verbatim>\<open>_DSN_RE\<close> is a matcher: each of its three character classes excludes the character
  that must follow it, so greedy matching never backtracks and a maximal run decides the match.
  \<^verbatim>\<open>urlsplit\<close> and \<^verbatim>\<open>urlunsplit\<close> are those of CPython 3.11; a bracketed IPv6
  host is taken to be a valid one. Characters are code points below 256.
\<close>

subsection \<open>Character classes\<close>

definition ws_char :: "char \<Rightarrow> bool" where
  "ws_char c \<longleftrightarrow> (let n = of_char c :: nat in
     n = 32 \<or> (9 \<le> n \<and> n \<le> 13) \<or> (28 \<le> n \<and> n \<le> 31) \<or> n = 133 \<or> n = 160)"

definition alpha_char :: "char \<Rightarrow> bool" where
  "alpha_char c \<longleftrightarrow> (let n = of_char c :: nat in (65 \<le> n \<and> n \<le> 90) \<or> (97 \<le> n \<and> n \<le> 122))"

definition digit_char :: "char \<Rightarrow> bool" where
  "digit_char c \<longleftrightarrow> (let n = of_char c :: nat in 48 \<le> n \<and> n \<le> 57)"

definition dsn_scheme_char :: "char \<Rightarrow> bool" where
  "dsn_scheme_char c \<longleftrightarrow> alpha_char c \<or> digit_char c \<or> c = CHR ''+''"

definition dsn_user_char :: "char \<Rightarrow> bool" where
  "dsn_user_char c \<longleftrightarrow> c \<noteq> CHR '':'' \<and> c \<noteq> CHR ''/'' \<and> \<not> ws_char c"

definition dsn_pw_char :: "char \<Rightarrow> bool" where
  "dsn_pw_char c \<longleftrightarrow> c \<noteq> CHR ''@'' \<and> c \<noteq> CHR ''/'' \<and> \<not> ws_char c"

definition lower_char :: "char \<Rightarrow> char" where
  "lower_char c = (let n = of_char c :: nat in
     if (65 \<le> n \<and> n \<le> 90) \<or> (192 \<le> n \<and> n \<le> 222 \<and> n \<noteq> 215) then char_of (n + 32) else c)"

definition lower :: "string \<Rightarrow> string" where
  "lower s = map lower_char s"

definition REDACTED :: string where
  "REDACTED = ''***''"

subsection \<open>The regular-expression pass\<close>

text \<open>A match at the start of the text: the kept prefix, the password, what follows the at
  sign.\<close>

definition dsn_match :: "string \<Rightarrow> (string \<times> string \<times> string) option" where
  "dsn_match s =
     (let scheme = takeWhile dsn_scheme_char s; r1 = dropWhile dsn_scheme_char s in
      if scheme \<noteq> [] \<and> take 3 r1 = ''://'' then
        (let r2 = drop 3 r1; user = takeWhile dsn_user_char r2; r3 = dropWhile dsn_user_char r2 in
         if user \<noteq> [] \<and> take 1 r3 = '':'' then
           (let r4 = drop 1 r3; pw = takeWhile dsn_pw_char r4; r5 = dropWhile dsn_pw_char r4 in
            if pw \<noteq> [] \<and> take 1 r5 = ''@''
            then Some (scheme @ ''://'' @ user @ '':'', pw, drop 1 r5) else None)
         else None)
      else None)"

lemma length_dropWhile_lt:
  "takeWhile P xs \<noteq> [] \<Longrightarrow> length (dropWhile P xs) < length xs"
  by (metis length_greater_0_conv length_append less_add_same_cancel2 takeWhile_dropWhile_id)

lemma dsn_match_shorter: "dsn_match s = Some (p, pw, r) \<Longrightarrow> length r < length s"
proof -
  assume m: "dsn_match s = Some (p, pw, r)"
  let ?r1 = "dropWhile dsn_scheme_char s"
  let ?r3 = "dropWhile dsn_user_char (drop 3 ?r1)"
  have ne: "takeWhile dsn_scheme_char s \<noteq> []"
    and r: "r = drop 1 (dropWhile dsn_pw_char (drop 1 ?r3))"
    using m by (auto simp: dsn_match_def Let_def split: if_splits)
  have "length r \<le> length ?r1"
    using length_dropWhile_le [of dsn_pw_char "drop 1 ?r3"]
      length_dropWhile_le [of dsn_user_char "drop 3 ?r1"] r by simp
  also have "\<dots> < length s" by (rule length_dropWhile_lt [OF ne])
  finally show ?thesis .
qed

function dsn_sub :: "string \<Rightarrow> string" where
  "dsn_sub s =
     (case dsn_match s of
        Some (pre, pw, rest) \<Rightarrow> pre @ REDACTED @ ''@'' @ dsn_sub rest
      | None \<Rightarrow> (case s of [] \<Rightarrow> [] | c # cs \<Rightarrow> c # dsn_sub cs))"
  by pat_completeness auto
termination
  by (relation "measure length") (auto dest: dsn_match_shorter)

declare dsn_sub.simps [simp del]

subsection \<open>URL splitting\<close>

record url_parts =
  up_scheme :: string
  up_netloc :: string
  up_path :: string
  up_query :: string
  up_fragment :: string

definition url_scheme_char :: "char \<Rightarrow> bool" where
  "url_scheme_char c \<longleftrightarrow> alpha_char c \<or> digit_char c \<or> c \<in> set ''+-.''"

text \<open>\<^verbatim>\<open>str.partition\<close>: the text before the first separator, whether it occurs, the rest.\<close>

definition partition_at :: "char \<Rightarrow> string \<Rightarrow> string \<times> bool \<times> string" where
  "partition_at c s = (takeWhile (\<lambda>x. x \<noteq> c) s, c \<in> set s, drop 1 (dropWhile (\<lambda>x. x \<noteq> c) s))"

text \<open>\<^verbatim>\<open>str.rpartition\<close>: the text before the last separator, whether it occurs, the rest.\<close>

definition rpartition_at :: "char \<Rightarrow> string \<Rightarrow> string \<times> bool \<times> string" where
  "rpartition_at c s = (case partition_at c (rev s) of (a, found, b) \<Rightarrow> (rev b, found, rev a))"

definition urlsplit :: "string \<Rightarrow> url_parts option" where
  "urlsplit raw =
     (let url0 = filter (\<lambda>c. (of_char c :: nat) \<notin> {9, 10, 13})
                   (dropWhile (\<lambda>c. (of_char c :: nat) \<le> 32) raw);
          i = length (takeWhile (\<lambda>c. c \<noteq> CHR '':'') url0);
          has = (CHR '':'' \<in> set url0 \<and> i > 0 \<and> alpha_char (url0 ! 0)
                 \<and> list_all url_scheme_char (take i url0));
          scheme = (if has then lower (take i url0) else []);
          url1 = (if has then drop (Suc i) url0 else url0);
          slashes = (take 2 url1 = ''//'');
          netloc = (if slashes then takeWhile (\<lambda>c. c \<notin> set ''/?#'') (drop 2 url1) else []);
          url2 = (if slashes then dropWhile (\<lambda>c. c \<notin> set ''/?#'') (drop 2 url1) else url1)
      in if (CHR ''['' \<in> set netloc) \<noteq> (CHR '']'' \<in> set netloc) then None
         else (case partition_at (CHR ''#'') url2 of (url3, _, fragment) \<Rightarrow>
               case partition_at (CHR ''?'') url3 of (path, _, query) \<Rightarrow>
               Some \<lparr>up_scheme = scheme, up_netloc = netloc, up_path = path,
                      up_query = query, up_fragment = fragment\<rparr>))"

definition url_password :: "url_parts \<Rightarrow> string option" where
  "url_password p =
     (case rpartition_at (CHR ''@'') (up_netloc p) of (userinfo, have_info, _) \<Rightarrow>
      if have_info then
        (case partition_at (CHR '':'') userinfo of (_, have_password, password) \<Rightarrow>
         if have_password then Some password else None)
      else None)"

text \<open>\<^verbatim>\<open>urlunsplit\<close> where the network location is not empty, the only case in which
  redaction rebuilds.\<close>

definition urlunsplit :: "url_parts \<Rightarrow> string" where
  "urlunsplit p =
     (let path = (if up_path p \<noteq> [] \<and> take 1 (up_path p) \<noteq> ''/'' then ''/'' @ up_path p else up_path p);
          u1 = ''//'' @ up_netloc p @ path;
          u2 = (if up_scheme p \<noteq> [] then up_scheme p @ '':'' @ u1 else u1);
          u3 = (if up_query p \<noteq> [] then u2 @ ''?'' @ up_query p else u2)
      in if up_fragment p \<noteq> [] then u3 @ ''#'' @ up_fragment p else u3)"

text \<open>\<^verbatim>\<open>str.replace\<close> with a non-empty pattern, left to right.\<close>

function replace_all :: "string \<Rightarrow> string \<Rightarrow> string \<Rightarrow> string" where
  "replace_all pat new s =
     (if pat \<noteq> [] \<and> s \<noteq> [] then
        (if take (length pat) s = pat then new @ replace_all pat new (drop (length pat) s)
         else hd s # replace_all pat new (tl s))
      else s)"
  by pat_completeness auto
termination
  by (relation "measure (\<lambda>(_, _, s). length s)") (auto simp: diff_less)

declare replace_all.simps [simp del]

subsection \<open>The operations\<close>

definition redact_dsn :: "string \<Rightarrow> string" where
  "redact_dsn value =
     (let redacted = dsn_sub value in
      case urlsplit redacted of
        None \<Rightarrow> redacted
      | Some parts \<Rightarrow>
          (case url_password parts of
             None \<Rightarrow> redacted
           | Some pw \<Rightarrow>
               if pw = [] then redacted
               else urlunsplit (parts\<lparr>up_netloc :=
                      replace_all ('':'' @ pw @ ''@'') ('':'' @ REDACTED @ ''@'') (up_netloc parts)\<rparr>)))"

definition sanitize_message :: "string \<Rightarrow> string" where
  "sanitize_message message = redact_dsn message"

definition SENSITIVE_KEY_HINTS :: "string list" where
  "SENSITIVE_KEY_HINTS =
     [''password'', ''passwd'', ''secret'', ''token'', ''api_key'', ''apikey'', ''authorization'',
      ''auth'', ''credential'', ''private_key'', ''access_key'', ''ssn'', ''national_id'',
      ''credit_card'', ''card_number'', ''cvv'', ''iban'', ''dob'', ''date_of_birth'', ''pin'']"

fun is_substring :: "string \<Rightarrow> string \<Rightarrow> bool" where
  "is_substring p [] = (p = [])"
| "is_substring p (c # cs) = (take (length p) (c # cs) = p \<or> is_substring p cs)"

definition is_sensitive_key :: "string \<Rightarrow> bool" where
  "is_sensitive_key key = list_ex (\<lambda>hint. is_substring hint (lower key)) SENSITIVE_KEY_HINTS"

text \<open>\<open>None\<close> for a missing parameter map or a missing set of sensitive names.\<close>

definition redact_params ::
  "(string, pyval) dict option \<Rightarrow> string list option \<Rightarrow> (string, pyval) dict" where
  "redact_params params sensitive =
     (case params of
        None \<Rightarrow> []
      | Some ps \<Rightarrow>
          map (\<lambda>(key, value).
                 (key, if key \<in> set (case sensitive of None \<Rightarrow> [] | Some s \<Rightarrow> s) \<or> is_sensitive_key key
                       then PStr REDACTED else value)) ps)"

definition redacted_params_for_log ::
  "(string, pyval) dict option \<Rightarrow> bool \<Rightarrow> string list option \<Rightarrow> (string, pyval) dict option" where
  "redacted_params_for_log params log_parameters sensitive =
     (if \<not> log_parameters \<or> params = None \<or> params = Some [] then None
      else Some (redact_params params sensitive))"

subsection \<open>The regular-expression pass on a well-formed DSN\<close>

lemma takeWhile_stop: "\<not> P y \<Longrightarrow> takeWhile P (xs @ y # ys) = takeWhile P xs"
  by (induction xs) auto

lemma dropWhile_stop: "\<not> P y \<Longrightarrow> dropWhile P (xs @ y # ys) = dropWhile P xs @ y # ys"
  by (induction xs) auto

lemma takeWhile_all: "list_all P xs \<Longrightarrow> takeWhile P xs = xs"
  by (induction xs) auto

lemma dropWhile_all: "list_all P xs \<Longrightarrow> dropWhile P xs = []"
  by (induction xs) auto

lemma separator_chars [simp]:
  "\<not> dsn_scheme_char (CHR '':'')" "\<not> dsn_user_char (CHR '':'')" "\<not> dsn_pw_char (CHR ''@'')"
  by (simp_all add: dsn_scheme_char_def dsn_user_char_def dsn_pw_char_def alpha_char_def
      digit_char_def Let_def)

lemma dsn_match_dsn:
  assumes "sch \<noteq> []" "list_all dsn_scheme_char sch" "usr \<noteq> []" "list_all dsn_user_char usr"
    and "pw \<noteq> []" "list_all dsn_pw_char pw"
  shows "dsn_match (sch @ ''://'' @ usr @ '':'' @ pw @ ''@'' @ rest) =
           Some (sch @ ''://'' @ usr @ '':'', pw, rest)"
  using assms by (simp add: dsn_match_def takeWhile_stop dropWhile_stop takeWhile_all dropWhile_all)

lemma dsn_sub_dsn:
  assumes "sch \<noteq> []" "list_all dsn_scheme_char sch" "usr \<noteq> []" "list_all dsn_user_char usr"
    and "pw \<noteq> []" "list_all dsn_pw_char pw"
  shows "dsn_sub (sch @ ''://'' @ usr @ '':'' @ pw @ ''@'' @ rest) =
           sch @ ''://'' @ usr @ '':'' @ REDACTED @ ''@'' @ dsn_sub rest"
  using dsn_match_dsn [OF assms, of rest]
  by (subst dsn_sub.simps) simp

lemma ws_not_classes:
  assumes "ws_char w"
  shows "\<not> dsn_scheme_char w" "\<not> dsn_user_char w" "\<not> dsn_pw_char w" "w \<notin> set '':/@''"
  using assms
  by (auto simp: ws_char_def dsn_scheme_char_def dsn_user_char_def dsn_pw_char_def alpha_char_def
      digit_char_def Let_def)

lemma take1_stop: "w \<noteq> a \<Longrightarrow> take 1 (xs @ w # ys) = [a] \<longleftrightarrow> take 1 xs = [a]"
  by (cases xs) auto

lemma take3_stop:
  "w \<notin> {a, b, c} \<Longrightarrow> take 3 (xs @ w # ys) = [a, b, c] \<longleftrightarrow> take 3 xs = [a, b, c]"
  by (cases xs; cases "tl xs"; cases "tl (tl xs)") (auto simp: numeral_3_eq_3)

lemma drop3_stop: "take 3 xs = [a, b, c] \<Longrightarrow> drop 3 (xs @ ys) = drop 3 xs @ ys"
  by (cases xs; cases "tl xs"; cases "tl (tl xs)") (auto simp: numeral_3_eq_3)

lemma drop1_stop: "take 1 xs = [a] \<Longrightarrow> drop 1 (xs @ ys) = drop 1 xs @ ys"
  by (cases xs) auto

lemma dsn_match_stop:
  assumes w: "ws_char w"
  shows "dsn_match (p @ w # x) =
    (case dsn_match p of None \<Rightarrow> None | Some (a, b, r) \<Rightarrow> Some (a, b, r @ w # x))"
proof -
  note st = takeWhile_stop dropWhile_stop ws_not_classes [OF w]
  have ne: "w \<notin> {CHR '':'', CHR ''/'', CHR ''/''}" "w \<noteq> CHR '':''" "w \<noteq> CHR ''@''"
    using ws_not_classes(4) [OF w] by auto
  show ?thesis
    by (simp add: dsn_match_def Let_def st take3_stop [OF ne(1)] drop3_stop
        take1_stop [OF ne(2)] take1_stop [OF ne(3)] drop1_stop
        del: take_append drop_append One_nat_def)
qed

lemma dsn_sub_stop:
  assumes w: "ws_char w"
  shows "dsn_sub (p @ w # x) = dsn_sub p @ w # dsn_sub x"
proof (induction p rule: dsn_sub.induct)
  case (1 p)
  note unf = dsn_sub.simps [of "p @ w # x"] dsn_sub.simps [of p]
  show ?case
  proof (cases "dsn_match p")
    case (Some t)
    obtain a b r where t: "t = (a, b, r)" by (cases t)
    have IH: "dsn_sub (r @ w # x) = dsn_sub r @ w # dsn_sub x"
      using "1.IH"(2) [OF Some] t by simp
    show ?thesis
      using Some t IH by (simp add: unf dsn_match_stop [OF w])
  next
    case None
    then have "dsn_match (p @ w # x) = None" by (simp add: dsn_match_stop [OF w])
    with None show ?thesis
      unfolding unf using "1.IH"(1) by (cases p) simp_all
  qed
qed


lemma dsn_sub_hides:
  assumes dsn: "sch \<noteq> []" "list_all dsn_scheme_char sch" "usr \<noteq> []" "list_all dsn_user_char usr"
    and pw: "pw1 \<noteq> []" "list_all dsn_pw_char pw1" "pw2 \<noteq> []" "list_all dsn_pw_char pw2"
    and pre: "pre = [] \<or> ws_char (List.last pre)"
  shows "dsn_sub (pre @ sch @ ''://'' @ usr @ '':'' @ pw1 @ ''@'' @ rest)
       = dsn_sub (pre @ sch @ ''://'' @ usr @ '':'' @ pw2 @ ''@'' @ rest)"
proof (cases "pre = []")
  case True
  then show ?thesis
    by (simp only: append_Nil dsn_sub_dsn [OF dsn pw(1,2)] dsn_sub_dsn [OF dsn pw(3,4)])
next
  case False
  then have p: "pre = butlast pre @ [List.last pre]" "ws_char (List.last pre)" using pre by simp_all
  have "dsn_sub (pre @ x) = dsn_sub (butlast pre) @ List.last pre # dsn_sub x" for x
    by (subst p(1)) (simp add: dsn_sub_stop [OF p(2)])
  then show ?thesis
    by (simp only: dsn_sub_dsn [OF dsn pw(1,2)] dsn_sub_dsn [OF dsn pw(3,4)])
qed

subsection \<open>Properties\<close>



text \<open>A password with a slash in it is not redacted: the message keeps it in full.\<close>

theorem redact_dsn_leaks_slash:
  "redact_dsn ''postgresql://app:pa/ss@db/app'' = ''postgresql://app:pa/ss@db/app''"
  by code_simp

text \<open>Parameter redaction keeps the keys and their order, replaces the value of every parameter that
  is declared sensitive or whose name contains a sensitive hint in any case, and no other value.\<close>

theorem redact_params_spec:
  "map fst (redact_params (Some ps) sens) = map fst ps
   \<and> length (redact_params (Some ps) sens) = length ps
   \<and> (\<forall>i < length ps. snd (redact_params (Some ps) sens ! i) =
       (if (\<exists>names. sens = Some names \<and> fst (ps ! i) \<in> set names)
           \<or> (\<exists>hint \<in> set SENSITIVE_KEY_HINTS. \<exists>a b. lower (fst (ps ! i)) = a @ hint @ b)
        then PStr ''***'' else snd (ps ! i)))"
proof -
  have sub: "is_substring p s \<longleftrightarrow> (\<exists>a b. s = a @ p @ b)" for p s
  proof (induction s)
    case (Cons c s)
    have "take (length p) (c # s) = p \<longleftrightarrow> (\<exists>b. c # s = p @ b)"
      by (metis append_eq_conv_conj append_take_drop_id)
    moreover have "(\<exists>a b. c # s = a @ p @ b) \<longleftrightarrow> (\<exists>b. c # s = p @ b) \<or> (\<exists>a b. s = a @ p @ b)"
      by (metis append_Cons append_Nil list.inject neq_Nil_conv)
    ultimately show ?case using Cons by simp
  qed auto
  have "is_sensitive_key k \<longleftrightarrow> (\<exists>hint \<in> set SENSITIVE_KEY_HINTS. \<exists>a b. lower k = a @ hint @ b)" for k
    by (simp add: is_sensitive_key_def list_ex_iff sub)
  then show ?thesis
    by (auto simp: redact_params_def REDACTED_def case_prod_beta comp_def split: option.splits)
qed

definition sample_params :: "(string, pyval) dict" where
  "sample_params = [(''id'', PInt 3), (''user_Token'', PStr ''abc'')]"

lemma redact_params_spec_witness:
  "map fst (redact_params (Some sample_params) None) = map fst sample_params
   \<and> snd (redact_params (Some sample_params) None ! 0) = PInt 3
   \<and> snd (redact_params (Some sample_params) None ! 1) = PStr ''***''"
proof -
  have no: "\<not> (\<exists>hint \<in> set SENSITIVE_KEY_HINTS. \<exists>a b. lower ''id'' = a @ hint @ b)"
    by (auto simp: SENSITIVE_KEY_HINTS_def lower_def lower_char_def Let_def append_eq_Cons_conv Cons_eq_append_conv)
  have "lower ''user_Token'' = ''user_'' @ ''token'' @ []" by code_simp
  then have yes: "\<exists>hint \<in> set SENSITIVE_KEY_HINTS. \<exists>a b. lower ''user_Token'' = a @ hint @ b"
    by (intro bexI [of _ "''token''"] exI) (assumption, simp add: SENSITIVE_KEY_HINTS_def)
  note sp = redact_params_spec [of sample_params None]
  from sp [THEN conjunct2, THEN conjunct2, THEN spec, of 0] no
  have "snd (redact_params (Some sample_params) None ! 0) = PInt 3" by (simp add: sample_params_def)
  moreover from sp [THEN conjunct2, THEN conjunct2, THEN spec, of 1] yes
  have "snd (redact_params (Some sample_params) None ! 1) = PStr ''***''" by (simp add: sample_params_def)
  ultimately show ?thesis using sp [THEN conjunct1] by blast
qed

end
