(* ===== verification/Classifier.thy ===== *)
theory Classifier
  imports Errors Redaction
begin

text \<open>
  From SQLSTATE codes and foreign exceptions to the error model
  (\<^verbatim>\<open>_core/errors/sqlstate.py\<close>, \<^verbatim>\<open>_core/errors/classifier.py\<close>). SQLAlchemy is
  imported (\<^verbatim>\<open>sa_exc is not None\<close>): it is a hard dependency.
\<close>

subsection \<open>SQLSTATE tables\<close>

definition SQLSTATE_MAP :: "(string, error_class) dict" where
  "SQLSTATE_MAP =
    [(''23505'', DatabaseUniqueViolationError),
     (''23503'', DatabaseForeignKeyViolationError),
     (''23502'', DatabaseNotNullViolationError),
     (''23514'', DatabaseCheckViolationError),
     (''23000'', DatabaseIntegrityError),
     (''40001'', DatabaseSerializationError),
     (''40P01'', DatabaseDeadlockError),
     (''40000'', DatabaseTransactionError),
     (''40002'', DatabaseIntegrityError),
     (''40003'', DatabaseCommitUnknownError),
     (''55P03'', DatabaseLockTimeoutError),
     (''57014'', DatabaseQueryTimeoutError),
     (''57P01'', DatabaseConnectionError),
     (''57P02'', DatabaseConnectionError),
     (''57P03'', DatabaseUnavailableError),
     (''53300'', DatabaseUnavailableError),
     (''53400'', DatabaseUnavailableError),
     (''25006'', DatabaseReadOnlyError),
     (''25P02'', DatabaseTransactionError),
     (''08000'', DatabaseConnectionError),
     (''08003'', DatabaseConnectionError),
     (''08006'', DatabaseConnectionError),
     (''08001'', DatabaseConnectionError),
     (''08004'', DatabaseConnectionError),
     (''42601'', DatabaseSyntaxError),
     (''42501'', DatabasePermissionError),
     (''42P01'', DatabaseProgrammingError),
     (''42703'', DatabaseProgrammingError),
     (''42883'', DatabaseProgrammingError),
     (''22P02'', DatabaseProgrammingError)]"

definition SQLSTATE_CLASS_MAP :: "(string, error_class) dict" where
  "SQLSTATE_CLASS_MAP =
    [(''08'', DatabaseConnectionError),
     (''23'', DatabaseIntegrityError),
     (''42'', DatabaseProgrammingError),
     (''40'', DatabaseTransactionError),
     (''53'', DatabaseUnavailableError),
     (''22'', DatabaseProgrammingError)]"

definition error_class_for_sqlstate :: "string option \<Rightarrow> error_class option" where
  "error_class_for_sqlstate sqlstate =
     (if \<not> truthy_str sqlstate then None
      else (case dict_get SQLSTATE_MAP (the sqlstate) of
              Some c \<Rightarrow> Some c
            | None \<Rightarrow> dict_get SQLSTATE_CLASS_MAP (take 2 (the sqlstate))))"

subsection \<open>Reading a driver exception\<close>

fun code5 :: "py_attr \<Rightarrow> string option" where
  "code5 (AttrStr s) = (if length s = 5 then Some s else None)"
| "code5 _ = None"

definition extract_sqlstate :: "py_exn option \<Rightarrow> string option" where
  "extract_sqlstate orig =
     (case orig of
        None \<Rightarrow> None
      | Some e \<Rightarrow>
          (case code5 (exn_sqlstate e) of
             Some code \<Rightarrow> Some code
           | None \<Rightarrow>
               (case code5 (exn_pgcode e) of
                  Some code \<Rightarrow> Some code
                | None \<Rightarrow> (case exn_diag e of Diag a \<Rightarrow> code5 a | _ \<Rightarrow> None))))"

definition from_sqlalchemy_type :: "py_exn \<Rightarrow> error_class option" where
  "from_sqlalchemy_type exc =
     (if isinstance exc CSAIntegrityError then Some DatabaseIntegrityError
      else if isinstance exc CSAProgrammingError then Some DatabaseProgrammingError
      else if isinstance exc CSAOperationalError then Some DatabaseConnectionError
      else if isinstance exc CSADisconnectionError then Some DatabaseConnectionError
      else if isinstance exc CSATimeoutError then Some DatabasePoolTimeoutError
      else if isinstance exc CSADBAPIError then Some DatabaseError
      else None)"

definition looks_like_dbapi :: "py_exn \<Rightarrow> bool" where
  "looks_like_dbapi exc \<longleftrightarrow>
     exn_sqlstate exc \<noteq> NoAttr \<or> exn_pgcode exc \<noteq> NoAttr \<or> exn_diag exc \<noteq> NoDiag"

subsection \<open>classify\<close>

record err_context =
  ctx_query_name :: "string option"
  ctx_database_name :: "string option"
  ctx_shard_id :: "string option"
  ctx_role :: "string option"

definition context_kwargs :: "err_context \<Rightarrow> err_kwargs" where
  "context_kwargs ctx =
     no_kwargs\<lparr>kw_query_name := ctx_query_name ctx, kw_database_name := ctx_database_name ctx,
               kw_shard_id := ctx_shard_id ctx, kw_role := ctx_role ctx\<rparr>"

definition no_context :: err_context where
  "no_context = \<lparr>ctx_query_name = None, ctx_database_name = None, ctx_shard_id = None, ctx_role = None\<rparr>"

definition sqlstate_of :: "py_exn \<Rightarrow> string option" where
  "sqlstate_of exc =
     (let orig = (case exn_orig exc of
                    Some og \<Rightarrow> Some og
                  | None \<Rightarrow> if looks_like_dbapi exc then Some exc else None)
      in case extract_sqlstate orig of
           Some s \<Rightarrow> Some s
         | None \<Rightarrow> extract_sqlstate (Some exc))"

definition class_of_foreign :: "py_exn \<Rightarrow> error_class" where
  "class_of_foreign exc =
     (case error_class_for_sqlstate (sqlstate_of exc) of
        Some c \<Rightarrow> c
      | None \<Rightarrow>
          (case from_sqlalchemy_type exc of
             Some c \<Rightarrow> c
           | None \<Rightarrow>
               if isinstance exc CConnectionError \<or> isinstance exc COSError
               then DatabaseConnectionError else DatabaseError))"

definition classify_foreign :: "py_exn \<Rightarrow> err_context \<Rightarrow> db_error" where
  "classify_foreign exc ctx =
     (if isinstance exc CTimeoutError then
        new_error DatabaseQueryTimeoutError ''operation exceeded its client-side deadline''
          ((context_kwargs ctx)\<lparr>kw_original := Some exc\<rparr>)
      else
        (let c = class_of_foreign exc;
             sanitized = sanitize_message (exn_str exc);
             message = (if sanitized = [] then class_code c else sanitized);
             err = new_error c message
                     ((context_kwargs ctx)\<lparr>kw_sqlstate := sqlstate_of exc, kw_original := Some exc\<rparr>)
         in if exn_conn_invalidated exc then err\<lparr>err_connection_invalidated := True\<rparr> else err))"

definition classify :: "raised \<Rightarrow> err_context \<Rightarrow> db_error" where
  "classify exc ctx =
     (case exc of
        DbErr e \<Rightarrow> with_context (ctx_database_name ctx) (ctx_shard_id ctx) (ctx_role ctx)
                     (ctx_query_name ctx) e
      | Foreign x \<Rightarrow> classify_foreign x ctx)"

text \<open>A dbkit error is neither a DBAPI error nor an OS error.\<close>

definition is_connection_error :: "raised \<Rightarrow> bool" where
  "is_connection_error exc \<longleftrightarrow>
     (case exc of
        DbErr _ \<Rightarrow> False
      | Foreign x \<Rightarrow>
          if isinstance x CSADBAPIError then exn_conn_invalidated x
          else isinstance x CConnectionError \<or> isinstance x COSError)"

text \<open>\<^verbatim>\<open>except Exception\<close> does not catch a cancellation.\<close>

definition is_exception :: "raised \<Rightarrow> bool" where
  "is_exception exc \<longleftrightarrow> (case exc of DbErr _ \<Rightarrow> True | Foreign x \<Rightarrow> isinstance x CException)"

definition raised_isa :: "raised \<Rightarrow> py_class \<Rightarrow> bool" where
  "raised_isa exc c \<longleftrightarrow> (case exc of DbErr _ \<Rightarrow> c = CException | Foreign x \<Rightarrow> isinstance x c)"

subsection \<open>Facts about classification\<close>

lemma context_kwargs_simps [simp]:
  "kw_code (context_kwargs ctx) = None" "kw_category (context_kwargs ctx) = None"
  "kw_retryable (context_kwargs ctx) = None"
  "kw_transaction_state_unknown (context_kwargs ctx) = None"
  "kw_connection_invalidated (context_kwargs ctx) = None"
  by (simp_all add: context_kwargs_def)

definition classified_class :: "raised \<Rightarrow> error_class" where
  "classified_class exc =
     (case exc of
        DbErr e \<Rightarrow> err_class e
      | Foreign x \<Rightarrow> if isinstance x CTimeoutError then DatabaseQueryTimeoutError else class_of_foreign x)"

lemma classify_class: "err_class (classify exc ctx) = classified_class exc"
  by (cases exc) (simp_all add: classify_def classify_foreign_def classified_class_def Let_def)

lemma classify_foreign_retryable:
  "err_retryable (classify (Foreign x) ctx) = class_retryable (classified_class (Foreign x))"
  by (simp add: classify_def classify_foreign_def classified_class_def Let_def)

lemma classify_foreign_category:
  "err_category (classify (Foreign x) ctx) = class_category (classified_class (Foreign x))"
  by (simp add: classify_def classify_foreign_def classified_class_def Let_def)

lemma classify_foreign_state_unknown:
  "err_transaction_state_unknown (classify (Foreign x) ctx) \<longleftrightarrow>
     classified_class (Foreign x) = DatabaseCommitUnknownError"
  by (simp add: classify_def classify_foreign_def classified_class_def new_error_state_unknown Let_def)

lemma classify_db_frame:
  "err_retryable (classify (DbErr e) ctx) = err_retryable e"
  "err_transaction_state_unknown (classify (DbErr e) ctx) = err_transaction_state_unknown e"
  "err_category (classify (DbErr e) ctx) = err_category e"
  by (simp_all add: classify_def)

lemma error_class_for_sqlstate_Some:
  "error_class_for_sqlstate (Some s) = Some c \<Longrightarrow>
     (s, c) \<in> set SQLSTATE_MAP \<or> (take 2 s, c) \<in> set SQLSTATE_CLASS_MAP"
  by (auto simp: error_class_for_sqlstate_def split: if_splits option.splits dest: map_of_SomeD)

text \<open>An error outside the tables' classes comes only from the fallback.\<close>

lemma class_of_foreign_range:
  "class_of_foreign x \<in> snd ` set SQLSTATE_MAP \<union> snd ` set SQLSTATE_CLASS_MAP
     \<union> {DatabaseIntegrityError, DatabaseProgrammingError, DatabaseConnectionError,
        DatabasePoolTimeoutError, DatabaseError}"
proof (cases "error_class_for_sqlstate (sqlstate_of x)")
  case None
  then show ?thesis by (simp add: class_of_foreign_def from_sqlalchemy_type_def)
next
  case (Some c)
  then obtain s where "sqlstate_of x = Some s"
    by (cases "sqlstate_of x") (auto simp: error_class_for_sqlstate_def truthy_str_def)
  with Some have "(s, c) \<in> set SQLSTATE_MAP \<or> (take 2 s, c) \<in> set SQLSTATE_CLASS_MAP"
    by (intro error_class_for_sqlstate_Some) simp
  with Some show ?thesis by (force simp: class_of_foreign_def)
qed


subsection \<open>Properties\<close>

text \<open>SQLSTATE families: a driver error that is not a client-side timeout is classified by its code.
  Every class-23 code is an integrity error and every class-08 code a connection error, an integrity
  error is never retryable, a connection error always is, and so are serialization failures and
  deadlocks.\<close>

theorem sqlstate_families:
  assumes "\<not> isinstance x CTimeoutError" "sqlstate_of x = Some s" "s \<noteq> []"
  shows "(take 2 s = ''23'' \<longrightarrow> is_subclass (err_class (classify (Foreign x) ctx)) DatabaseIntegrityError
           \<and> \<not> err_retryable (classify (Foreign x) ctx))
     \<and> (take 2 s = ''08'' \<longrightarrow> err_class (classify (Foreign x) ctx) = DatabaseConnectionError
           \<and> err_retryable (classify (Foreign x) ctx))
     \<and> (s = ''40001'' \<or> s = ''40P01'' \<longrightarrow> err_retryable (classify (Foreign x) ctx))
     \<and> err_sqlstate (classify (Foreign x) ctx) = Some s"
proof -
  define c where "c = classified_class (Foreign x)"
  have cls: "err_class (classify (Foreign x) ctx) = c" "err_retryable (classify (Foreign x) ctx) = class_retryable c"
    by (simp_all add: c_def classify_class classify_foreign_retryable)
  have c: "error_class_for_sqlstate (Some s) = Some d \<Longrightarrow> c = d" for d
    using assms by (simp add: c_def classified_class_def class_of_foreign_def)
  have lookup: "error_class_for_sqlstate (Some s) =
      (case dict_get SQLSTATE_MAP s of Some d \<Rightarrow> Some d | None \<Rightarrow> dict_get SQLSTATE_CLASS_MAP (take 2 s))"
    using assms(3) by (simp add: error_class_for_sqlstate_def truthy_str_def split: option.split)
  have fam: "\<exists>d. error_class_for_sqlstate (Some s) = Some d \<and> P d"
    if "dict_get SQLSTATE_CLASS_MAP f = Some df" "P df" "\<forall>(k, d) \<in> set SQLSTATE_MAP. take 2 k = f \<longrightarrow> P d" "take 2 s = f" for f df P
    using that unfolding lookup by (cases "dict_get SQLSTATE_MAP s") (auto dest: map_of_SomeD)
  have tab23: "\<forall>(k, d) \<in> set SQLSTATE_MAP. take 2 k = ''23'' \<longrightarrow> is_subclass d DatabaseIntegrityError \<and> \<not> class_retryable d"
    "dict_get SQLSTATE_CLASS_MAP ''23'' = Some DatabaseIntegrityError"
    "is_subclass DatabaseIntegrityError DatabaseIntegrityError \<and> \<not> class_retryable DatabaseIntegrityError"
    by code_simp+
  have tab08: "\<forall>(k, d) \<in> set SQLSTATE_MAP. take 2 k = ''08'' \<longrightarrow> d = DatabaseConnectionError"
    "dict_get SQLSTATE_CLASS_MAP ''08'' = Some DatabaseConnectionError"
    by code_simp+
  note f23 = fam [of "''23''" DatabaseIntegrityError "\<lambda>d. is_subclass d DatabaseIntegrityError \<and> \<not> class_retryable d",
      OF tab23(2,3,1)]
  note f08 = fam [of "''08''" DatabaseConnectionError "\<lambda>d. d = DatabaseConnectionError", OF tab08(2) refl tab08(1)]
  have "dict_get SQLSTATE_MAP ''40001'' = Some DatabaseSerializationError"
    "dict_get SQLSTATE_MAP ''40P01'' = Some DatabaseDeadlockError" by code_simp+
  then have f40: "\<exists>d. error_class_for_sqlstate (Some s) = Some d \<and> class_retryable d"
    if "s = ''40001'' \<or> s = ''40P01''"
    using that unfolding lookup by (elim disjE) (simp_all add: class_retryable_def)
  have "err_sqlstate (classify (Foreign x) ctx) = Some s"
    using assms by (simp add: classify_def classify_foreign_def Let_def new_error_def commit_unknown_init_def base_init_def)
  moreover have "class_retryable DatabaseConnectionError" by (simp add: class_retryable_def)
  ultimately show ?thesis unfolding cls using c f23 f08 f40 by blast
qed

definition sample_exn :: "string \<Rightarrow> string \<Rightarrow> py_exn" where
  "sample_exn msg code = PyExn [CException, CSADBAPIError, CSAOperationalError] msg None (AttrStr code) NoAttr NoDiag False"

lemma sqlstate_families_witness:
  "\<not> err_retryable (classify (Foreign (sample_exn ''duplicate key'' ''23505'')) no_context)"
  using sqlstate_families [of "sample_exn ''duplicate key'' ''23505''" "''23505''" no_context]
  by (simp add: sample_exn_def isinstance_def sqlstate_of_def looks_like_dbapi_def extract_sqlstate_def)

text \<open>Classifying is idempotent: classifying an already classified error again with the same context
  changes nothing, whatever was classified first.\<close>

theorem classify_idempotent:
  "classify (DbErr (classify e ctx)) ctx = classify e ctx"
proof (cases e)
  case (DbErr err)
  then show ?thesis by (simp add: classify_def with_context_def)
next
  case (Foreign x)
  have "with_context (ctx_database_name ctx) (ctx_shard_id ctx) (ctx_role ctx) (ctx_query_name ctx)
      (classify_foreign x ctx) = classify_foreign x ctx"
    by (rule with_context_same) (simp_all add: classify_foreign_def Let_def context_kwargs_def)
  then show ?thesis by (simp add: Foreign classify_def)
qed

text \<open>The message of a classified driver error does not depend on a password in the driver's
  message: two exceptions that differ only in the password of a DSN they quote give the same message.\<close>

theorem classified_message_hides_password:
  assumes "sch \<noteq> []" "list_all dsn_scheme_char sch" "usr \<noteq> []" "list_all dsn_user_char usr"
    and "pw1 \<noteq> []" "list_all dsn_pw_char pw1" "pw2 \<noteq> []" "list_all dsn_pw_char pw2"
    and "pre = [] \<or> ws_char (List.last pre)"
  shows "err_message (classify (Foreign (PyExn cs (pre @ sch @ ''://'' @ usr @ '':'' @ pw1 @ ''@'' @ rest) og st pg dg ci)) ctx)
       = err_message (classify (Foreign (PyExn cs (pre @ sch @ ''://'' @ usr @ '':'' @ pw2 @ ''@'' @ rest) og st pg dg ci)) ctx)"
proof -
  let ?x = "\<lambda>m. PyExn cs m og st pg dg ci"
  have ext: "extract_sqlstate (Some (?x m)) = extract_sqlstate (Some (?x m'))" for m m'
    unfolding extract_sqlstate_def option.case py_exn.sel ..
  have st: "sqlstate_of (?x m) = sqlstate_of (?x m')" for m m'
    unfolding sqlstate_of_def Let_def looks_like_dbapi_def py_exn.sel ext [of m m']
    using ext [of m m'] by (cases og) simp_all
  have isa: "isinstance (?x m) c = isinstance (?x m') c" for m m' c
    by (simp add: isinstance_def)
  have "class_of_foreign (?x m) = class_of_foreign (?x m')" for m m'
    unfolding class_of_foreign_def from_sqlalchemy_type_def st [of m m'] isa [of m _ m'] ..
  note frame = st this isa
  have msg: "err_message (classify (Foreign (PyExn cs m og st pg dg ci)) ctx)
      = err_message (classify (Foreign (PyExn cs m' og st pg dg ci)) ctx)"
    if "redact_dsn m = redact_dsn m'" for m m'
    unfolding classify_def raised.case classify_foreign_def sanitize_message_def Let_def
      frame(1,2) [of m m'] frame(3) [of m _ m'] py_exn.sel(2) that
    by (auto simp: new_error_message)
  show ?thesis by (rule msg) (simp only: redact_dsn_def dsn_sub_hides [OF assms])
qed

lemma classified_message_hides_password_witness:
  "err_message (classify (Foreign (PyExn [CException] (''cannot connect to '' @ ''postgresql'' @ ''://'' @ ''app'' @ '':'' @ ''hunter2'' @ ''@'' @ ''db/app'') None NoAttr NoAttr NoDiag False)) no_context)
   = err_message (classify (Foreign (PyExn [CException] (''cannot connect to '' @ ''postgresql'' @ ''://'' @ ''app'' @ '':'' @ ''other'' @ ''@'' @ ''db/app'') None NoAttr NoAttr NoDiag False)) no_context)"
  by (rule classified_message_hides_password) code_simp+

end
