(* ===== verification/Query.thy ===== *)
theory Query
  imports Errors "HOL-Library.List_Lexorder" "HOL-Library.Char_ord"
begin

text \<open>
  Query objects, the statement coercion that refuses bare strings, and the query registry
  (\<^verbatim>\<open>_core/query.py\<close>). A SQLAlchemy Core construct is opaque (\<open>Executable\<close>); a
  text clause carries its SQL text.
\<close>

datatype operation = OpRead | OpWrite | OpDdl

fun operation_value :: "operation \<Rightarrow> string" where
  "operation_value OpRead = ''read''"
| "operation_value OpWrite = ''write''"
| "operation_value OpDdl = ''ddl''"

datatype statement_obj =
    TextClause string
  | Executable string
  | BareStr string
  | OtherObj string

record query =
  q_name :: string
  q_statement :: statement_obj
  q_operation :: operation
  q_timeout :: "real option"
  q_idempotent :: bool
  q_expensive :: bool
  q_sensitive_parameters :: "string list"
  q_settings :: "(string, string) dict option"

text \<open>The validation of \<^verbatim>\<open>__post_init__\<close>; the set of sensitive names is kept without
  duplicates.\<close>

definition new_query :: "query \<Rightarrow> query py" where
  "new_query q =
     (case q_statement q of
        BareStr s \<Rightarrow> raise_db DatabaseProgrammingError
          (''Query(name='' @ quoted (q_name q) @ '') statement must be sql(...) or a Core construct, not a bare string'')
      | _ \<Rightarrow>
          if q_name q = [] then
            raise_db DatabaseProgrammingError ''Query.name must be a non-empty logical name''
          else Inr (q\<lparr>q_sensitive_parameters := remdups (q_sensitive_parameters q)\<rparr>))"

definition is_write :: "query \<Rightarrow> bool" where
  "is_write q \<longleftrightarrow> q_operation q = OpWrite \<or> q_operation q = OpDdl"

text \<open>What a caller passes as a query.\<close>

datatype query_obj = AQuery query | AStatement statement_obj

definition sql :: "statement_obj \<Rightarrow> statement_obj py" where
  "sql statement =
     (case statement of
        BareStr s \<Rightarrow> Inr (TextClause s)
      | _ \<Rightarrow> raise_db DatabaseProgrammingError
               ''sql() takes a raw SQL string; pass Core constructs directly instead'')"

definition coerce_statement :: "query_obj \<Rightarrow> statement_obj py" where
  "coerce_statement obj =
     (case obj of
        AQuery q \<Rightarrow> Inr (q_statement q)
      | AStatement (TextClause t) \<Rightarrow> Inr (TextClause t)
      | AStatement (Executable x) \<Rightarrow> Inr (Executable x)
      | AStatement (BareStr s) \<Rightarrow> raise_db DatabaseProgrammingError
          ''raw SQL strings must be wrapped with sql(...) - refusing bare str to prevent un-parameterized queries''
      | AStatement (OtherObj ty) \<Rightarrow> raise_db DatabaseProgrammingError
          (''unsupported query type: '' @ ty @ ''; expected Query, sql(...), or a SQLAlchemy Core statement''))"

subsection \<open>The registry\<close>

text \<open>A registered query is an object: its identity and its value. The registry compares
  identities (\<^verbatim>\<open>is not\<close>).\<close>

type_synonym query_ref = "nat \<times> query"
type_synonym query_registry = "(string, query_ref) dict"

definition register :: "query_registry \<Rightarrow> query_ref \<Rightarrow> (query_ref \<times> query_registry) py" where
  "register reg q =
     (case dict_get reg (q_name (snd q)) of
        Some existing \<Rightarrow>
          if fst existing \<noteq> fst q then
            raise_db DatabaseProgrammingError
              (''duplicate query name '' @ quoted (q_name (snd q)) @ '' registered with a different statement'')
          else Inr (q, dict_set (q_name (snd q)) q reg)
      | None \<Rightarrow> Inr (q, dict_set (q_name (snd q)) q reg))"

definition registry_get :: "query_registry \<Rightarrow> string \<Rightarrow> query_ref option" where
  "registry_get reg name = dict_get reg name"

definition names :: "query_registry \<Rightarrow> string list" where
  "names reg = sort (dict_keys reg)"

definition all_queries :: "query_registry \<Rightarrow> query_ref list" where
  "all_queries reg = map (\<lambda>n. the (dict_get reg n)) (names reg)"

text \<open>Registry invariant: names are unique keys and each key is its query's name.\<close>

definition registry_inv :: "query_registry \<Rightarrow> bool" where
  "registry_inv reg \<longleftrightarrow> dict_wf reg \<and> (\<forall>n r. dict_get reg n = Some r \<longrightarrow> q_name (snd r) = n)"

lemma register_inv: "registry_inv reg \<Longrightarrow> register reg q = Inr (r, reg') \<Longrightarrow> registry_inv reg'"
  by (auto simp: register_def registry_inv_def dict_get_set split: option.splits if_splits)

lemma register_get: "register reg q = Inr (r, reg') \<Longrightarrow> registry_get reg' (q_name (snd q)) = Some q"
  by (auto simp: register_def registry_get_def dict_get_set split: option.splits if_splits)

lemma register_frame:
  "register reg q = Inr (r, reg') \<Longrightarrow> n \<noteq> q_name (snd q) \<Longrightarrow> registry_get reg' n = registry_get reg n"
  by (auto simp: register_def registry_get_def dict_get_set split: option.splits if_splits)

lemma register_duplicate:
  "registry_get reg (q_name (snd q)) = Some (i, p) \<Longrightarrow> i \<noteq> fst q \<Longrightarrow>
     is_db_raise DatabaseProgrammingError (register reg q)"
  by (simp add: register_def registry_get_def)

lemma names_sorted: "sorted (names reg)"
  by (simp add: names_def)

lemma coerce_never_bare: "coerce_statement (AStatement (BareStr s)) \<noteq> Inr t"
  by (simp add: coerce_statement_def)


subsection \<open>Properties\<close>

text \<open>The registry: registering a query keeps the registry well formed, makes exactly that query
  answer to its name and leaves every other name alone; a different object under a taken name is
  refused, and the same object may be registered again.\<close>

theorem register_spec:
  assumes "registry_inv reg"
  shows "(case register reg q of
      Inr (r, reg') \<Rightarrow> r = q \<and> registry_inv reg' \<and> registry_get reg' (q_name (snd q)) = Some q
        \<and> (\<forall>n. n \<noteq> q_name (snd q) \<longrightarrow> registry_get reg' n = registry_get reg n)
        \<and> (\<forall>p. registry_get reg (q_name (snd q)) = Some p \<longrightarrow> fst p = fst q)
    | Inl e \<Rightarrow> is_db_raise DatabaseProgrammingError (Inl e :: unit py)
        \<and> (\<exists>p. registry_get reg (q_name (snd q)) = Some p \<and> fst p \<noteq> fst q))"
proof -
  define n where "n = q_name (snd q)"
  have ok: "registry_inv reg' \<and> registry_get reg' n = Some q \<and> (\<forall>m. m \<noteq> n \<longrightarrow> registry_get reg' m = registry_get reg m)"
    if "register reg q = Inr (r, reg')" for r reg'
    using register_inv [OF assms that] register_get [OF that] register_frame [OF that] by (simp add: n_def)
  show ?thesis
  proof (cases "dict_get reg n")
    case None
    then have "register reg q = Inr (q, dict_set n q reg)" by (simp add: register_def n_def)
    with ok [OF this] None show ?thesis by (simp add: n_def registry_get_def)
  next
    case (Some p)
    show ?thesis
    proof (cases "fst p = fst q")
      case True
      with Some have "register reg q = Inr (q, dict_set n q reg)" by (simp add: register_def n_def)
      with ok [OF this] Some True show ?thesis by (simp add: n_def registry_get_def)
    next
      case False
      with Some show ?thesis by (simp add: register_def n_def registry_get_def raise_db_def is_db_raise_def)
    qed
  qed
qed

lemma register_spec_witness:
  "registry_get (snd (projr (register [] (0, \<lparr>q_name = ''a'', q_statement = TextClause ''SELECT 1'',
      q_operation = OpRead, q_timeout = None, q_idempotent = False, q_expensive = False,
      q_sensitive_parameters = [], q_settings = None\<rparr>)))) ''a'' \<noteq> None"
  using register_spec [of "[]" "(0, \<lparr>q_name = ''a'', q_statement = TextClause ''SELECT 1'',
      q_operation = OpRead, q_timeout = None, q_idempotent = False, q_expensive = False,
      q_sensitive_parameters = [], q_settings = None\<rparr>)"]
  by (simp add: registry_inv_def register_def)

end
