(* ===== verification/Config.thy ===== *)
theory Config
  imports Errors Redaction
begin

text \<open>
  The configuration model (\<^verbatim>\<open>_core/config.py\<close>): the frozen dataclasses as records with
  their validations, the connection-budget arithmetic and the operational warnings.
\<close>

record pool_config =
  pool_size :: int
  pool_max_overflow :: int
  pool_timeout_seconds :: real
  pool_recycle_seconds :: int
  pool_pre_ping :: bool
  pool_use_lifo :: bool
  pool_reset_on_return :: "string option"
  pool_connect_timeout_seconds :: real
  pool_long_hold_warning_seconds :: real
  pool_disable_pooling :: bool
  pool_pgbouncer_compatible :: bool

definition default_pool :: pool_config where
  "default_pool = \<lparr>pool_size = 10, pool_max_overflow = 5, pool_timeout_seconds = 5,
     pool_recycle_seconds = 1800, pool_pre_ping = True, pool_use_lifo = True,
     pool_reset_on_return = Some ''rollback'', pool_connect_timeout_seconds = 10,
     pool_long_hold_warning_seconds = 2, pool_disable_pooling = False,
     pool_pgbouncer_compatible = False\<rparr>"

definition pool_max_connections :: "pool_config \<Rightarrow> int" where
  "pool_max_connections p =
     (if pool_disable_pooling p then 0 else pool_size p + pool_max_overflow p)"

definition config_error :: "string \<Rightarrow> 'a py" where
  "config_error msg = raise_db DatabaseConfigurationError msg"

definition pool_validate :: "pool_config \<Rightarrow> unit py" where
  "pool_validate p =
     (if pool_size p < 0 then config_error ''pool.size must be >= 0''
      else if pool_max_overflow p < 0 then config_error ''pool.max_overflow must be >= 0''
      else if pool_timeout_seconds p \<le> 0 then config_error ''pool.timeout_seconds must be > 0''
      else if pool_reset_on_return p \<notin> {Some ''rollback'', Some ''commit'', None, Some ''none''}
        then config_error ''pool.reset_on_return must be one of rollback|commit|none''
      else Inr ())"

record retry_config =
  attempts :: int
  initial_delay_ms :: real
  maximum_delay_ms :: real
  multiplier :: real
  jitter :: string
  maximum_total_ms :: real
  retry_reads :: bool
  retry_writes :: bool

definition default_retry :: retry_config where
  "default_retry = \<lparr>attempts = 2, initial_delay_ms = 20, maximum_delay_ms = 250, multiplier = 2,
     jitter = ''full'', maximum_total_ms = 750, retry_reads = True, retry_writes = False\<rparr>"

definition retry_validate :: "retry_config \<Rightarrow> unit py" where
  "retry_validate r =
     (if attempts r < 1 then config_error ''retry.attempts must be >= 1''
      else if jitter r \<notin> {''full'', ''none''} then config_error (''retry.jitter must be '' @ quoted ''full'' @ '' or '' @ quoted ''none'')
      else Inr ())"

record concurrency_config =
  cc_database :: "int option"
  cc_reads :: "int option"
  cc_writes :: "int option"
  cc_bulk_writes :: "int option"
  cc_expensive_queries :: "int option"

record bulk_config =
  default_batch_rows :: int
  max_batch_rows :: int
  max_payload_bytes :: "int option"

definition default_bulk :: bulk_config where
  "default_bulk = \<lparr>default_batch_rows = 1000, max_batch_rows = 10000, max_payload_bytes = None\<rparr>"

record circuit_breaker_config =
  cb_enabled :: bool
  cb_failure_threshold :: int
  cb_window_seconds :: real
  cb_open_seconds :: real
  cb_half_open_max_calls :: int

definition default_circuit_breaker :: circuit_breaker_config where
  "default_circuit_breaker = \<lparr>cb_enabled = False, cb_failure_threshold = 10, cb_window_seconds = 30,
     cb_open_seconds = 10, cb_half_open_max_calls = 2\<rparr>"

definition circuit_breaker_validate :: "circuit_breaker_config \<Rightarrow> unit py" where
  "circuit_breaker_validate c =
     (if cb_failure_threshold c < 1
      then config_error ''circuit_breaker.failure_threshold must be >= 1'' else Inr ())"

record observability_config =
  ob_metrics :: bool
  ob_tracing :: bool
  ob_log_parameters :: bool
  ob_slow_query_ms :: real

definition default_observability :: observability_config where
  "default_observability = \<lparr>ob_metrics = True, ob_tracing = False, ob_log_parameters = False,
     ob_slow_query_ms = 500\<rparr>"

record connection_budget_config =
  maximum_per_process :: "int option"
  enforce_at_startup :: bool

definition no_budget :: connection_budget_config where
  "no_budget = \<lparr>maximum_per_process = None, enforce_at_startup = False\<rparr>"

record defaults_config =
  d_driver :: string
  d_query_timeout_seconds :: real
  d_transaction_timeout_seconds :: real
  d_long_transaction_warning_seconds :: real
  d_pool :: pool_config
  d_retry :: retry_config
  d_circuit_breaker :: circuit_breaker_config
  d_bulk :: bulk_config
  d_observability :: observability_config

definition default_defaults :: defaults_config where
  "default_defaults = \<lparr>d_driver = ''psycopg'', d_query_timeout_seconds = 2,
     d_transaction_timeout_seconds = 5, d_long_transaction_warning_seconds = 5,
     d_pool = default_pool, d_retry = default_retry, d_circuit_breaker = default_circuit_breaker,
     d_bulk = default_bulk, d_observability = default_observability\<rparr>"

definition defaults_validate :: "defaults_config \<Rightarrow> unit py" where
  "defaults_validate d =
     sum_bind (pool_validate (d_pool d)) (\<lambda>_.
     sum_bind (retry_validate (d_retry d)) (\<lambda>_.
     circuit_breaker_validate (d_circuit_breaker d)))"

subsection \<open>Targets\<close>

record target_config =
  t_url :: string
  t_name :: string
  t_required :: bool
  t_weight :: int
  t_pool :: "pool_config option"

definition resolved_pool :: "target_config \<Rightarrow> defaults_config \<Rightarrow> pool_config" where
  "resolved_pool t d = (case t_pool t of Some p \<Rightarrow> p | None \<Rightarrow> d_pool d)"

definition value_error :: "string \<Rightarrow> 'a py" where
  "value_error msg = Inl (Foreign (plain_exn [CException, CValueError] msg))"

definition url_parts_py :: "string \<Rightarrow> url_parts py" where
  "url_parts_py url =
     (case urlsplit url of None \<Rightarrow> value_error ''Invalid IPv6 URL'' | Some p \<Rightarrow> Inr p)"

definition driver :: "target_config \<Rightarrow> string py" where
  "driver t = sum_bind (url_parts_py (t_url t)) (\<lambda>p.
     case partition_at (CHR ''+'') (up_scheme p) of (_, found, after) \<Rightarrow>
       Inr (if found then after else up_scheme p))"

definition dialect :: "target_config \<Rightarrow> string py" where
  "dialect t = sum_bind (url_parts_py (t_url t)) (\<lambda>p.
     case partition_at (CHR ''+'') (up_scheme p) of (before, _, _) \<Rightarrow> Inr before)"

definition target_validate :: "target_config \<Rightarrow> unit py" where
  "target_validate t =
     (if t_url t = [] then config_error (''target '' @ quoted (t_name t) @ '' has an empty url'')
      else sum_bind (url_parts_py (t_url t)) (\<lambda>p.
        if up_scheme p = [] then
          config_error (''target '' @ quoted (t_name t)
            @ '' url is missing a dialect scheme (e.g. postgresql+psycopg://)'')
        else Inr ()))"

subsection \<open>Databases\<close>

record database_config =
  db_primary :: target_config
  db_replicas :: "target_config list"
  db_concurrency :: concurrency_config
  db_connection_budget :: connection_budget_config

definition database_validate :: "database_config \<Rightarrow> unit py" where
  "database_validate db =
     sum_bind (target_validate (db_primary db)) (\<lambda>_. each_sum target_validate (db_replicas db))"

definition all_targets :: "database_config \<Rightarrow> target_config list" where
  "all_targets db = db_primary db # db_replicas db"

definition database_max_connections :: "database_config \<Rightarrow> defaults_config \<Rightarrow> int" where
  "database_max_connections db d =
     sum_list (map (\<lambda>t. pool_max_connections (resolved_pool t d)) (all_targets db))"

definition budget_check :: "connection_budget_config \<Rightarrow> int \<Rightarrow> (int \<Rightarrow> string) \<Rightarrow> unit py" where
  "budget_check b actual msg =
     (case maximum_per_process b of
        None \<Rightarrow> Inr ()
      | Some limit \<Rightarrow>
          if \<not> enforce_at_startup b then Inr ()
          else if actual > limit then config_error (msg limit)
          else Inr ())"

definition database_enforce_connection_budget ::
  "database_config \<Rightarrow> defaults_config \<Rightarrow> string \<Rightarrow> unit py" where
  "database_enforce_connection_budget db d database_name =
     budget_check (db_connection_budget db) (database_max_connections db d)
       (\<lambda>limit. ''connection budget exceeded for database '' @ quoted database_name
          @ '': configured pools allow up to '' @ show_int (database_max_connections db d)
          @ '' connections but the budget is '' @ show_int limit)"

subsection \<open>The root configuration\<close>

record dbkit_config =
  databases :: "(string, database_config) dict"
  environment :: string
  defaults :: defaults_config
  connection_budget :: connection_budget_config
  max_engines :: "int option"
  max_databases :: "int option"
  evict_lru_engines :: bool

definition max_connections_per_process :: "dbkit_config \<Rightarrow> int" where
  "max_connections_per_process c =
     sum_list (concat (map (\<lambda>(_, db).
        map (\<lambda>t. pool_max_connections (resolved_pool t (defaults c))) (all_targets db)) (databases c)))"

definition enforce_connection_budget :: "dbkit_config \<Rightarrow> unit py" where
  "enforce_connection_budget c =
     budget_check (connection_budget c) (max_connections_per_process c)
       (\<lambda>limit. ''connection budget exceeded: configured pools allow up to ''
          @ show_int (max_connections_per_process c) @ '' connections per process but the budget is '' @ show_int limit)"

definition validate :: "dbkit_config \<Rightarrow> unit py" where
  "validate c =
     sum_bind (defaults_validate (defaults c)) (\<lambda>_.
     sum_bind (each_sum (\<lambda>(name, db).
        if name = [] then config_error ''database name must be non-empty''
        else sum_bind (database_validate db) (\<lambda>_.
             database_enforce_connection_budget db (defaults c) name)) (databases c)) (\<lambda>_.
     enforce_connection_budget c))"

definition connection_budget_report :: "dbkit_config \<Rightarrow> int \<Rightarrow> (string, int) dict" where
  "connection_budget_report c replicas =
     (let per_process = max_connections_per_process c in
      [(''per_process'', per_process), (''app_replicas'', replicas),
       (''cluster_total'', per_process * max replicas 1)])"

text \<open>The warnings, each up to the advice after its dash.\<close>

definition budget_enforcement_warnings :: "dbkit_config \<Rightarrow> string list" where
  "budget_enforcement_warnings c =
     (if environment c = ''development'' then []
      else
        (if maximum_per_process (connection_budget c) = None then
           [''no process-wide connection budget configured (environment='' @ quoted (environment c) @ '')'']
         else if \<not> enforce_at_startup (connection_budget c) then
           [''connection_budget.maximum_per_process is set but enforce_at_startup=false'']
         else [])
        @ concat (map (\<lambda>(name, db).
            if maximum_per_process (db_connection_budget db) \<noteq> None
               \<and> \<not> enforce_at_startup (db_connection_budget db)
            then [''database '' @ quoted name @ '': connection budget configured but enforce_at_startup=false'']
            else []) (databases c)))"

text \<open>Whether a URL says anything about TLS. \<^verbatim>\<open>parse_qs\<close> drops a field without a value and decodes
  the names; a name that is compared with an ASCII text needs only its ASCII escapes decoded.\<close>

definition hex_value :: "char \<Rightarrow> nat option" where
  "hex_value c = (let n = of_char c :: nat in
     if 48 \<le> n \<and> n \<le> 57 then Some (n - 48)
     else if 65 \<le> n \<and> n \<le> 70 then Some (n - 55)
     else if 97 \<le> n \<and> n \<le> 102 then Some (n - 87) else None)"

fun unquote_ascii :: "string \<Rightarrow> string" where
  "unquote_ascii (c # a # b # s) =
     (if c = CHR ''%'' then
        (case (hex_value a, hex_value b) of
           (Some x, Some y) \<Rightarrow>
             if x < 8 then char_of (16 * x + y) # unquote_ascii s else c # unquote_ascii (a # b # s)
         | _ \<Rightarrow> c # unquote_ascii (a # b # s))
      else c # unquote_ascii (a # b # s))"
| "unquote_ascii s = s"

fun split_fields :: "char \<Rightarrow> string \<Rightarrow> string list" where
  "split_fields sep [] = [[]]"
| "split_fields sep (c # s) =
     (if c = sep then [] # split_fields sep s
      else (case split_fields sep s of [] \<Rightarrow> [[c]] | f # fs \<Rightarrow> (c # f) # fs))"

definition query_names :: "string \<Rightarrow> string list" where
  "query_names qs = concat (map (\<lambda>field.
     case partition_at (CHR ''='') field of
       (name, found, val) \<Rightarrow>
         if found \<and> val \<noteq> [] then [unquote_ascii (map (\<lambda>c. if c = CHR ''+'' then CHR '' '' else c) name)] else [])
     (split_fields (CHR ''&'') qs))"

definition has_explicit_tls_setting :: "target_config \<Rightarrow> bool py" where
  "has_explicit_tls_setting t = sum_bind (url_parts_py (t_url t)) (\<lambda>p.
     Inr (''sslmode'' \<in> set (query_names (up_query p)) \<or> ''ssl'' \<in> set (query_names (up_query p))))"

definition target_tls_warning :: "string \<Rightarrow> string \<Rightarrow> target_config \<Rightarrow> string list py" where
  "target_tls_warning env name t = sum_bind (has_explicit_tls_setting t) (\<lambda>explicit.
     Inr (if explicit then []
          else [name @ ''.'' @ t_name t @ '': DSN has no explicit sslmode/ssl parameter (environment='' @ quoted env @ '')'']))"

definition tls_warnings :: "dbkit_config \<Rightarrow> string list py" where
  "tls_warnings c =
     (if environment c = ''development'' then Inr []
      else sum_bind (map_sum (\<lambda>(name, t). target_tls_warning (environment c) name t)
             (concat (map (\<lambda>(name, db). map (\<lambda>t. (name, t)) (all_targets db)) (databases c))))
           (\<lambda>ws. Inr (concat ws)))"

text \<open>A copy with every target URL redacted.\<close>

definition redact_target :: "target_config \<Rightarrow> target_config" where
  "redact_target t = t\<lparr>t_url := redact_dsn (t_url t)\<rparr>"

definition redacted :: "dbkit_config \<Rightarrow> dbkit_config" where
  "redacted c = c\<lparr>databases := map (\<lambda>(name, db).
     (name, db\<lparr>db_primary := redact_target (db_primary db),
               db_replicas := map redact_target (db_replicas db)\<rparr>)) (databases c)\<rparr>"

subsection \<open>Budget arithmetic\<close>

lemma config_error_not_Inr [simp]: "config_error msg \<noteq> Inr x"
  by (simp add: config_error_def)

lemma budget_check_Inr_iff:
  "budget_check b n msg = Inr u \<longleftrightarrow>
     (\<forall>l. maximum_per_process b = Some l \<longrightarrow> enforce_at_startup b \<longrightarrow> n \<le> l)"
  by (auto simp: budget_check_def split: option.splits)

lemma max_connections_per_process_sum:
  "max_connections_per_process c =
     sum_list (map (\<lambda>(_, db). database_max_connections db (defaults c)) (databases c))"
proof -
  have "sum_list (concat (map (\<lambda>(_, db). map (\<lambda>t. pool_max_connections (resolved_pool t (defaults c)))
          (all_targets db)) dbs)) =
        sum_list (map (\<lambda>(_, db). database_max_connections db (defaults c)) dbs)"
    for dbs :: "(string, database_config) dict"
    by (induction dbs) (auto simp: database_max_connections_def split: prod.splits)
  then show ?thesis by (simp add: max_connections_per_process_def)
qed

lemma pool_validate_nonneg: "pool_validate p = Inr u \<Longrightarrow> 0 \<le> pool_max_connections p"
  by (auto simp: pool_validate_def pool_max_connections_def split: if_splits)

lemma validate_Inr_iff:
  "validate c = Inr u \<longleftrightarrow>
     defaults_validate (defaults c) = Inr () \<and>
     (\<forall>(name, db) \<in> set (databases c). name \<noteq> [] \<and> database_validate db = Inr () \<and>
        database_enforce_connection_budget db (defaults c) name = Inr ()) \<and>
     enforce_connection_budget c = Inr ()"
  by (auto simp: validate_def sum_bind_Inr_iff each_sum_Inr_iff split: if_splits)


subsection \<open>Properties\<close>

text \<open>A configuration that passes \<open>validate\<close> with enforced budgets stays within them: the sum over
  all databases of the pool ceilings of primary and replicas is at most the process-wide limit, and
  each database's own sum at most its own limit.\<close>

theorem validated_budget_holds:
  assumes "validate c = Inr ()"
  shows "(\<forall>l. maximum_per_process (connection_budget c) = Some l \<longrightarrow> enforce_at_startup (connection_budget c) \<longrightarrow>
        sum_list (map (\<lambda>(_, db). database_max_connections db (defaults c)) (databases c)) \<le> l)
    \<and> (\<forall>(name, db) \<in> set (databases c). \<forall>l. maximum_per_process (db_connection_budget db) = Some l \<longrightarrow>
        enforce_at_startup (db_connection_budget db) \<longrightarrow> database_max_connections db (defaults c) \<le> l)"
proof
  show "\<forall>l. maximum_per_process (connection_budget c) = Some l \<longrightarrow> enforce_at_startup (connection_budget c) \<longrightarrow>
        sum_list (map (\<lambda>(_, db). database_max_connections db (defaults c)) (databases c)) \<le> l"
    using assms unfolding validate_Inr_iff enforce_connection_budget_def budget_check_Inr_iff
      max_connections_per_process_sum by blast
  show "\<forall>(name, db) \<in> set (databases c). \<forall>l. maximum_per_process (db_connection_budget db) = Some l \<longrightarrow>
        enforce_at_startup (db_connection_budget db) \<longrightarrow> database_max_connections db (defaults c) \<le> l"
    using assms unfolding validate_Inr_iff database_enforce_connection_budget_def budget_check_Inr_iff
    by blast
qed

definition sample_target :: "string \<Rightarrow> target_config" where
  "sample_target u = \<lparr>t_url = u, t_name = ''primary'', t_required = True, t_weight = 1, t_pool = None\<rparr>"

definition sample_config :: "pool_config option \<Rightarrow> dbkit_config" where
  "sample_config pool =
     \<lparr>databases = [(''app'', \<lparr>db_primary = (sample_target ''postgresql://h/db'')\<lparr>t_pool := pool\<rparr>, db_replicas = [],
        db_concurrency = \<lparr>cc_database = None, cc_reads = None, cc_writes = None, cc_bulk_writes = None,
          cc_expensive_queries = None\<rparr>,
        db_connection_budget = no_budget\<rparr>)],
      environment = ''development'', defaults = default_defaults,
      connection_budget = \<lparr>maximum_per_process = Some 20, enforce_at_startup = True\<rparr>,
      max_engines = None, max_databases = None, evict_lru_engines = False\<rparr>"

lemma sample_target_valid:
  "target_validate ((sample_target ''postgresql://h/db'')\<lparr>t_pool := p\<rparr>) = Inr ()"
proof -
  have "urlsplit ''postgresql://h/db'' = Some \<lparr>up_scheme = ''postgresql'', up_netloc = ''h'',
      up_path = ''/db'', up_query = [], up_fragment = []\<rparr>" by code_simp
  then show ?thesis by (simp add: target_validate_def sample_target_def url_parts_py_def)
qed

lemma sample_config_valid:
  "validate (sample_config None) = Inr ()"
  "validate (sample_config (Some (default_pool\<lparr>pool_size := - 30\<rparr>))) = Inr ()"
  by (simp_all add: validate_def sample_config_def default_defaults_def default_pool_def default_retry_def
      default_circuit_breaker_def defaults_validate_def pool_validate_def retry_validate_def
      circuit_breaker_validate_def database_validate_def sample_target_valid [unfolded sample_target_def, simplified]
      database_enforce_connection_budget_def enforce_connection_budget_def budget_check_def no_budget_def
      max_connections_per_process_def all_targets_def resolved_pool_def pool_max_connections_def
      sample_target_def)

lemma validated_budget_holds_witness:
  "sum_list (map (\<lambda>(_, db). database_max_connections db default_defaults) (databases (sample_config None))) \<le> 20"
  using validated_budget_holds [OF sample_config_valid(1)] by (auto simp: sample_config_def)

text \<open>Only the default pool is validated: a configuration whose target overrides the pool with a
  negative size passes \<open>validate\<close>, and the negative size is counted against the budget.\<close>

theorem target_pool_override_unvalidated:
  "validate (sample_config (Some (default_pool\<lparr>pool_size := - 30\<rparr>))) = Inr ()
   \<and> max_connections_per_process (sample_config (Some (default_pool\<lparr>pool_size := - 30\<rparr>))) = - 25"
  using sample_config_valid(2)
  by (simp add: max_connections_per_process_sum database_max_connections_def sample_config_def
      all_targets_def resolved_pool_def pool_max_connections_def default_pool_def sample_target_def)

end
