(* ===== verification/Policies.thy ===== *)
theory Policies
  imports Config Query
begin

text \<open>
  The pure policy decisions (\<^verbatim>\<open>_core/policies.py\<close>): which timeout bounds an operation,
  whether an error may be retried, and how long to back off.
\<close>

definition resolve_timeout :: "real option \<Rightarrow> query option \<Rightarrow> real option \<Rightarrow> real option" where
  "resolve_timeout call_timeout query default_timeout =
     (case call_timeout of
        Some t \<Rightarrow> Some t
      | None \<Rightarrow>
          (case query of
             Some q \<Rightarrow> (case q_timeout q of Some t \<Rightarrow> Some t | None \<Rightarrow> default_timeout)
           | None \<Rightarrow> default_timeout))"

definition remaining_deadline :: "real option \<Rightarrow> real \<Rightarrow> real option" where
  "remaining_deadline deadline now = (case deadline of None \<Rightarrow> None | Some d \<Rightarrow> Some (d - now))"

fun somes :: "'a option list \<Rightarrow> 'a list" where
  "somes [] = []"
| "somes (None # xs) = somes xs"
| "somes (Some x # xs) = x # somes xs"

definition min_list_real :: "real list \<Rightarrow> real" where
  "min_list_real xs = foldr min (tl xs) (hd xs)"

definition effective_timeout ::
  "real option \<Rightarrow> query option \<Rightarrow> real option \<Rightarrow> real option \<Rightarrow> real \<Rightarrow> real option" where
  "effective_timeout call_timeout query default_timeout deadline now =
     (let base = resolve_timeout call_timeout query default_timeout;
          remaining = remaining_deadline deadline now;
          candidates = somes [base, remaining]
      in if candidates = [] then None else Some (min_list_real candidates))"

definition is_idempotent :: "query option \<Rightarrow> bool option \<Rightarrow> bool" where
  "is_idempotent query idempotent_override =
     (case idempotent_override of
        Some b \<Rightarrow> b
      | None \<Rightarrow> (case query of Some q \<Rightarrow> q_idempotent q | None \<Rightarrow> False))"

definition query_is_write :: "query option \<Rightarrow> bool" where
  "query_is_write query = (case query of Some q \<Rightarrow> is_write q | None \<Rightarrow> False)"

definition should_retry ::
  "db_error \<Rightarrow> query option \<Rightarrow> retry_config \<Rightarrow> int \<Rightarrow> bool option \<Rightarrow> bool" where
  "should_retry error query config attempt idempotent_override =
     (if attempt \<ge> attempts config then False
      else if \<not> err_retryable error then False
      else if err_transaction_state_unknown error then False
      else if query_is_write query then
        (if \<not> retry_writes config then False
         else if \<not> is_idempotent query idempotent_override then False
         else True)
      else (if \<not> retry_reads config then False else True))"

definition backoff_delay_ms :: "int \<Rightarrow> retry_config \<Rightarrow> real \<Rightarrow> real" where
  "backoff_delay_ms attempt config rand =
     (let exp = initial_delay_ms config * multiplier config ^ nat (max (attempt - 1) 0);
          capped = min exp (maximum_delay_ms config)
      in if jitter config = ''full'' then capped * rand else capped)"

subsection \<open>Timeout bounds\<close>

lemma effective_timeout_cases:
  "effective_timeout c q d dl now =
     (case resolve_timeout c q d of
        None \<Rightarrow> remaining_deadline dl now
      | Some b \<Rightarrow> (case remaining_deadline dl now of None \<Rightarrow> Some b | Some r \<Rightarrow> Some (min r b)))"
  by (cases "resolve_timeout c q d"; cases "remaining_deadline dl now")
    (simp_all add: effective_timeout_def min_list_real_def Let_def)

lemma effective_timeout_le_deadline:
  "effective_timeout c q d (Some dl) now = Some t \<Longrightarrow> now + t \<le> dl"
  by (auto simp: effective_timeout_cases remaining_deadline_def split: option.splits)

lemma effective_timeout_le_base:
  "resolve_timeout c q d = Some b \<Longrightarrow> \<exists>t. effective_timeout c q d dl now = Some t \<and> t \<le> b"
  by (auto simp: effective_timeout_cases split: option.splits)

subsection \<open>Retry eligibility\<close>

lemma should_retry_iff:
  "should_retry e q rc n ov \<longleftrightarrow>
     n < attempts rc \<and> err_retryable e \<and> \<not> err_transaction_state_unknown e \<and>
     (if query_is_write q then retry_writes rc \<and> is_idempotent q ov else retry_reads rc)"
  by (simp add: should_retry_def)

lemma should_retry_bound: "should_retry e q rc n ov \<Longrightarrow> n < attempts rc"
  by (simp add: should_retry_iff)

lemma should_retry_write_safe:
  "should_retry e q rc n ov \<Longrightarrow> query_is_write q \<Longrightarrow> retry_writes rc \<and> is_idempotent q ov"
  by (simp add: should_retry_iff)

lemma should_retry_known_state:
  "should_retry e q rc n ov \<Longrightarrow> \<not> err_transaction_state_unknown e"
  by (simp add: should_retry_iff)

subsection \<open>Backoff bounds\<close>

lemma backoff_nonneg:
  assumes "0 \<le> initial_delay_ms rc" "0 \<le> multiplier rc" "0 \<le> maximum_delay_ms rc" "0 \<le> r"
  shows "0 \<le> backoff_delay_ms n rc r"
  using assms by (auto simp: backoff_delay_ms_def Let_def)

lemma backoff_le_max:
  assumes "0 \<le> initial_delay_ms rc" "0 \<le> multiplier rc" "0 \<le> maximum_delay_ms rc" "0 \<le> r" "r \<le> 1"
  shows "backoff_delay_ms n rc r \<le> maximum_delay_ms rc"
proof -
  let ?c = "min (initial_delay_ms rc * multiplier rc ^ nat (max (n - 1) 0)) (maximum_delay_ms rc)"
  have c: "0 \<le> ?c" "?c \<le> maximum_delay_ms rc" using assms by auto
  have "?c * r \<le> ?c" using mult_left_mono [OF assms(5) c(1)] by simp
  with c show ?thesis by (auto simp: backoff_delay_ms_def Let_def)
qed

lemma backoff_mono:
  assumes "jitter rc \<noteq> ''full''" "0 \<le> initial_delay_ms rc" "1 \<le> multiplier rc" "m \<le> n"
  shows "backoff_delay_ms m rc r \<le> backoff_delay_ms n rc r"
proof -
  have "multiplier rc ^ nat (max (m - 1) 0) \<le> multiplier rc ^ nat (max (n - 1) 0)"
    using assms by (intro power_increasing) auto
  then have "initial_delay_ms rc * multiplier rc ^ nat (max (m - 1) 0)
      \<le> initial_delay_ms rc * multiplier rc ^ nat (max (n - 1) 0)"
    using assms(2) by (rule mult_left_mono)
  with assms(1) show ?thesis by (simp add: backoff_delay_ms_def Let_def min_le_iff_disj)
qed


lemma backoff_full_le:
  assumes "0 \<le> initial_delay_ms rc" "0 \<le> multiplier rc" "0 \<le> maximum_delay_ms rc" "r \<le> 1"
  shows "backoff_delay_ms n rc r \<le> backoff_delay_ms n (rc\<lparr>jitter := ''none''\<rparr>) r"
proof -
  let ?c = "min (initial_delay_ms rc * multiplier rc ^ nat (max (n - 1) 0)) (maximum_delay_ms rc)"
  have "0 \<le> ?c" using assms by auto
  then have "?c * r \<le> ?c" using mult_left_mono [OF assms(4), of ?c] by simp
  then show ?thesis by (simp add: backoff_delay_ms_def Let_def)
qed

subsection \<open>Properties\<close>

text \<open>The timeout that bounds an operation: the first of call, query and default timeout that is
  set, cut to what is left of the deadline; with a deadline it never reaches past it, and without any
  of the four the operation is unbounded.\<close>

theorem effective_timeout_spec:
  "effective_timeout call q dflt None now = resolve_timeout call q dflt
   \<and> effective_timeout call q dflt (Some dl) now =
     Some (case resolve_timeout call q dflt of None \<Rightarrow> dl - now | Some b \<Rightarrow> min (dl - now) b)"
  by (simp add: effective_timeout_cases remaining_deadline_def split: option.split)

text \<open>The backoff: without jitter it grows with the attempt number up to the cap, full jitter only
  shortens it, and it is never negative nor above \<open>maximum_delay_ms\<close>.\<close>

theorem backoff_bounded:
  assumes "0 \<le> initial_delay_ms rc" "1 \<le> multiplier rc" "0 \<le> maximum_delay_ms rc"
    and "0 \<le> r" "r \<le> 1" "m \<le> n"
  shows "0 \<le> backoff_delay_ms n rc r \<and> backoff_delay_ms n rc r \<le> maximum_delay_ms rc
    \<and> backoff_delay_ms n rc r \<le> backoff_delay_ms n (rc\<lparr>jitter := ''none''\<rparr>) r
    \<and> backoff_delay_ms m (rc\<lparr>jitter := ''none''\<rparr>) r \<le> backoff_delay_ms n (rc\<lparr>jitter := ''none''\<rparr>) r"
proof (intro conjI)
  show "0 \<le> backoff_delay_ms n rc r" using assms by (intro backoff_nonneg) simp_all
  show "backoff_delay_ms n rc r \<le> maximum_delay_ms rc" using assms by (intro backoff_le_max) simp_all
  show "backoff_delay_ms n rc r \<le> backoff_delay_ms n (rc\<lparr>jitter := ''none''\<rparr>) r"
    using backoff_full_le [of rc r n] assms by simp
  show "backoff_delay_ms m (rc\<lparr>jitter := ''none''\<rparr>) r \<le> backoff_delay_ms n (rc\<lparr>jitter := ''none''\<rparr>) r"
    using assms by (intro backoff_mono) simp_all
qed

lemma backoff_bounded_witness:
  "0 \<le> backoff_delay_ms 3 default_retry (1/2) \<and> backoff_delay_ms 3 default_retry (1/2) \<le> 250
    \<and> backoff_delay_ms 3 default_retry (1/2) \<le> backoff_delay_ms 3 (default_retry\<lparr>jitter := ''none''\<rparr>) (1/2)
    \<and> backoff_delay_ms 2 (default_retry\<lparr>jitter := ''none''\<rparr>) (1/2)
      \<le> backoff_delay_ms 3 (default_retry\<lparr>jitter := ''none''\<rparr>) (1/2)"
  using backoff_bounded [of default_retry "1/2" 2 3] by (simp add: default_retry_def)

end
