(* ===== verification/Circuit.thy ===== *)
theory Circuit
  imports Errors
begin

text \<open>
  The circuit breaker (\<^verbatim>\<open>_core/circuit.py\<close>): a state machine with the clock injected.
  The deque of failure timestamps is a list, oldest first.
\<close>

definition TRIPPING_CATEGORIES :: "error_category list" where
  "TRIPPING_CATEGORIES = [AVAILABILITY, CONNECTION, POOL, TIMEOUT]"

definition counts_as_failure :: "db_error \<Rightarrow> bool" where
  "counts_as_failure error \<longleftrightarrow> err_category error \<in> set TRIPPING_CATEGORIES"

datatype circuit_state = CLOSED | OPEN | HALF_OPEN

record breaker =
  failure_threshold :: int
  window_seconds :: real
  open_seconds :: real
  half_open_max_calls :: int
  br_state :: circuit_state
  br_failures :: "real list"
  br_opened_at :: real
  br_half_open_calls :: int

definition new_breaker :: "int \<Rightarrow> real \<Rightarrow> real \<Rightarrow> int \<Rightarrow> breaker" where
  "new_breaker threshold window opn half_open_max =
     \<lparr>failure_threshold = threshold, window_seconds = window, open_seconds = opn,
      half_open_max_calls = half_open_max, br_state = CLOSED, br_failures = [],
      br_opened_at = 0, br_half_open_calls = 0\<rparr>"

text \<open>\<^verbatim>\<open>state(now)\<close> advances the machine and returns the state; the returned state is
  \<open>br_state\<close> of the new machine.\<close>

definition state :: "real \<Rightarrow> breaker \<Rightarrow> breaker" where
  "state now b =
     (if br_state b = OPEN \<and> now - br_opened_at b \<ge> open_seconds b
      then b\<lparr>br_state := HALF_OPEN, br_half_open_calls := 0\<rparr> else b)"

definition allow :: "real \<Rightarrow> breaker \<Rightarrow> bool \<times> breaker" where
  "allow now b =
     (let b' = state now b in
      case br_state b' of
        CLOSED \<Rightarrow> (True, b')
      | OPEN \<Rightarrow> (False, b')
      | HALF_OPEN \<Rightarrow>
          if br_half_open_calls b' < half_open_max_calls b'
          then (True, b'\<lparr>br_half_open_calls := br_half_open_calls b' + 1\<rparr>)
          else (False, b'))"

definition prune :: "real \<Rightarrow> breaker \<Rightarrow> breaker" where
  "prune now b =
     b\<lparr>br_failures := dropWhile (\<lambda>t. t < now - window_seconds b) (br_failures b)\<rparr>"

definition open_breaker :: "real \<Rightarrow> breaker \<Rightarrow> breaker" where
  "open_breaker now b =
     b\<lparr>br_state := OPEN, br_opened_at := now, br_failures := [], br_half_open_calls := 0\<rparr>"

definition reset :: "breaker \<Rightarrow> breaker" where
  "reset b = b\<lparr>br_state := CLOSED, br_failures := [], br_half_open_calls := 0\<rparr>"

definition on_success :: "real \<Rightarrow> breaker \<Rightarrow> breaker" where
  "on_success now b =
     (if br_state b = HALF_OPEN then reset b
      else if br_state b = CLOSED then prune now b
      else b)"

definition on_failure :: "real \<Rightarrow> breaker \<Rightarrow> breaker" where
  "on_failure now b =
     (if br_state b = HALF_OPEN then open_breaker now b
      else
        (let b' = prune now (b\<lparr>br_failures := br_failures b @ [now]\<rparr>) in
         if int (length (br_failures b')) \<ge> failure_threshold b' then open_breaker now b' else b'))"

text \<open>The numbers of the \<^verbatim>\<open>CIRCUIT_STATE\<close> gauge (\<^verbatim>\<open>_async/resilience.py\<close>) order the
  states.\<close>

fun circuit_state_value :: "circuit_state \<Rightarrow> real" where
  "circuit_state_value CLOSED = 0"
| "circuit_state_value HALF_OPEN = 1"
| "circuit_state_value OPEN = 2"

instantiation circuit_state :: linorder
begin

definition less_eq_circuit_state :: "circuit_state \<Rightarrow> circuit_state \<Rightarrow> bool" where
  "less_eq_circuit_state a b \<longleftrightarrow> circuit_state_value a \<le> circuit_state_value b"

definition less_circuit_state :: "circuit_state \<Rightarrow> circuit_state \<Rightarrow> bool" where
  "less_circuit_state a b \<longleftrightarrow> circuit_state_value a < circuit_state_value b"

instance
proof
  fix x y z :: circuit_state
  show "(x < y) = (x \<le> y \<and> \<not> y \<le> x)"
    by (auto simp: less_eq_circuit_state_def less_circuit_state_def)
  show "x \<le> x" by (simp add: less_eq_circuit_state_def)
  show "x \<le> y \<Longrightarrow> y \<le> z \<Longrightarrow> x \<le> z" by (simp add: less_eq_circuit_state_def)
  show "x \<le> y \<Longrightarrow> y \<le> x \<Longrightarrow> x = y"
    by (cases x; cases y) (auto simp: less_eq_circuit_state_def)
  show "x \<le> y \<or> y \<le> x" by (auto simp: less_eq_circuit_state_def)
qed

end

subsection \<open>Runs\<close>

datatype breaker_event = EvState real | EvAllow real | EvSuccess real | EvFailure real

fun ev_time :: "breaker_event \<Rightarrow> real" where
  "ev_time (EvState t) = t"
| "ev_time (EvAllow t) = t"
| "ev_time (EvSuccess t) = t"
| "ev_time (EvFailure t) = t"

text \<open>One event: what the caller sees (the state and, for \<open>EvAllow\<close>, the verdict) and the
  new machine.\<close>

type_synonym observation = "circuit_state \<times> bool option"

fun breaker_step :: "breaker \<Rightarrow> breaker_event \<Rightarrow> observation \<times> breaker" where
  "breaker_step b (EvState t) = (let b' = state t b in ((br_state b', None), b'))"
| "breaker_step b (EvAllow t) = (case allow t b of (ok, b') \<Rightarrow> ((br_state b', Some ok), b'))"
| "breaker_step b (EvSuccess t) = (let b' = on_success t b in ((br_state b', None), b'))"
| "breaker_step b (EvFailure t) = (let b' = on_failure t b in ((br_state b', None), b'))"

abbreviation breaker_run :: "breaker \<Rightarrow> breaker_event list \<Rightarrow> observation list \<times> breaker" where
  "breaker_run b es \<equiv> run_steps breaker_step b es"

named_theorems breaker_defs \<open>definitions of the breaker's operations\<close>

lemmas breaker_ops [breaker_defs] =
  state_def allow_def prune_def open_breaker_def reset_def on_success_def on_failure_def Let_def

subsection \<open>Invariant\<close>

definition breaker_inv :: "breaker \<Rightarrow> bool" where
  "breaker_inv b \<longleftrightarrow>
     1 \<le> failure_threshold b \<and>
     int (length (br_failures b)) < failure_threshold b \<and>
     0 \<le> br_half_open_calls b \<and>
     br_half_open_calls b \<le> max 0 (half_open_max_calls b) \<and>
     (br_state b \<noteq> HALF_OPEN \<longrightarrow> br_half_open_calls b = 0)"

lemma new_breaker_inv: "1 \<le> n \<Longrightarrow> breaker_inv (new_breaker n w op h)"
  by (simp add: breaker_inv_def new_breaker_def)

lemma state_inv: "breaker_inv b \<Longrightarrow> breaker_inv (state t b)"
  by (auto simp: breaker_inv_def state_def)

lemma allow_inv: "breaker_inv b \<Longrightarrow> breaker_inv (snd (allow t b))"
  using state_inv [of b t]
  by (auto simp: allow_def Let_def breaker_inv_def split: circuit_state.split)

lemma on_success_inv: "breaker_inv b \<Longrightarrow> breaker_inv (on_success t b)"
  using length_dropWhile_le [of "\<lambda>s. s < t - window_seconds b" "br_failures b"]
  by (auto simp: breaker_inv_def on_success_def reset_def prune_def)

lemma on_failure_inv: "breaker_inv b \<Longrightarrow> breaker_inv (on_failure t b)"
  by (auto simp: breaker_inv_def on_failure_def open_breaker_def prune_def Let_def)

lemma breaker_step_inv: "breaker_inv b \<Longrightarrow> breaker_inv (snd (breaker_step b e))"
proof (cases e)
  case (EvAllow t)
  assume "breaker_inv b"
  then have "breaker_inv (snd (allow t b))" by (rule allow_inv)
  with EvAllow show ?thesis by (cases "allow t b") simp
qed (simp_all add: state_inv on_success_inv on_failure_inv Let_def)

interpretation br: invariant_machine breaker_step breaker_inv
  by unfold_locales (rule breaker_step_inv)

lemma breaker_step_config:
  "failure_threshold (snd (breaker_step b e)) = failure_threshold b"
  "window_seconds (snd (breaker_step b e)) = window_seconds b"
  "open_seconds (snd (breaker_step b e)) = open_seconds b"
  "half_open_max_calls (snd (breaker_step b e)) = half_open_max_calls b"
  by (cases e; auto simp: breaker_defs split: circuit_state.split prod.split)+

subsection \<open>The pruned window against the full log\<close>

text \<open>
  The reference breaker keeps every failure reported since the window was last cleared and counts
  those no older than \<open>window_seconds\<close> when it decides. It is the specification of the
  rolling window; the code keeps a pruned deque instead. The two agree as long as the timestamps
  do not go back, which a monotonic clock guarantees.
\<close>

definition recent :: "real \<Rightarrow> breaker \<Rightarrow> real list" where
  "recent now b = filter (\<lambda>t. now - window_seconds b \<le> t) (br_failures b)"

definition ref_on_success :: "real \<Rightarrow> breaker \<Rightarrow> breaker" where
  "ref_on_success now b = (if br_state b = HALF_OPEN then reset b else b)"

definition ref_on_failure :: "real \<Rightarrow> breaker \<Rightarrow> breaker" where
  "ref_on_failure now b =
     (if br_state b = HALF_OPEN then open_breaker now b
      else
        (let b' = b\<lparr>br_failures := br_failures b @ [now]\<rparr> in
         if int (length (recent now b')) \<ge> failure_threshold b then open_breaker now b' else b'))"

text \<open>The state of the specification: the reference breaker and the time of the last event.\<close>

fun ref_step :: "breaker \<times> real \<Rightarrow> breaker_event \<Rightarrow> observation \<times> (breaker \<times> real)" where
  "ref_step (r, _) (EvState t) = (let r' = state t r in ((br_state r', None), (r', t)))"
| "ref_step (r, _) (EvAllow t) = (case allow t r of (ok, r') \<Rightarrow> ((br_state r', Some ok), (r', t)))"
| "ref_step (r, _) (EvSuccess t) = (let r' = ref_on_success t r in ((br_state r', None), (r', t)))"
| "ref_step (r, _) (EvFailure t) = (let r' = ref_on_failure t r in ((br_state r', None), (r', t)))"

definition clock_ok :: "breaker \<times> real \<Rightarrow> breaker_event \<Rightarrow> bool" where
  "clock_ok s e \<longleftrightarrow> snd s \<le> ev_time e"

definition window_rel :: "breaker \<Rightarrow> breaker \<times> real \<Rightarrow> bool" where
  "window_rel b s \<longleftrightarrow>
     sorted (br_failures (fst s)) \<and> (\<forall>t \<in> set (br_failures (fst s)). t \<le> snd s) \<and>
     (\<exists>c. c \<le> snd s - window_seconds (fst s) \<and>
          b = (fst s)\<lparr>br_failures := filter (\<lambda>t. c \<le> t) (br_failures (fst s))\<rparr>)"

lemma dropWhile_sorted: "sorted xs \<Longrightarrow> dropWhile (\<lambda>t. t < c) xs = filter (\<lambda>t. c \<le> t) (xs :: real list)"
proof (induction xs)
  case Nil
  then show ?case by simp
next
  case (Cons x xs)
  show ?case
  proof (cases "x < c")
    case True
    with Cons show ?thesis by simp
  next
    case False
    with Cons.prems have "\<forall>t \<in> set (x # xs). c \<le> t" by auto
    then have "filter (\<lambda>t. c \<le> t) (x # xs) = x # xs" by (simp only: filter_id_conv)
    with False show ?thesis by simp
  qed
qed

lemma window_relE:
  assumes "window_rel b (r, prev)"
  obtains c where "c \<le> prev - window_seconds r"
    and "b = r\<lparr>br_failures := filter (\<lambda>t. c \<le> t) (br_failures r)\<rparr>"
    and "sorted (br_failures r)" and "\<forall>t \<in> set (br_failures r). t \<le> prev"
  using assms unfolding window_rel_def fst_conv snd_conv by blast

lemma window_relI:
  assumes "c \<le> prev - window_seconds r"
    and "b = r\<lparr>br_failures := filter (\<lambda>t. c \<le> t) (br_failures r)\<rparr>"
    and "sorted (br_failures r)" and "\<forall>t \<in> set (br_failures r). t \<le> prev"
  shows "window_rel b (r, prev)"
  unfolding window_rel_def fst_conv snd_conv using assms by blast

lemma window_rel_frame:
  assumes rel: "window_rel b (r, prev)" and le: "prev \<le> t"
    and f: "\<And>x fs. f (x\<lparr>br_failures := fs\<rparr>) = (f x)\<lparr>br_failures := fs\<rparr>"
    and keep: "br_failures (f r) = br_failures r" "window_seconds (f r) = window_seconds r"
  shows "window_rel (f b) (f r, t)"
proof -
  obtain c where c: "c \<le> prev - window_seconds r"
      "b = r\<lparr>br_failures := filter (\<lambda>t. c \<le> t) (br_failures r)\<rparr>"
      "sorted (br_failures r)" "\<forall>t \<in> set (br_failures r). t \<le> prev"
    using rel by (rule window_relE)
  show ?thesis
    using c le by (intro window_relI [of c]) (auto simp: f keep)
qed

lemma window_rel_cleared:
  assumes "b = r" "br_failures r = []" shows "window_rel b (r, t)"
  using assms by (intro window_relI [of "t - window_seconds r"]) auto

lemma window_rel_state: "window_rel b (r, prev) \<Longrightarrow> prev \<le> t \<Longrightarrow> window_rel (state t b) (state t r, t)"
  by (rule window_rel_frame) (auto simp: state_def)

lemma window_rel_same: "window_rel b (r, prev) \<Longrightarrow> br_state b = br_state r"
  by (auto elim!: window_relE)

lemma allow_update_failures:
  "allow t (x\<lparr>br_failures := fs\<rparr>) = (fst (allow t x), (snd (allow t x))\<lparr>br_failures := fs\<rparr>)"
  by (auto simp: allow_def state_def Let_def split: circuit_state.split)

lemma allow_keeps: "br_failures (snd (allow t x)) = br_failures x"
  "window_seconds (snd (allow t x)) = window_seconds x"
  by (auto simp: allow_def state_def Let_def split: circuit_state.split)

lemma sim_allow:
  assumes "window_rel b (r, prev)" "prev \<le> t"
  shows "fst (allow t b) = fst (allow t r) \<and> window_rel (snd (allow t b)) (snd (allow t r), t)"
proof
  obtain c where "b = r\<lparr>br_failures := filter (\<lambda>t. c \<le> t) (br_failures r)\<rparr>"
    using assms(1) by (rule window_relE)
  then show "fst (allow t b) = fst (allow t r)" by (simp add: allow_update_failures)
  show "window_rel (snd (allow t b)) (snd (allow t r), t)"
    using assms by (rule window_rel_frame) (simp_all add: allow_update_failures allow_keeps)
qed

lemma prune_recent:
  assumes "window_rel b (r, prev)" "prev \<le> t"
  shows "prune t b = r\<lparr>br_failures := recent t r\<rparr>"
proof -
  obtain c where c: "c \<le> prev - window_seconds r"
      "b = r\<lparr>br_failures := filter (\<lambda>t. c \<le> t) (br_failures r)\<rparr>" "sorted (br_failures r)"
    using assms(1) by (rule window_relE)
  have "filter (\<lambda>s. t - window_seconds r \<le> s) (filter (\<lambda>t. c \<le> t) (br_failures r))
      = recent t r"
    using c(1) assms(2) by (auto simp: recent_def intro!: filter_cong)
  then show ?thesis
    using c by (simp add: prune_def dropWhile_sorted sorted_filter [of id, simplified])
qed

lemma window_rel_recent:
  assumes "window_rel b (r, prev)" "prev \<le> t"
  shows "window_rel (r\<lparr>br_failures := recent t r\<rparr>) (r, t)"
  using assms by (auto elim!: window_relE simp: recent_def intro!: window_relI [of "t - window_seconds r"])

lemma sim_success:
  assumes "window_rel b (r, prev)" "prev \<le> t"
  shows "window_rel (on_success t b) (ref_on_success t r, t)"
proof (cases "br_state r = HALF_OPEN")
  case True
  then have "reset b = reset r"
    using assms(1) by (auto elim!: window_relE simp: reset_def)
  with True window_rel_same [OF assms(1)] show ?thesis
    by (auto simp: on_success_def ref_on_success_def reset_def intro!: window_rel_cleared)
next
  case False
  have "window_rel b (r, t)"
    using window_rel_frame [OF assms, of id] by simp
  with False window_rel_same [OF assms(1)] show ?thesis
    using window_rel_recent [OF assms]
    by (simp add: on_success_def ref_on_success_def prune_recent [OF assms])
qed

lemma sim_failure:
  assumes "window_rel b (r, prev)" "prev \<le> t"
  shows "window_rel (on_failure t b) (ref_on_failure t r, t)"
proof (cases "br_state r = HALF_OPEN")
  case True
  then have "open_breaker t b = open_breaker t r"
    using assms(1) by (auto elim!: window_relE simp: open_breaker_def)
  with True window_rel_same [OF assms(1)] show ?thesis
    by (auto simp: on_failure_def ref_on_failure_def open_breaker_def intro!: window_rel_cleared)
next
  case False
  obtain c where c: "c \<le> prev - window_seconds r"
      "b = r\<lparr>br_failures := filter (\<lambda>t. c \<le> t) (br_failures r)\<rparr>"
      "sorted (br_failures r)" "\<forall>s \<in> set (br_failures r). s \<le> prev"
    using assms(1) by (rule window_relE)
  let ?b = "b\<lparr>br_failures := br_failures b @ [t]\<rparr>"
  let ?r = "r\<lparr>br_failures := br_failures r @ [t]\<rparr>"
  have srt: "sorted (br_failures b @ [t])"
    using c assms(2) by (auto simp: sorted_append sorted_filter [of id, simplified])
  have "filter (\<lambda>s. t - window_seconds r \<le> s) (filter (\<lambda>s. c \<le> s) (br_failures r))
      = filter (\<lambda>s. t - window_seconds r \<le> s) (br_failures r)"
    using c(1) assms(2) by (auto intro!: filter_cong)
  then have p: "prune t ?b = r\<lparr>br_failures := recent t ?r\<rparr>"
    using c(2) srt by (simp add: prune_def dropWhile_sorted recent_def)
  have eq: "open_breaker t (r\<lparr>br_failures := recent t ?r\<rparr>) = open_breaker t ?r"
    by (simp add: open_breaker_def)
  have "\<forall>s \<in> set (br_failures r). s \<le> t" using c(4) assms(2) by force
  then have keep: "window_rel (r\<lparr>br_failures := recent t ?r\<rparr>) (?r, t)"
    using c
    by (auto intro!: window_relI [of "t - window_seconds r"] simp: recent_def sorted_append)
  show ?thesis
    using False window_rel_same [OF assms(1)] keep window_rel_cleared [OF refl, of "open_breaker t ?r" t]
    by (simp add: on_failure_def ref_on_failure_def p eq open_breaker_def Let_def)
qed

lemma ref_step_sim:
  assumes "window_rel b s" "clock_ok s e"
  shows "fst (breaker_step b e) = fst (ref_step s e)
    \<and> window_rel (snd (breaker_step b e)) (snd (ref_step s e))"
proof -
  obtain r prev where s: "s = (r, prev)" by (cases s)
  have rel: "window_rel b (r, prev)" and le: "prev \<le> ev_time e"
    using assms s by (auto simp: clock_ok_def)
  show ?thesis
  proof (cases e)
    case (EvState t)
    then show ?thesis
      using s window_rel_state [OF rel, of t] le by (auto simp: Let_def dest: window_rel_same)
  next
    case (EvAllow t)
    then show ?thesis
      using s sim_allow [OF rel, of t] le by (auto dest: window_rel_same split: prod.split)
  next
    case (EvSuccess t)
    then show ?thesis
      using s sim_success [OF rel, of t] le by (auto simp: Let_def dest: window_rel_same)
  next
    case (EvFailure t)
    then show ?thesis
      using s sim_failure [OF rel, of t] le by (auto simp: Let_def dest: window_rel_same)
  qed
qed

interpretation window: simulation breaker_step ref_step clock_ok window_rel
  by unfold_locales (rule ref_step_sim)

lemma ref_step_time: "snd (snd (ref_step s e)) = ev_time e"
  by (cases s; cases e) (auto simp: Let_def split: prod.split)

lemma monotone_ok_run:
  "sorted (map ev_time es) \<Longrightarrow> (\<forall>e \<in> set es. snd s \<le> ev_time e) \<Longrightarrow> ok_run ref_step clock_ok s es"
proof (induction es arbitrary: s)
  case Nil
  then show ?case by simp
next
  case (Cons e es)
  from Cons.prems have "ok_run ref_step clock_ok (snd (ref_step s e)) es"
    by (intro Cons.IH) (auto simp: ref_step_time)
  moreover have "clock_ok s e" using Cons.prems by (simp add: clock_ok_def)
  ultimately show ?case by simp
qed

lemma breaker_run_reference:
  assumes "br_failures b = []" "sorted (map ev_time es)"
  shows "fst (breaker_run b es) = fst (run_steps ref_step (b, start) es) \<or> es = [] \<or> ev_time (hd es) < start"
proof (cases "es = [] \<or> ev_time (hd es) < start")
  case True
  then show ?thesis by blast
next
  case False
  then have "\<forall>e \<in> set es. start \<le> ev_time e"
    using assms(2) by (cases es) auto
  then have "ok_run ref_step clock_ok (b, start) es"
    using assms(2) by (intro monotone_ok_run) auto
  moreover have "window_rel b (b, start)" using assms(1) by (rule window_rel_cleared [OF refl])
  ultimately show ?thesis using window.run_sim by blast
qed

subsection \<open>Rejection while open, and the exhausted half-open state\<close>

lemma allow_open:
  "br_state b = OPEN \<Longrightarrow> now - br_opened_at b < open_seconds b \<Longrightarrow> allow now b = (False, b)"
  by (simp add: allow_def state_def)

lemma allow_closed: "br_state b = CLOSED \<Longrightarrow> allow now b = (True, b)"
  by (simp add: allow_def state_def)

definition exhausted :: "breaker \<Rightarrow> bool" where
  "exhausted b \<longleftrightarrow> br_state b = HALF_OPEN \<and> half_open_max_calls b \<le> br_half_open_calls b"

lemma allow_exhausted: "exhausted b \<Longrightarrow> allow now b = (False, b)"
  by (simp add: exhausted_def allow_def state_def)

text \<open>Callers that only ask are turned away at every time from then on.\<close>

lemma exhausted_forever:
  "exhausted b \<Longrightarrow> list_all (\<lambda>e. \<exists>t. e = EvAllow t \<or> e = EvState t) es \<Longrightarrow> snd (breaker_run b es) = b"
proof (induction es)
  case Nil
  then show ?case by simp
next
  case (Cons e es)
  from Cons.prems(1) have "snd (breaker_step b e) = b" if "e = EvAllow t \<or> e = EvState t" for t
    using that allow_exhausted [of b t]
    by (auto simp: exhausted_def state_def Let_def)
  with Cons show ?case by auto
qed

text \<open>The half-open state admits at most \<open>half_open_max_calls\<close> trials until feedback arrives.\<close>

fun is_feedback :: "breaker_event \<Rightarrow> bool" where
  "is_feedback (EvSuccess _) = True"
| "is_feedback (EvFailure _) = True"
| "is_feedback _ = False"

fun admitted :: "observation list \<Rightarrow> nat" where
  "admitted [] = 0"
| "admitted (ob # os) = (if snd ob = Some True then 1 else 0) + admitted os"

lemma half_open_admits:
  assumes "br_state b = HALF_OPEN" "0 \<le> br_half_open_calls b"
    "br_half_open_calls b \<le> half_open_max_calls b" "\<forall>e \<in> set es. \<not> is_feedback e"
  shows "br_half_open_calls b + int (admitted (fst (breaker_run b es))) \<le> half_open_max_calls b"
  using assms
proof (induction es arbitrary: b)
  case Nil
  then show ?case by simp
next
  case (Cons e es)
  let ?b1 = "snd (breaker_step b e)"
  have step: "br_state ?b1 = HALF_OPEN \<and> half_open_max_calls ?b1 = half_open_max_calls b \<and>
      br_half_open_calls ?b1 \<le> half_open_max_calls b \<and>
      br_half_open_calls ?b1 = br_half_open_calls b
        + (if snd (fst (breaker_step b e)) = Some True then 1 else 0)"
    using Cons.prems by (cases e) (auto simp: breaker_defs)
  with Cons.IH [of ?b1] Cons.prems show ?case by auto
qed


lemma ref_step_start: "ref_step (r, x) e = ref_step (r, y) e"
  by (cases e) simp_all

lemma ref_run_start: "fst (run_steps ref_step (r, x) es) = fst (run_steps ref_step (r, y) es)"
  by (cases es) (simp_all add: ref_step_start [of r x _ y])

subsection \<open>Properties\<close>

text \<open>C10. The rolling window: on any sequence of calls whose timestamps do not go back, a breaker
  that starts empty shows the same states and the same verdicts as the reference breaker, which
  forgets no failure and counts those of the last \<open>window_seconds\<close> when it decides.\<close>

theorem breaker_window_reference:
  assumes "sorted (map ev_time es)"
  shows "fst (breaker_run (new_breaker n w op h) es) = fst (run_steps ref_step (new_breaker n w op h, 0) es)"
proof (cases es)
  case (Cons e es')
  have "br_failures (new_breaker n w op h) = []" by (simp add: new_breaker_def)
  from breaker_run_reference [OF this assms, of "ev_time e"] Cons
  have "fst (breaker_run (new_breaker n w op h) es) = fst (run_steps ref_step (new_breaker n w op h, ev_time e) es)"
    by auto
  also have "\<dots> = fst (run_steps ref_step (new_breaker n w op h, 0) es)" by (rule ref_run_start)
  finally show ?thesis .
qed simp

lemma breaker_window_reference_witness:
  "fst (breaker_run (new_breaker 2 10 5 1) [EvFailure 1, EvFailure 20, EvFailure 21, EvAllow 22]) =
   fst (run_steps ref_step (new_breaker 2 10 5 1, 0) [EvFailure 1, EvFailure 20, EvFailure 21, EvAllow 22])"
  by (rule breaker_window_reference) simp

text \<open>The breaker's invariant over every run from construction: a closed breaker holds fewer
  failures than the threshold, the half-open slots in use never exceed the allowance, and slots are
  counted in the half-open state only.\<close>

theorem breaker_run_invariant:
  assumes "1 \<le> n"
  shows "breaker_inv (snd (breaker_run (new_breaker n w op h) es))"
  using new_breaker_inv [OF assms] by (rule br.run_inv)

lemma breaker_run_invariant_witness:
  "breaker_inv (snd (breaker_run (new_breaker 2 10 5 1) [EvFailure 1, EvFailure 2, EvAllow 9]))"
  by (rule breaker_run_invariant) simp

text \<open>Half-open trials: until feedback arrives, a half-open breaker admits at most
  \<open>half_open_max_calls\<close> calls, however often and whenever it is asked.\<close>

theorem half_open_trials_bounded:
  assumes "br_state b = HALF_OPEN" "br_half_open_calls b = 0" "0 \<le> half_open_max_calls b"
    and "\<forall>e \<in> set es. \<not> is_feedback e"
  shows "int (admitted (fst (breaker_run b es))) \<le> half_open_max_calls b"
  using half_open_admits [of b es] assms by simp

lemma half_open_trials_bounded_witness:
  "int (admitted (fst (breaker_run (state 9 (open_breaker 1 (new_breaker 2 10 5 1)))
      [EvAllow 9, EvAllow 9, EvState 10, EvAllow 11]))) \<le> 1"
  using half_open_trials_bounded [of "state 9 (open_breaker 1 (new_breaker 2 10 5 1))"
      "[EvAllow 9, EvAllow 9, EvState 10, EvAllow 11]"]
  by (simp add: state_def open_breaker_def new_breaker_def)

end
