(* ===== verification/Routing.thy ===== *)
theory Routing
  imports Errors
begin

text \<open>
  Routing (\<^verbatim>\<open>_core/routing.py\<close>): targets, shard resolvers and replica selectors. The two
  protocols of the module are locales, interpreted on every resolver and selector it provides.

  SHA-256 is a parameter (\<open>digest\<close>, the bytes of the digest): no property depends on it.
\<close>

datatype role = RoleWrite | RoleRead | RolePreferReplica | RolePrimaryOnly

text \<open>A shard key as the resolvers see it: integers and booleans compare equal by value, strings
  by content, and any other hashable object belongs to a class of objects equal to it and has its
  own \<^verbatim>\<open>str()\<close>.\<close>

datatype shard_key = KInt int | KBool bool | KStr string | KOther nat string

record target =
  tg_database :: string
  tg_role :: role
  tg_shard_key :: "shard_key option"

definition new_target :: "string \<Rightarrow> role \<Rightarrow> shard_key option \<Rightarrow> target py" where
  "new_target database r key =
     (if database = [] then
        raise_db DatabaseRoutingError ''DatabaseTarget.database must be a non-empty name''
      else Inr \<lparr>tg_database = database, tg_role = r, tg_shard_key = key\<rparr>)"

definition wants_replica :: "target \<Rightarrow> bool" where
  "wants_replica t \<longleftrightarrow> tg_role t = RoleRead \<or> tg_role t = RolePreferReplica"

definition requires_primary :: "target \<Rightarrow> bool" where
  "requires_primary t \<longleftrightarrow> tg_role t = RoleWrite \<or> tg_role t = RolePrimaryOnly"

lemma role_dichotomy: "requires_primary t \<longleftrightarrow> \<not> wants_replica t"
  by (cases "tg_role t") (auto simp: requires_primary_def wants_replica_def)

datatype route_role = Primary | Replica

record route =
  rt_database :: string
  rt_shard_id :: string
  rt_role :: route_role
  rt_replica_name :: "string option"

subsection \<open>Keys as dictionary keys\<close>

text \<open>Two keys are the same dictionary key when Python's \<^verbatim>\<open>==\<close> holds:
  \<^verbatim>\<open>True == 1\<close> and \<^verbatim>\<open>False == 0\<close>.\<close>

datatype eq_class = EInt int | EStr string | EObj nat

fun key_class :: "shard_key \<Rightarrow> eq_class" where
  "key_class (KInt i) = EInt i"
| "key_class (KBool b) = EInt (if b then 1 else 0)"
| "key_class (KStr s) = EStr s"
| "key_class (KOther c _) = EObj c"

fun key_str :: "shard_key \<Rightarrow> string" where
  "key_str (KInt i) = show_int i"
| "key_str (KBool b) = (if b then ''True'' else ''False'')"
| "key_str (KStr s) = s"
| "key_str (KOther _ s) = s"

fun key_repr :: "shard_key \<Rightarrow> string" where
  "key_repr (KStr s) = quoted s"
| "key_repr key = key_str key"

fun key_int :: "shard_key \<Rightarrow> int option" where
  "key_int (KInt i) = Some i"
| "key_int (KBool b) = Some (if b then 1 else 0)"
| "key_int _ = None"

subsection \<open>Shard resolvers\<close>

definition single_resolve :: "unit \<Rightarrow> string \<times> shard_key option \<Rightarrow> string py \<times> unit" where
  "single_resolve s q = (Inr ''default'', s)"

record hash_resolver =
  hr_num_shards :: int
  hr_prefix :: string
  hr_cache :: "(eq_class, string) dict"

definition CACHE_SIZE :: nat where
  "CACHE_SIZE = 4096"

definition new_hash_resolver :: "int \<Rightarrow> string \<Rightarrow> hash_resolver py" where
  "new_hash_resolver num_shards prefix =
     (if num_shards < 1 then raise_db DatabaseConfigurationError ''num_shards must be >= 1''
      else Inr \<lparr>hr_num_shards = num_shards, hr_prefix = prefix, hr_cache = []\<rparr>)"

text \<open>\<^verbatim>\<open>int.from_bytes(_, "big")\<close>\<close>

definition from_bytes_big :: "nat list \<Rightarrow> int" where
  "from_bytes_big bs = foldl (\<lambda>a b. a * 256 + int b) 0 bs"

definition bucket_name :: "string \<Rightarrow> int \<Rightarrow> string" where
  "bucket_name prefix bucket = prefix @ ''-'' @ zero_pad 3 (nat bucket)"

definition hash_bucket :: "(string \<Rightarrow> nat list) \<Rightarrow> int \<Rightarrow> shard_key \<Rightarrow> int" where
  "hash_bucket digest num_shards key = from_bytes_big (take 8 (digest (key_str key))) mod num_shards"

definition hash_resolve ::
  "(string \<Rightarrow> nat list) \<Rightarrow> hash_resolver \<Rightarrow> string \<times> shard_key option \<Rightarrow> string py \<times> hash_resolver" where
  "hash_resolve digest r q =
     (case snd q of
        None \<Rightarrow> (raise_db DatabaseRoutingError
                  (''hash sharding requires a shard_key for database '' @ quoted (fst q)), r)
      | Some key \<Rightarrow>
          (case dict_get (hr_cache r) (key_class key) of
             Some cached \<Rightarrow> (Inr cached, r\<lparr>hr_cache := move_to_end (key_class key) (hr_cache r)\<rparr>)
           | None \<Rightarrow>
               (let result = bucket_name (hr_prefix r) (hash_bucket digest (hr_num_shards r) key);
                    cache = dict_set (key_class key) result (hr_cache r);
                    cache' = (if length cache > CACHE_SIZE then tl cache else cache)
                in (Inr result, r\<lparr>hr_cache := cache'\<rparr>))))"

type_synonym shard_range = "int \<times> string"

definition new_range_resolver :: "shard_range list \<Rightarrow> shard_range list py" where
  "new_range_resolver ranges =
     (if ranges = [] then
        raise_db DatabaseConfigurationError ''RangeShardResolver requires at least one range''
      else Inr (sort_key fst ranges))"

fun first_above :: "int \<Rightarrow> shard_range list \<Rightarrow> string option" where
  "first_above k [] = None"
| "first_above k (r # rs) = (if k < fst r then Some (snd r) else first_above k rs)"

text \<open>Comparing a key that is no number with an integer bound raises
  \<^verbatim>\<open>TypeError\<close>; a resolver has at least one range, so the comparison happens.\<close>

definition range_resolve ::
  "shard_range list \<Rightarrow> string \<times> shard_key option \<Rightarrow> string py \<times> shard_range list" where
  "range_resolve rs q =
     (case snd q of
        None \<Rightarrow> raise_db DatabaseRoutingError
                  (''range sharding requires a shard_key for database '' @ quoted (fst q))
      | Some key \<Rightarrow>
          (case key_int key of
             None \<Rightarrow> Inl (Foreign (plain_exn [CException, CTypeError] ''not supported between instances''))
           | Some k \<Rightarrow>
               (case first_above k rs of
                  Some shard \<Rightarrow> Inr shard
                | None \<Rightarrow> raise_db DatabaseRoutingError
                    (''shard_key '' @ key_repr key @ '' exceeds the highest configured range for database ''
                       @ quoted (fst q)))), rs)"

type_synonym directory = "(eq_class option, string) dict"

definition directory_resolve :: "directory \<Rightarrow> string \<times> shard_key option \<Rightarrow> string py \<times> directory" where
  "directory_resolve d q =
     (case dict_get d (map_option key_class (snd q)) of
        Some shard \<Rightarrow> Inr shard
      | None \<Rightarrow> raise_db DatabaseRoutingError
          (''no shard mapping for key '' @ (case snd q of Some key \<Rightarrow> key_repr key | None \<Rightarrow> ''None'')
             @ '' in database '' @ quoted (fst q)), d)"

definition directory_set_mapping :: "shard_key option \<Rightarrow> string \<Rightarrow> directory \<Rightarrow> directory" where
  "directory_set_mapping key shard d = dict_set (map_option key_class key) shard d"

definition callable_resolve ::
  "(string \<Rightarrow> shard_key option \<Rightarrow> string py) \<Rightarrow> string \<times> shard_key option \<Rightarrow> string py" where
  "callable_resolve fn q = fn (fst q) (snd q)"

subsection \<open>The shard-resolver protocol\<close>

text \<open>
  What the facade relies on (write routing must be deterministic): whatever was resolved before,
  a resolver answers by a fixed function \<open>assignment\<close> of the database and the key, for the keys that
  are \<open>good\<close>.
\<close>

locale shard_resolver =
  fixes resolve :: "'r \<Rightarrow> string \<times> shard_key option \<Rightarrow> string py \<times> 'r"
    and assignment :: "string \<times> shard_key option \<Rightarrow> string py"
    and good :: "shard_key option \<Rightarrow> bool"
    and inv :: "'r \<Rightarrow> bool"
  assumes resolve_assignment: "inv r \<Longrightarrow> good (snd q) \<Longrightarrow>
      fst (resolve r q) = assignment q \<and> inv (snd (resolve r q))"
begin

sublocale stateless: simulation resolve "\<lambda>u q. (assignment q, u)" "\<lambda>_ q. good (snd q)" "\<lambda>r (_ :: unit). inv r"
  by unfold_locales (simp add: resolve_assignment)

lemma good_run: "\<forall>q \<in> set qs. good (snd q) \<Longrightarrow>
    ok_run (\<lambda>u q. (assignment q, u)) (\<lambda>_ q. good (snd q)) (u :: unit) qs"
  by (induction qs) auto

lemma stateless_answers: "fst (run_steps (\<lambda>u q. (assignment q, u)) (u :: unit) qs) = map assignment qs"
  by (induction qs) auto

lemma answers:
  assumes "inv r" "\<forall>q \<in> set qs. good (snd q)"
  shows "fst (run_steps resolve r qs) = map assignment qs"
  using stateless.run_sim [of r "()" qs] assms good_run stateless_answers by metis

lemma same_key_same_shard:
  assumes "inv r" "inv r'" "good k"
    and "\<forall>q \<in> set qs. good (snd q)" "\<forall>q \<in> set qs'. good (snd q)"
  shows "fst (resolve (snd (run_steps resolve r qs)) (db, k))
       = fst (resolve (snd (run_steps resolve r' qs')) (db, k))"
proof -
  have "inv (snd (run_steps resolve x ys))" if "inv x" "\<forall>q \<in> set ys. good (snd q)" for x ys
    using stateless.run_sim [of x "()" ys] that good_run by blast
  then have "inv (snd (run_steps resolve r qs))" "inv (snd (run_steps resolve r' qs'))"
    using assms by blast+
  from this [THEN resolve_assignment, of "(db, k)"] assms(3) show ?thesis by simp
qed

end

interpretation single: shard_resolver single_resolve "\<lambda>_. Inr ''default''" "\<lambda>_. True" "\<lambda>_. True"
  by unfold_locales (simp add: single_resolve_def)

interpretation range_rs: shard_resolver range_resolve "\<lambda>q. fst (range_resolve rs q)" "\<lambda>_. True" "\<lambda>r. r = rs"
  for rs
  by unfold_locales (simp add: range_resolve_def)

interpretation directory_rs:
  shard_resolver directory_resolve "\<lambda>q. fst (directory_resolve d q)" "\<lambda>_. True" "\<lambda>r. r = d"
  for d
  by unfold_locales (simp add: directory_resolve_def)

text \<open>The hash resolver: the cache holds only answers of the pure function, provided equal keys print
  alike. \<open>canonical\<close> chooses, in each equality class, the key that may occur.\<close>

definition hash_assignment ::
  "(string \<Rightarrow> nat list) \<Rightarrow> int \<Rightarrow> string \<Rightarrow> string \<times> shard_key option \<Rightarrow> string py" where
  "hash_assignment digest n prefix q =
     (case snd q of
        None \<Rightarrow> raise_db DatabaseRoutingError
                  (''hash sharding requires a shard_key for database '' @ quoted (fst q))
      | Some key \<Rightarrow> Inr (bucket_name prefix (hash_bucket digest n key)))"

definition prints_canonically :: "(eq_class \<Rightarrow> string) \<Rightarrow> shard_key option \<Rightarrow> bool" where
  "prints_canonically pr k \<longleftrightarrow> (\<forall>key. k = Some key \<longrightarrow> key_str key = pr (key_class key))"

definition hash_inv ::
  "(string \<Rightarrow> nat list) \<Rightarrow> int \<Rightarrow> string \<Rightarrow> (eq_class \<Rightarrow> string) \<Rightarrow> hash_resolver \<Rightarrow> bool" where
  "hash_inv digest n prefix pr r \<longleftrightarrow>
     hr_num_shards r = n \<and> hr_prefix r = prefix \<and> dict_wf (hr_cache r) \<and>
     (\<forall>c v. dict_get (hr_cache r) c = Some v \<longrightarrow>
        v = bucket_name prefix (from_bytes_big (take 8 (digest (pr c))) mod n))"

lemma dict_get_tl: "dict_wf d \<Longrightarrow> dict_get (tl d) k = Some v \<Longrightarrow> dict_get d k = Some v"
proof (cases d)
  case (Cons x xs)
  assume "dict_wf d" "dict_get (tl d) k = Some v"
  with Cons have "fst x \<notin> fst ` set xs" "(k, v) \<in> set xs"
    by (auto simp: dict_wf_def dest: map_of_SomeD)
  then have "fst x \<noteq> k" by (metis fst_conv image_eqI)
  with Cons \<open>dict_get (tl d) k = Some v\<close> show ?thesis by (cases x) simp
qed simp

lemma dict_wf_tl [simp]: "dict_wf d \<Longrightarrow> dict_wf (tl d)"
  by (cases d) (auto simp: dict_wf_def)

lemma hash_resolve_assignment:
  assumes inv: "hash_inv digest n prefix pr r" and k: "prints_canonically pr (snd q)"
  shows "fst (hash_resolve digest r q) = hash_assignment digest n prefix q
    \<and> hash_inv digest n prefix pr (snd (hash_resolve digest r q))"
proof (cases "snd q")
  case None
  with inv show ?thesis by (simp add: hash_resolve_def hash_assignment_def)
next
  case (Some key)
  let ?v = "bucket_name prefix (hash_bucket digest n key)"
  have pr: "key_str key = pr (key_class key)"
    using k Some by (simp add: prints_canonically_def)
  show ?thesis
  proof (cases "dict_get (hr_cache r) (key_class key)")
    case (Some cached)
    then have "cached = ?v"
      using inv pr by (simp add: hash_inv_def hash_bucket_def)
    with Some \<open>snd q = Some key\<close> inv show ?thesis
      by (simp add: hash_resolve_def hash_assignment_def hash_inv_def)
  next
    case None
    let ?c = "dict_set (key_class key) ?v (hr_cache r)"
    have wf: "dict_wf ?c" using inv by (simp add: hash_inv_def)
    have vals: "w = bucket_name prefix (from_bytes_big (take 8 (digest (pr c))) mod n)"
      if "dict_get ?c c = Some w" for c w
      using that inv pr by (auto simp: hash_inv_def dict_get_set hash_bucket_def split: if_splits)
    have "hash_inv digest n prefix pr (r\<lparr>hr_cache := if length ?c > CACHE_SIZE then tl ?c else ?c\<rparr>)"
      using inv wf vals dict_get_tl [OF wf] by (auto simp: hash_inv_def)
    with None \<open>snd q = Some key\<close> inv show ?thesis
      by (simp add: hash_resolve_def hash_assignment_def Let_def hash_inv_def)
  qed
qed

interpretation hash_rs: shard_resolver "hash_resolve digest" "hash_assignment digest n prefix"
    "prints_canonically pr" "hash_inv digest n prefix pr"
  for digest n prefix pr
  by unfold_locales (rule hash_resolve_assignment)

text \<open>The cache is bounded whatever the keys are.\<close>

definition cache_inv :: "hash_resolver \<Rightarrow> bool" where
  "cache_inv r \<longleftrightarrow> dict_wf (hr_cache r) \<and> length (hr_cache r) \<le> CACHE_SIZE"

lemma hash_resolve_cache: "cache_inv r \<Longrightarrow> cache_inv (snd (hash_resolve digest r q))"
proof (cases "snd q")
  case (Some key)
  assume inv: "cache_inv r"
  show ?thesis
  proof (cases "dict_get (hr_cache r) (key_class key)")
    case None
    let ?v = "bucket_name (hr_prefix r) (hash_bucket digest (hr_num_shards r) key)"
    let ?c = "dict_set (key_class key) ?v (hr_cache r)"
    have "length ?c \<le> Suc CACHE_SIZE"
      using inv length_dict_set_le [of "key_class key" ?v "hr_cache r"] by (simp add: cache_inv_def)
    with Some None inv show ?thesis
      by (auto simp: cache_inv_def hash_resolve_def Let_def)
  qed (use Some inv in \<open>auto simp: cache_inv_def hash_resolve_def\<close>)
qed (auto simp: hash_resolve_def)

interpretation hash_cache: bounded_store "hash_resolve digest" cache_inv "\<lambda>r. length (hr_cache r)"
    "\<lambda>_. CACHE_SIZE"
  for digest
  by unfold_locales (simp_all add: hash_resolve_cache, simp add: cache_inv_def)

lemma bucket_name_inj:
  "0 \<le> a \<Longrightarrow> 0 \<le> b \<Longrightarrow> bucket_name p a = bucket_name p b \<Longrightarrow> a = b"
  by (auto simp: bucket_name_def dest!: zero_pad_inj)

lemma first_above_sorted:
  assumes "sorted (map fst rs)" "first_above k rs = Some s"
  shows "\<exists>u. (u, s) \<in> set rs \<and> k < u \<and> (\<forall>(u', s') \<in> set rs. k < u' \<longrightarrow> u \<le> u')"
  using assms
proof (induction rs)
  case Nil
  then show ?case by simp
next
  case (Cons r rs)
  show ?case
  proof (cases "k < fst r")
    case True
    with Cons.prems show ?thesis by (intro exI [of _ "fst r"]) (cases r, auto)
  next
    case False
    with Cons obtain u where "(u, s) \<in> set rs" "k < u" "\<forall>(u', s') \<in> set rs. k < u' \<longrightarrow> u \<le> u'"
      by auto
    with False show ?thesis by (intro exI [of _ u]) (cases r, auto)
  qed
qed

lemma first_above_None: "first_above k rs = None \<longleftrightarrow> (\<forall>(u, s) \<in> set rs. u \<le> k)"
  by (induction rs) (auto split: if_splits)

subsection \<open>Replica selectors\<close>

record round_robin =
  rr_names :: "(string, string list) dict"
  rr_counters :: "(string, nat) dict"

definition new_round_robin :: "(string, string list) dict \<Rightarrow> round_robin" where
  "new_round_robin replicas =
     \<lparr>rr_names = replicas, rr_counters = map (\<lambda>(db, _). (db, 0)) replicas\<rparr>"

definition get_or :: "'v \<Rightarrow> ('k, 'v) dict \<Rightarrow> 'k \<Rightarrow> 'v" where
  "get_or v d k = (case dict_get d k of None \<Rightarrow> v | Some x \<Rightarrow> x)"

definition rr_select :: "round_robin \<Rightarrow> string \<Rightarrow> string option \<times> round_robin" where
  "rr_select s database =
     (let names = get_or [] (rr_names s) database in
      if names = [] then (None, s)
      else
        (let idx = get_or 0 (rr_counters s) database mod length names in
         (Some (names ! idx),
          s\<lparr>rr_counters := dict_set database (get_or 0 (rr_counters s) database + 1) (rr_counters s)\<rparr>)))"

definition setdefault :: "'k \<Rightarrow> 'v \<Rightarrow> ('k, 'v) dict \<Rightarrow> ('k, 'v) dict" where
  "setdefault k v d = (case dict_get d k of None \<Rightarrow> dict_set k v d | Some _ \<Rightarrow> d)"

definition rr_set_replicas :: "string \<Rightarrow> string list \<Rightarrow> round_robin \<Rightarrow> round_robin" where
  "rr_set_replicas database names s =
     (if names \<noteq> [] then
        s\<lparr>rr_names := dict_set database names (rr_names s),
          rr_counters := setdefault database 0 (rr_counters s)\<rparr>
      else
        s\<lparr>rr_names := dict_pop database (rr_names s),
          rr_counters := dict_pop database (rr_counters s)\<rparr>)"

type_synonym weighted = "(string, (string \<times> int) list) dict"

definition clamped_weight :: "string \<times> int \<Rightarrow> real" where
  "clamped_weight spec = real_of_int (max (snd spec) 1)"

text \<open>The loop over the cumulative weights; \<open>acc\<close> is the weight already passed.\<close>

fun weighted_pick :: "real \<Rightarrow> real \<Rightarrow> (string \<times> int) list \<Rightarrow> string option" where
  "weighted_pick r acc [] = None"
| "weighted_pick r acc (spec # specs) =
     (if r < acc + clamped_weight spec then Some (fst spec)
      else weighted_pick r (acc + clamped_weight spec) specs)"

definition weighted_select :: "real \<Rightarrow> weighted \<Rightarrow> string \<Rightarrow> string option \<times> weighted" where
  "weighted_select rand s database =
     (let specs = get_or [] s database in
      if specs = [] then (None, s)
      else
        (let total = sum_list (map clamped_weight specs) in
         case weighted_pick (rand * total) 0 specs of
           Some name \<Rightarrow> (Some name, s)
         | None \<Rightarrow> (Some (fst (List.last specs)), s)))"

definition weighted_set_replicas :: "string \<Rightarrow> (string \<times> int) list \<Rightarrow> weighted \<Rightarrow> weighted" where
  "weighted_set_replicas database specs s =
     (if specs \<noteq> [] then dict_set database specs s else dict_pop database s)"

subsection \<open>The replica-selector protocol\<close>

text \<open>
  What the facade relies on: a selector answers only with replicas it was configured with, says
  \<open>None\<close> only for a database that has none, and selecting does not change the configuration;
  \<open>set_replicas\<close> replaces one database's replicas and no other's.
\<close>

locale replica_selector =
  fixes select :: "'s \<Rightarrow> string \<Rightarrow> string option \<times> 's"
    and set_replicas :: "string \<Rightarrow> string list \<Rightarrow> 's \<Rightarrow> 's"
    and replicas_of :: "'s \<Rightarrow> string \<Rightarrow> string list"
  assumes select_member: "fst (select s db) = Some n \<Longrightarrow> n \<in> set (replicas_of s db)"
    and select_None: "fst (select s db) = None \<longleftrightarrow> replicas_of s db = []"
    and select_frame: "replicas_of (snd (select s db)) = replicas_of s"
    and set_replicas_of: "replicas_of (set_replicas db ns s) db' =
        (if db' = db then ns else replicas_of s db')"
begin

lemma run_frame: "replicas_of (snd (run_steps select s dbs)) = replicas_of s"
  by (induction dbs arbitrary: s) (simp_all add: select_frame)

lemma run_member:
  "i < length dbs \<Longrightarrow> fst (run_steps select s dbs) ! i = Some n \<Longrightarrow> n \<in> set (replicas_of s (dbs ! i))"
proof (induction dbs arbitrary: s i)
  case Nil
  then show ?case by simp
next
  case (Cons db dbs)
  show ?case
  proof (cases i)
    case 0
    with Cons.prems show ?thesis by (auto intro: select_member)
  next
    case (Suc j)
    with Cons.prems have "n \<in> set (replicas_of (snd (select s db)) (dbs ! j))"
      by (intro Cons.IH) auto
    with Suc show ?thesis by (simp add: select_frame)
  qed
qed

lemma removed_not_selected: "fst (select (set_replicas db [] s) db) = None"
  by (simp add: select_None set_replicas_of)

lemma added_selected:
  "ns \<noteq> [] \<Longrightarrow> \<exists>n \<in> set ns. fst (select (set_replicas db ns s) db) = Some n"
  using select_None [of "set_replicas db ns s" db] select_member [of "set_replicas db ns s" db]
  by (auto simp: set_replicas_of)

end

definition rr_replicas_of :: "round_robin \<Rightarrow> string \<Rightarrow> string list" where
  "rr_replicas_of s db = get_or [] (rr_names s) db"

lemma rr_select_answer:
  "fst (rr_select s db) =
     (let ns = rr_replicas_of s db in
      if ns = [] then None else Some (ns ! (get_or 0 (rr_counters s) db mod length ns)))"
  by (simp add: rr_select_def rr_replicas_of_def Let_def)

lemma rr_select_frame: "rr_replicas_of (snd (rr_select s db)) = rr_replicas_of s"
  by (simp add: rr_select_def rr_replicas_of_def Let_def fun_eq_iff)

interpretation rr: replica_selector rr_select rr_set_replicas rr_replicas_of
proof (unfold_locales, goal_cases)
  case (1 s db n)
  then show ?case by (auto simp: rr_select_answer Let_def split: if_splits)
next
  case (4 db ns s db')
  then show ?case
    by (auto simp: rr_set_replicas_def rr_replicas_of_def get_or_def dict_get_set dict_get_pop)
qed (simp_all add: rr_select_answer rr_select_frame Let_def)

definition weighted_replicas_of :: "weighted \<Rightarrow> string \<Rightarrow> string list" where
  "weighted_replicas_of s db = map fst (get_or [] s db)"

lemma weighted_pick_member: "weighted_pick r u specs = Some n \<Longrightarrow> n \<in> fst ` set specs"
  by (induction specs arbitrary: u) (auto split: if_splits)

text \<open>The facade registers a weighted selector's replicas with their weights; the protocol sees the
  names, each with some weight \<open>weight n\<close>.\<close>

interpretation weighted: replica_selector "weighted_select rand"
    "\<lambda>db ns. weighted_set_replicas db (map (\<lambda>n. (n, weight n)) ns)" weighted_replicas_of
  for rand weight
  by unfold_locales
    (auto simp: weighted_select_def weighted_set_replicas_def weighted_replicas_of_def get_or_def
      Let_def dict_get_set dict_get_pop comp_def split: option.splits if_splits
      dest!: weighted_pick_member)

subsection \<open>Round-robin fairness\<close>

text \<open>\<open>k\<close> consecutive selections for one database walk through its replicas in order.\<close>

lemma rr_run:
  assumes "rr_replicas_of s db = ns" "ns \<noteq> []"
  shows "fst (run_steps rr_select s (replicate k db)) =
    map (\<lambda>i. Some (ns ! ((get_or 0 (rr_counters s) db + i) mod length ns))) [0..<k]"
  using assms
proof (induction k arbitrary: s)
  case 0
  then show ?case by simp
next
  case (Suc k)
  let ?s1 = "snd (rr_select s db)"
  have sel: "fst (rr_select s db) = Some (ns ! (get_or 0 (rr_counters s) db mod length ns))"
    and cnt: "get_or 0 (rr_counters ?s1) db = Suc (get_or 0 (rr_counters s) db)"
    using Suc.prems by (auto simp: rr_select_def rr_replicas_of_def Let_def get_or_def dict_get_set)
  have "rr_replicas_of ?s1 db = ns" using Suc.prems by (simp add: rr.select_frame)
  then have "fst (run_steps rr_select ?s1 (replicate k db)) =
      map (\<lambda>i. Some (ns ! ((Suc (get_or 0 (rr_counters s) db) + i) mod length ns))) [0..<k]"
    using Suc.IH [of ?s1] Suc.prems(2) cnt by simp
  with sel show ?case
    by (simp add: upt_conv_Cons map_Suc_upt [symmetric] del: upt_Suc)
qed

lemma rotate_as_map:
  "ns \<noteq> [] \<Longrightarrow> map (\<lambda>i. ns ! ((c + i) mod length ns)) [0..<length ns] = rotate c ns"
  by (rule nth_equalityI) (simp_all add: nth_rotate)

subsection \<open>Weighted selection\<close>

definition weight_before :: "nat \<Rightarrow> (string \<times> int) list \<Rightarrow> real" where
  "weight_before i specs = sum_list (map clamped_weight (take i specs))"

lemma clamped_weight_ge1: "1 \<le> clamped_weight spec"
  by (simp add: clamped_weight_def)

lemma weighted_pick_interval:
  assumes "u \<le> r" "r < u + sum_list (map clamped_weight specs)"
  shows "\<exists>i < length specs. weighted_pick r u specs = Some (fst (specs ! i)) \<and>
    u + weight_before i specs \<le> r \<and> r < u + weight_before (Suc i) specs"
  using assms
proof (induction specs arbitrary: u)
  case Nil
  then show ?case by simp
next
  case (Cons spec specs)
  show ?case
  proof (cases "r < u + clamped_weight spec")
    case True
    with Cons.prems show ?thesis by (intro exI [of _ 0]) (simp add: weight_before_def)
  next
    case False
    let ?u = "u + clamped_weight spec"
    obtain i where "i < length specs" "weighted_pick r ?u specs = Some (fst (specs ! i))"
        "?u + weight_before i specs \<le> r" "r < ?u + weight_before (Suc i) specs"
      using Cons.IH [of ?u] Cons.prems False by auto
    with False show ?thesis
      by (intro exI [of _ "Suc i"]) (simp add: weight_before_def add.assoc)
  qed
qed


subsection \<open>Properties\<close>

text \<open>Hash sharding is deterministic: for keys of which equal ones print alike, the shard of a key
  is the same whatever was resolved before on either of two resolvers built alike, so neither the
  cache nor its eviction can change where a write goes.\<close>

theorem hash_routing_deterministic:
  assumes "new_hash_resolver n prefix = Inr r"
    and "prints_canonically pr k" "\<forall>q \<in> set qs \<union> set qs'. prints_canonically pr (snd q)"
  shows "fst (hash_resolve digest (snd (run_steps (hash_resolve digest) r qs)) (db, k))
       = fst (hash_resolve digest (snd (run_steps (hash_resolve digest) r qs')) (db, k))"
proof (rule hash_rs.same_key_same_shard [where n = n and prefix = prefix and pr = pr])
  show "hash_inv digest n prefix pr r" "hash_inv digest n prefix pr r"
    using assms(1) by (auto simp: new_hash_resolver_def hash_inv_def split: if_splits)
qed (use assms(2,3) in auto)

definition int_printer :: "eq_class \<Rightarrow> string" where
  "int_printer c = (case c of EInt i \<Rightarrow> show_int i | EStr s \<Rightarrow> s | EObj _ \<Rightarrow> [])"

lemma hash_routing_deterministic_witness:
  "fst (hash_resolve (\<lambda>s. map of_char s) (snd (run_steps (hash_resolve (\<lambda>s. map of_char s))
      \<lparr>hr_num_shards = 4, hr_prefix = ''shard'', hr_cache = []\<rparr> [(''app'', Some (KInt 7))])) (''app'', Some (KInt 7)))
   = fst (hash_resolve (\<lambda>s. map of_char s) (snd (run_steps (hash_resolve (\<lambda>s. map of_char s))
      \<lparr>hr_num_shards = 4, hr_prefix = ''shard'', hr_cache = []\<rparr> [])) (''app'', Some (KInt 7)))"
  by (rule hash_routing_deterministic [where n = 4 and prefix = "''shard''" and pr = int_printer])
    (simp_all add: new_hash_resolver_def prints_canonically_def int_printer_def)

text \<open>The cache of a hash resolver never holds more than \<open>CACHE_SIZE\<close> entries, after any sequence of
  lookups from construction.\<close>

theorem hash_cache_bounded:
  assumes "new_hash_resolver n prefix = Inr r"
  shows "length (hr_cache (snd (run_steps (hash_resolve digest) r qs))) \<le> CACHE_SIZE"
  using assms
  by (intro hash_cache.run_bounded) (auto simp: new_hash_resolver_def cache_inv_def split: if_splits)

lemma hash_cache_bounded_witness:
  "length (hr_cache (snd (run_steps (hash_resolve (\<lambda>s. map of_char s))
      \<lparr>hr_num_shards = 4, hr_prefix = ''shard'', hr_cache = []\<rparr> [(''app'', Some (KInt 7))]))) \<le> CACHE_SIZE"
  by (rule hash_cache_bounded [of 4 "''shard''"]) (simp add: new_hash_resolver_def)

text \<open>Equal keys that print differently break that determinism: after the key \<open>True\<close> was resolved,
  the equal key \<open>1\<close> is answered from the cache with the shard of \<open>True\<close>.\<close>

theorem hash_cache_conflates_equal_keys:
  "fst (hash_resolve digest (snd (hash_resolve digest \<lparr>hr_num_shards = n, hr_prefix = p, hr_cache = []\<rparr>
       (db, Some (KBool True)))) (db, Some (KInt 1)))
   = Inr (bucket_name p (hash_bucket digest n (KBool True)))"
  by (simp add: hash_resolve_def Let_def CACHE_SIZE_def)

text \<open>Range sharding: a resolver built from any list of ranges sends an integer key to the shard of
  the least upper bound above it, and refuses a key exactly when no bound is above it.\<close>

theorem range_routing_spec:
  assumes "new_range_resolver ranges = Inr rs" "key_int key = Some k"
  shows "(case fst (range_resolve rs (db, Some key)) of
      Inr shard \<Rightarrow> (\<exists>u. (u, shard) \<in> set ranges \<and> k < u \<and> (\<forall>(u', s') \<in> set ranges. k < u' \<longrightarrow> u \<le> u'))
    | Inl e \<Rightarrow> is_db_raise DatabaseRoutingError (Inl e :: string py) \<and> (\<forall>(u, s) \<in> set ranges. u \<le> k))"
proof -
  have rs: "rs = sort_key fst ranges" using assms(1) by (auto simp: new_range_resolver_def split: if_splits)
  show ?thesis
  proof (cases "first_above k rs")
    case None
    then have "\<forall>(u, s) \<in> set ranges. u \<le> k" unfolding first_above_None rs by simp
    with assms(2) None show ?thesis
      by (simp add: range_resolve_def raise_db_def is_db_raise_def)
  next
    case (Some s)
    have "sorted (map fst rs)" using rs by simp
    from first_above_sorted [OF this Some]
    have "\<exists>u. (u, s) \<in> set ranges \<and> k < u \<and> (\<forall>(u', s') \<in> set ranges. k < u' \<longrightarrow> u \<le> u')"
      unfolding rs by simp
    with assms(2) Some show ?thesis by (simp add: range_resolve_def)
  qed
qed

definition sample_ranges :: "shard_range list" where
  "sample_ranges = [(200, ''b''), (100, ''a'')]"

lemma range_routing_spec_witness:
  "(case fst (range_resolve [(100, ''a''), (200, ''b'')] (''app'', Some (KInt 150))) of
      Inr shard \<Rightarrow> (\<exists>u. (u, shard) \<in> set sample_ranges \<and> 150 < u
        \<and> (\<forall>(u', s') \<in> set sample_ranges. 150 < u' \<longrightarrow> u \<le> u'))
    | Inl e \<Rightarrow> is_db_raise DatabaseRoutingError (Inl e :: string py)
        \<and> (\<forall>(u, s) \<in> set sample_ranges. u \<le> 150))"
  by (rule range_routing_spec) (simp_all add: new_range_resolver_def sample_ranges_def)

text \<open>Round robin is fair: over as many consecutive selections as a database has replicas, each
  position of its replica list is chosen exactly once, in order, starting where the counter stands.\<close>

theorem round_robin_fair:
  assumes "rr_replicas_of s db = ns" "ns \<noteq> []"
  shows "fst (run_steps rr_select s (replicate (length ns) db)) =
    map Some (rotate (get_or 0 (rr_counters s) db) ns)"
  unfolding rr_run [OF assms] rotate_as_map [OF assms(2), symmetric] by simp

lemma round_robin_fair_witness:
  "fst (run_steps rr_select (new_round_robin [(''app'', [''r1'', ''r2''])]) (replicate (length [''r1'', ''r2'']) ''app'')) =
    map Some (rotate (get_or 0 (rr_counters (new_round_robin [(''app'', [''r1'', ''r2''])])) ''app'') [''r1'', ''r2''])"
  by (rule round_robin_fair) (simp_all add: rr_replicas_of_def new_round_robin_def get_or_def)

text \<open>Weighted selection: a random number in [0, 1) picks the replica whose slice of the cumulative
  clamped weights it falls in, so each replica is chosen on an interval proportional to its weight.\<close>

theorem weighted_selection_interval:
  assumes "get_or [] s db = specs" "specs \<noteq> []" "0 \<le> rand" "rand < 1"
  shows "\<exists>i < length specs. fst (weighted_select rand s db) = Some (fst (specs ! i))
    \<and> weight_before i specs \<le> rand * sum_list (map clamped_weight specs)
    \<and> rand * sum_list (map clamped_weight specs) < weight_before (Suc i) specs"
proof -
  let ?T = "sum_list (map clamped_weight specs)"
  have "0 \<le> sum_list (map clamped_weight xs)" for xs
    by (intro sum_list_nonneg) (auto simp: clamped_weight_def)
  then have "0 < ?T"
    using assms(2) clamped_weight_ge1 [of "hd specs"]
    by (cases specs) (auto intro: add_pos_nonneg)
  then have "rand * ?T < 0 + ?T" "0 \<le> rand * ?T" using assms(3,4) by simp_all
  from weighted_pick_interval [OF this(2,1)] obtain i where
    "i < length specs" "weighted_pick (rand * ?T) 0 specs = Some (fst (specs ! i))"
    "weight_before i specs \<le> rand * ?T" "rand * ?T < weight_before (Suc i) specs" by auto
  then show ?thesis using assms(1,2) by (auto simp: weighted_select_def)
qed

definition sample_specs :: "(string \<times> int) list" where
  "sample_specs = [(''r1'', 1), (''r2'', 3)]"

lemma weighted_selection_interval_witness:
  "\<exists>i < length sample_specs.
     fst (weighted_select (1/2) [(''app'', sample_specs)] ''app'') = Some (fst (sample_specs ! i))
    \<and> weight_before i sample_specs \<le> (1/2) * sum_list (map clamped_weight sample_specs)
    \<and> (1/2) * sum_list (map clamped_weight sample_specs) < weight_before (Suc i) sample_specs"
  by (rule weighted_selection_interval) (simp_all add: get_or_def sample_specs_def)

end
