(* ===== verification/Resilience.thy ===== *)
theory Resilience
  imports Policies Circuit Classifier
begin

text \<open>
  The retry executor \<^verbatim>\<open>run_with_retries\<close> (\<^verbatim>\<open>_async/resilience.py\<close>). What the loop
  observes of the world is given by the call: the outcome of the operation at each attempt, every
  reading of the monotonic clock in the order the code takes them, and the random numbers. The loop
  threads the number of clock readings taken, the breaker, and a log of what it did.
\<close>

datatype retry_event =
    EGauge real
  | EAttempt int
  | ERetry int
  | ESleep nat real  \<comment> \<open>the clock reading that follows the sleep, and the seconds slept\<close>

record 'a retry_call =
  rc_op :: "int \<Rightarrow> 'a py"
  rc_query :: "query option"
  rc_config :: retry_config
  rc_override :: "bool option"
  rc_deadline :: "real option"
  rc_labels :: err_context
  rc_clock :: "nat \<Rightarrow> real"
  rc_random :: "int \<Rightarrow> real"

record retry_state =
  rs_ticks :: nat
  rs_breaker :: "breaker option"
  rs_log :: "retry_event list"

definition log_event :: "retry_event \<Rightarrow> retry_state \<Rightarrow> retry_state" where
  "log_event e s = s\<lparr>rs_log := rs_log s @ [e]\<rparr>"

definition monotonic :: "'a retry_call \<Rightarrow> retry_state \<Rightarrow> real \<times> retry_state" where
  "monotonic c s = (rc_clock c (rs_ticks s), s\<lparr>rs_ticks := Suc (rs_ticks s)\<rparr>)"

definition emit_circuit_state :: "real \<Rightarrow> breaker \<Rightarrow> retry_state \<Rightarrow> retry_state" where
  "emit_circuit_state now b s =
     (let b' = state now b in
      log_event (EGauge (circuit_state_value (br_state b'))) (s\<lparr>rs_breaker := Some b'\<rparr>))"

definition gate :: "'a retry_call \<Rightarrow> retry_state \<Rightarrow> bool \<times> retry_state" where
  "gate c s =
     (case monotonic c s of (now, s1) \<Rightarrow>
      case rs_breaker s1 of
        None \<Rightarrow> (True, s1)
      | Some b \<Rightarrow> (case allow now b of (allowed, b') \<Rightarrow> (allowed, emit_circuit_state now b' s1)))"

definition record_failure :: "'a retry_call \<Rightarrow> db_error \<Rightarrow> retry_state \<Rightarrow> retry_state" where
  "record_failure c err s =
     (case rs_breaker s of
        None \<Rightarrow> s
      | Some b \<Rightarrow>
          (case (if counts_as_failure err
                 then (case monotonic c s of (t, s1) \<Rightarrow> (on_failure t b, s1)) else (b, s)) of
             (b1, s1) \<Rightarrow> (case monotonic c s1 of (t2, s2) \<Rightarrow> emit_circuit_state t2 b1 s2)))"

definition record_success :: "'a retry_call \<Rightarrow> retry_state \<Rightarrow> retry_state" where
  "record_success c s =
     (case rs_breaker s of
        None \<Rightarrow> s
      | Some b \<Rightarrow>
          (case monotonic c s of (t, s1) \<Rightarrow>
           case monotonic c s1 of (t2, s2) \<Rightarrow> emit_circuit_state t2 (on_success t b) s2))"

definition circuit_open_error :: "'a retry_call \<Rightarrow> db_error" where
  "circuit_open_error c =
     new_error DatabaseCircuitOpenError ''circuit is open for this target''
       (no_kwargs\<lparr>kw_database_name := ctx_database_name (rc_labels c), kw_role := ctx_role (rc_labels c),
                  kw_query_name := ctx_query_name (rc_labels c)\<rparr>)"

definition retry_delay :: "'a retry_call \<Rightarrow> int \<Rightarrow> real" where
  "retry_delay c attempt = backoff_delay_ms attempt (rc_config c) (rc_random c attempt) / 1000"

text \<open>The two clock checks before a sleep: the caller's deadline, then the retry budget.\<close>

definition past_deadline :: "'a retry_call \<Rightarrow> real \<Rightarrow> retry_state \<Rightarrow> bool \<times> retry_state" where
  "past_deadline c delay s =
     (case rc_deadline c of
        None \<Rightarrow> (False, s)
      | Some dl \<Rightarrow> (case monotonic c s of (t, s1) \<Rightarrow> (t + delay \<ge> dl, s1)))"

definition past_budget :: "'a retry_call \<Rightarrow> real \<Rightarrow> real \<Rightarrow> retry_state \<Rightarrow> bool \<times> retry_state" where
  "past_budget c started delay s =
     (case monotonic c s of (t, s1) \<Rightarrow>
        ((t - started) * 1000 + delay * 1000 \<ge> maximum_total_ms (rc_config c), s1))"

definition retries :: "'a retry_call \<Rightarrow> db_error \<Rightarrow> int \<Rightarrow> bool" where
  "retries c err attempt =
     should_retry err (rc_query c) (rc_config c) attempt (rc_override c)"

lemma retries_bound: "retries c err n \<Longrightarrow> n < attempts (rc_config c)"
  by (simp add: retries_def should_retry_bound)

function retry_loop :: "'a retry_call \<Rightarrow> real \<Rightarrow> int \<Rightarrow> retry_state \<Rightarrow> 'a py \<times> retry_state" where
  "retry_loop c started done s =
     (let attempt = done + 1 in
      case gate c s of (allowed, s1) \<Rightarrow>
      if \<not> allowed then (Inl (DbErr (circuit_open_error c)), s1)
      else
        (let s2 = log_event (EAttempt attempt) s1 in
         case rc_op c attempt of
           Inr result \<Rightarrow> (Inr result, record_success c s2)
         | Inl (Foreign e) \<Rightarrow> (Inl (Foreign e), s2)
         | Inl (DbErr err) \<Rightarrow>
             (let s3 = record_failure c err s2 in
              if \<not> retries c err attempt then (Inl (DbErr err), s3)
              else
                (let delay = retry_delay c attempt in
                 case past_deadline c delay s3 of (late, s4) \<Rightarrow>
                 if late then (Inl (DbErr err), s4)
                 else
                   (case past_budget c started delay s4 of (over, s5) \<Rightarrow>
                    if over then (Inl (DbErr err), s5)
                    else
                      retry_loop c started attempt
                        (log_event (ESleep (rs_ticks s5) delay) (log_event (ERetry attempt) s5)))))))"
  by pat_completeness auto
termination
  by (relation "measure (\<lambda>(c, _, d, _). nat (attempts (rc_config c) - d))")
    (auto dest: retries_bound)

declare retry_loop.simps [simp del]

definition run_with_retries :: "'a retry_call \<Rightarrow> breaker option \<Rightarrow> 'a py \<times> retry_state" where
  "run_with_retries c breaker =
     (case monotonic c \<lparr>rs_ticks = 0, rs_breaker = breaker, rs_log = []\<rparr> of
        (started, s) \<Rightarrow> retry_loop c started 0 s)"

subsection \<open>What the bookkeeping steps change\<close>

fun attempts_of :: "retry_event list \<Rightarrow> int list" where
  "attempts_of [] = []"
| "attempts_of (EAttempt n # es) = n # attempts_of es"
| "attempts_of (_ # es) = attempts_of es"

fun sleeps_of :: "retry_event list \<Rightarrow> (nat \<times> real) list" where
  "sleeps_of [] = []"
| "sleeps_of (ESleep t d # es) = (t, d) # sleeps_of es"
| "sleeps_of (_ # es) = sleeps_of es"

lemma attempts_of_append [simp]: "attempts_of (xs @ ys) = attempts_of xs @ attempts_of ys"
  by (induction xs rule: attempts_of.induct) auto

lemma sleeps_of_append [simp]: "sleeps_of (xs @ ys) = sleeps_of xs @ sleeps_of ys"
  by (induction xs rule: sleeps_of.induct) auto

named_theorems retry_defs \<open>definitions of the loop's bookkeeping\<close>

lemmas retry_bookkeeping [retry_defs] =
  gate_def record_failure_def record_success_def past_deadline_def past_budget_def monotonic_def
  emit_circuit_state_def log_event_def Let_def

lemma gate_log [simp]:
  "attempts_of (rs_log (snd (gate c s))) = attempts_of (rs_log s)"
  "sleeps_of (rs_log (snd (gate c s))) = sleeps_of (rs_log s)"
  by (simp_all add: retry_defs split: option.split prod.split)

lemma record_failure_log [simp]:
  "attempts_of (rs_log (record_failure c err s)) = attempts_of (rs_log s)"
  "sleeps_of (rs_log (record_failure c err s)) = sleeps_of (rs_log s)"
  by (simp_all add: retry_defs split: option.split)

lemma record_success_log [simp]:
  "attempts_of (rs_log (record_success c s)) = attempts_of (rs_log s)"
  "sleeps_of (rs_log (record_success c s)) = sleeps_of (rs_log s)"
  by (simp_all add: retry_defs split: option.split)

lemma past_deadline_log [simp]: "rs_log (snd (past_deadline c d s)) = rs_log s"
  by (simp add: retry_defs split: option.split)

lemma past_budget_log [simp]: "rs_log (snd (past_budget c st d s)) = rs_log s"
  by (simp add: retry_defs)

lemma log_event_log [simp]: "rs_log (log_event e s) = rs_log s @ [e]"
  by (simp add: log_event_def)

text \<open>One unfolding of the loop, by cases.\<close>

lemma retry_loop_cases [case_names blocked returned foreign failed]:
  fixes c :: "'a retry_call"
  assumes blocked: "\<not> fst (gate c s) \<Longrightarrow>
      retry_loop c st n s = (Inl (DbErr (circuit_open_error c)), snd (gate c s)) \<Longrightarrow> P"
    and returned: "\<And>x. fst (gate c s) \<Longrightarrow> rc_op c (n + 1) = Inr x \<Longrightarrow>
      retry_loop c st n s = (Inr x, record_success c (log_event (EAttempt (n + 1)) (snd (gate c s)))) \<Longrightarrow> P"
    and foreign: "\<And>e. fst (gate c s) \<Longrightarrow> rc_op c (n + 1) = Inl (Foreign e) \<Longrightarrow>
      retry_loop c st n s = (Inl (Foreign e), log_event (EAttempt (n + 1)) (snd (gate c s))) \<Longrightarrow> P"
    and failed: "\<And>err s3 s4 s5. fst (gate c s) \<Longrightarrow> rc_op c (n + 1) = Inl (DbErr err) \<Longrightarrow>
      s3 = record_failure c err (log_event (EAttempt (n + 1)) (snd (gate c s))) \<Longrightarrow>
      s4 = snd (past_deadline c (retry_delay c (n + 1)) s3) \<Longrightarrow>
      s5 = snd (past_budget c st (retry_delay c (n + 1)) s4) \<Longrightarrow>
      (\<not> retries c err (n + 1) \<and> retry_loop c st n s = (Inl (DbErr err), s3)) \<or>
      (retries c err (n + 1) \<and> fst (past_deadline c (retry_delay c (n + 1)) s3)
         \<and> retry_loop c st n s = (Inl (DbErr err), s4)) \<or>
      (retries c err (n + 1) \<and> \<not> fst (past_deadline c (retry_delay c (n + 1)) s3)
         \<and> fst (past_budget c st (retry_delay c (n + 1)) s4)
         \<and> retry_loop c st n s = (Inl (DbErr err), s5)) \<or>
      (retries c err (n + 1) \<and> \<not> fst (past_deadline c (retry_delay c (n + 1)) s3)
         \<and> \<not> fst (past_budget c st (retry_delay c (n + 1)) s4)
         \<and> retry_loop c st n s = retry_loop c st (n + 1)
             (log_event (ESleep (rs_ticks s5) (retry_delay c (n + 1))) (log_event (ERetry (n + 1)) s5)))
      \<Longrightarrow> P"
  shows P
proof (cases "fst (gate c s)")
  case False
  then show ?thesis
    by (intro blocked) (simp_all add: retry_loop.simps [of c st n s] Let_def case_prod_beta)
next
  case True
  show ?thesis
  proof (cases "rc_op c (n + 1)")
    case (Inr x)
    with True show ?thesis
      by (intro returned) (simp_all add: retry_loop.simps [of c st n s] Let_def case_prod_beta)
  next
    case (Inl r)
    show ?thesis
    proof (cases r)
      case (Foreign e)
      with True Inl show ?thesis
        by (intro foreign) (simp_all add: retry_loop.simps [of c st n s] Let_def case_prod_beta)
    next
      case (DbErr err)
      with True Inl show ?thesis
        by (intro failed [of err, OF _ _ refl refl refl])
          (simp_all add: retry_loop.simps [of c st n s] Let_def case_prod_beta)
    qed
  qed
qed

subsection \<open>The trace of a call\<close>

text \<open>
  \<open>legal c n k r\<close>: from attempt \<open>n\<close> on the loop made \<open>k\<close> attempts and ended with \<open>r\<close>. Every
  attempt but the last failed with an error the policy allows to retry, and the result is the last
  attempt's outcome or the refusal of the breaker.
\<close>

definition legal :: "'a retry_call \<Rightarrow> int \<Rightarrow> nat \<Rightarrow> 'a py \<Rightarrow> bool" where
  "legal c n k r \<longleftrightarrow>
     (\<forall>i. 1 \<le> i \<and> i < int k \<longrightarrow> (\<exists>err. rc_op c (n + i) = Inl (DbErr err) \<and> retries c err (n + i))) \<and>
     ((0 < k \<and> r = rc_op c (n + int k)) \<or>
      (r = Inl (DbErr (circuit_open_error c)) \<and>
       (0 < k \<longrightarrow> (\<exists>err. rc_op c (n + int k) = Inl (DbErr err) \<and> retries c err (n + int k)))))"

lemma legal_blocked: "legal c n 0 (Inl (DbErr (circuit_open_error c)))"
  by (auto simp: legal_def)

lemma legal_last: "rc_op c (n + 1) = r \<Longrightarrow> legal c n 1 r"
  by (auto simp: legal_def)

lemma legal_step:
  assumes op: "rc_op c (n + 1) = Inl (DbErr err)" "retries c err (n + 1)" and rest: "legal c (n + 1) k r"
  shows "legal c n (Suc k) r"
proof -
  have shift: "n + 1 + (i - 1) = n + i" for i :: int by simp
  have early: "\<exists>err. rc_op c (n + i) = Inl (DbErr err) \<and> retries c err (n + i)"
    if i: "1 \<le> i" "i < int (Suc k)" for i
  proof (cases "i = 1")
    case True
    with op show ?thesis by blast
  next
    case False
    with i have "1 \<le> i - 1" "i - 1 < int k" by auto
    with rest have "\<exists>err. rc_op c (n + 1 + (i - 1)) = Inl (DbErr err) \<and> retries c err (n + 1 + (i - 1))"
      unfolding legal_def by blast
    then show ?thesis unfolding shift .
  qed
  have end_k: "n + 1 + int k = n + int (Suc k)" by simp
  from rest show ?thesis
    using early op end_k by (cases "k = 0") (auto simp: legal_def)
qed

lemma retry_loop_legal:
  fixes s :: retry_state
  shows "\<exists>k. attempts_of (rs_log (snd (retry_loop c st n s))) =
      attempts_of (rs_log s) @ map (\<lambda>i. n + 1 + int i) [0..<k]
    \<and> legal c n k (fst (retry_loop c st n s))"
proof (induction "nat (attempts (rc_config c) - n)" arbitrary: n s rule: less_induct)
  case less
  show ?case
  proof (cases rule: retry_loop_cases [of c s st n])
    case blocked
    then show ?thesis using legal_blocked by (intro exI [of _ 0]) simp
  next
    case (returned x)
    then show ?thesis using legal_last [of c n] by (intro exI [of _ 1]) simp
  next
    case (foreign e)
    then show ?thesis using legal_last [of c n] by (intro exI [of _ 1]) simp
  next
    case (failed err s3 s4 s5)
    let ?s' = "log_event (ESleep (rs_ticks s5) (retry_delay c (n + 1))) (log_event (ERetry (n + 1)) s5)"
    have log: "attempts_of (rs_log s3) = attempts_of (rs_log s) @ [n + 1]"
      "attempts_of (rs_log s4) = attempts_of (rs_log s) @ [n + 1]"
      "attempts_of (rs_log s5) = attempts_of (rs_log s) @ [n + 1]"
      "attempts_of (rs_log ?s') = attempts_of (rs_log s) @ [n + 1]"
      using failed(3-5) by simp_all
    from failed(6) show ?thesis
    proof (elim disjE conjE)
      assume again: "retries c err (n + 1)" "retry_loop c st n s = retry_loop c st (n + 1) ?s'"
      have "nat (attempts (rc_config c) - (n + 1)) < nat (attempts (rc_config c) - n)"
        using retries_bound [OF again(1)] by simp
      from less [OF this] obtain k where
        k: "attempts_of (rs_log (snd (retry_loop c st (n + 1) ?s'))) =
              attempts_of (rs_log ?s') @ map (\<lambda>i. n + 1 + 1 + int i) [0..<k]"
          "legal c (n + 1) k (fst (retry_loop c st (n + 1) ?s'))" by blast
      have "map (\<lambda>i. n + 1 + int i) [0..<Suc k] = (n + 1) # map (\<lambda>i. n + 1 + 1 + int i) [0..<k]"
        by (simp add: upt_conv_Cons map_Suc_upt [symmetric] del: upt_Suc)
      with k log legal_step [OF failed(2) again(1) k(2)] again(2) show ?thesis
        by (intro exI [of _ "Suc k"]) (simp del: upt_Suc)
    qed (use log legal_last [of c n, OF failed(2)] in \<open>auto intro!: exI [of _ "1 :: nat"]\<close>)
  qed
qed

lemma run_legal:
  "\<exists>k. attempts_of (rs_log (snd (run_with_retries c b))) = map (\<lambda>i. 1 + int i) [0..<k]
    \<and> legal c 0 k (fst (run_with_retries c b))"
proof -
  let ?s = "\<lparr>rs_ticks = Suc 0, rs_breaker = b, rs_log = []\<rparr>"
  have "run_with_retries c b = retry_loop c (rc_clock c 0) 0 ?s"
    by (simp add: run_with_retries_def monotonic_def)
  with retry_loop_legal [of c "rc_clock c 0" 0 ?s] show ?thesis by simp
qed

text \<open>Consequences of legality.\<close>

lemma legal_bound:
  assumes "legal c n k r" shows "int k \<le> max 1 (attempts (rc_config c) - n)"
proof (cases "k \<le> 1")
  case False
  then have "1 \<le> int k - 1" "int k - 1 < int k" by auto
  with assms obtain err where "retries c err (n + (int k - 1))"
    unfolding legal_def by blast
  then show ?thesis using retries_bound by fastforce
qed simp

lemma legal_unsafe_write:
  assumes "legal c n k r" "query_is_write (rc_query c)"
    and "\<not> retry_writes (rc_config c) \<or> \<not> is_idempotent (rc_query c) (rc_override c)"
  shows "k \<le> 1"
proof (rule ccontr)
  assume "\<not> k \<le> 1"
  with assms(1) obtain err where "retries c err (n + 1)"
    unfolding legal_def by fastforce
  with assms(2,3) show False by (auto simp: retries_def should_retry_iff)
qed

lemma legal_unknown_last:
  assumes "legal c n k r" "1 \<le> i" "i \<le> int k" "rc_op c (n + i) = Inl (DbErr err)"
    and "err_transaction_state_unknown err"
  shows "i = int k \<and> r = Inl (DbErr err)"
proof -
  have no: "\<not> retries c err (n + i)"
    using assms(5) by (simp add: retries_def should_retry_iff)
  have "i = int k"
  proof (rule ccontr)
    assume "i \<noteq> int k"
    with assms(1-3) obtain err' where "rc_op c (n + i) = Inl (DbErr err')" "retries c err' (n + i)"
      unfolding legal_def by fastforce
    with assms(4) no show False by simp
  qed
  with assms no show ?thesis unfolding legal_def by fastforce
qed


subsection \<open>The time spent sleeping\<close>

lemma ticks_mono:
  "rs_ticks s \<le> rs_ticks (snd (gate c s))"
  "rs_ticks s \<le> rs_ticks (record_failure c err s)"
  "rs_ticks s \<le> rs_ticks (snd (past_deadline c d s))"
  by (auto simp: retry_defs split: option.split prod.split)

lemma ticks_log_event [simp]: "rs_ticks (log_event e s) = rs_ticks s"
  by (simp add: log_event_def)

lemma past_budget_reading:
  "fst (past_budget c st d s) \<longleftrightarrow>
     (rc_clock c (rs_ticks s) - st) * 1000 + d * 1000 \<ge> maximum_total_ms (rc_config c)"
  "rs_ticks (snd (past_budget c st d s)) = Suc (rs_ticks s)"
  by (simp_all add: retry_defs)

lemma past_deadline_reading:
  "rc_deadline c = Some dl \<Longrightarrow> fst (past_deadline c d s) \<longleftrightarrow> rc_clock c (rs_ticks s) + d \<ge> dl"
  "rc_deadline c = Some dl \<Longrightarrow> rs_ticks (snd (past_deadline c d s)) = Suc (rs_ticks s)"
  by (simp_all add: retry_defs)

lemma retry_loop_sleeps_extend:
  fixes s :: retry_state
  shows "\<exists>sl. sleeps_of (rs_log (snd (retry_loop c st n s))) = sleeps_of (rs_log s) @ sl"
proof (induction "nat (attempts (rc_config c) - n)" arbitrary: n s rule: less_induct)
  case less
  show ?case
  proof (cases rule: retry_loop_cases [of c s st n])
    case (failed err s3 s4 s5)
    let ?s' = "log_event (ESleep (rs_ticks s5) (retry_delay c (n + 1))) (log_event (ERetry (n + 1)) s5)"
    from failed(6) show ?thesis
    proof (elim disjE conjE)
      assume again: "retries c err (n + 1)" "retry_loop c st n s = retry_loop c st (n + 1) ?s'"
      have "nat (attempts (rc_config c) - (n + 1)) < nat (attempts (rc_config c) - n)"
        using retries_bound [OF again(1)] by simp
      from less [OF this, of ?s'] show ?thesis using again(2) failed(3-5) by auto
    qed (use failed(3-5) in auto)
  qed auto
qed

text \<open>No sleep is planned to end past the caller's deadline.\<close>

lemma retry_loop_deadline:
  fixes s :: retry_state
  assumes dl: "rc_deadline c = Some dl"
  shows "(t, d) \<in> set (sleeps_of (rs_log (snd (retry_loop c st n s)))) \<Longrightarrow>
    (t, d) \<in> set (sleeps_of (rs_log s)) \<or> (2 \<le> t \<and> rc_clock c (t - 2) + d < dl)"
proof (induction "nat (attempts (rc_config c) - n)" arbitrary: n s rule: less_induct)
  case less
  from less.prems show ?case
  proof (cases rule: retry_loop_cases [of c s st n])
    case (failed err s3 s4 s5)
    let ?d = "retry_delay c (n + 1)"
    let ?s' = "log_event (ESleep (rs_ticks s5) ?d) (log_event (ERetry (n + 1)) s5)"
    from failed(6) show ?thesis
    proof (elim disjE conjE)
      assume again: "retries c err (n + 1)" "retry_loop c st n s = retry_loop c st (n + 1) ?s'"
        and early: "\<not> fst (past_deadline c ?d s3)"
      have "nat (attempts (rc_config c) - (n + 1)) < nat (attempts (rc_config c) - n)"
        using retries_bound [OF again(1)] by simp
      from less.hyps [OF this, of ?s'] less.prems again(2)
      have "(t, d) \<in> set (sleeps_of (rs_log ?s')) \<or> (2 \<le> t \<and> rc_clock c (t - 2) + d < dl)" by simp
      moreover have "rs_ticks s5 = Suc (Suc (rs_ticks s3))"
        unfolding failed(4,5) past_budget_reading(2) past_deadline_reading(2) [OF dl] ..
      moreover have "rc_clock c (rs_ticks s3) + ?d < dl"
        using early unfolding past_deadline_reading(1) [OF dl] by simp
      ultimately show ?thesis using failed(3-5) by auto
    qed (use less.prems failed(3-5) in auto)
  qed auto
qed

text \<open>A sleep really lasts: the clock reading after it is at least its delay past the one before.\<close>

definition sleeps_last :: "'a retry_call \<Rightarrow> (nat \<times> real) list \<Rightarrow> bool" where
  "sleeps_last c sl \<longleftrightarrow> (\<forall>(t, d) \<in> set sl. rc_clock c (t - 1) + d \<le> rc_clock c t)"

lemma retry_loop_budget:
  fixes s :: retry_state
  assumes clock: "mono (rc_clock c)"
    and last: "sleeps_last c (sleeps_of (rs_log (snd (retry_loop c st n s))))"
    and spent: "sum_list (map snd (sleeps_of (rs_log s))) \<le> rc_clock c (rs_ticks s) - st"
  shows "\<exists>sl. sleeps_of (rs_log (snd (retry_loop c st n s))) = sleeps_of (rs_log s) @ sl
    \<and> (sl \<noteq> [] \<longrightarrow> 1000 * sum_list (map snd (sleeps_of (rs_log s) @ sl)) < maximum_total_ms (rc_config c))"
  using last spent
proof (induction "nat (attempts (rc_config c) - n)" arbitrary: n s rule: less_induct)
  case less
  show ?case
  proof (cases rule: retry_loop_cases [of c s st n])
    case (failed err s3 s4 s5)
    let ?d = "retry_delay c (n + 1)" and ?D = "sum_list (map snd (sleeps_of (rs_log s)))"
    let ?s' = "log_event (ESleep (rs_ticks s5) ?d) (log_event (ERetry (n + 1)) s5)"
    have log: "sleeps_of (rs_log s3) = sleeps_of (rs_log s)" "sleeps_of (rs_log s4) = sleeps_of (rs_log s)"
      "sleeps_of (rs_log s5) = sleeps_of (rs_log s)"
      "sleeps_of (rs_log ?s') = sleeps_of (rs_log s) @ [(rs_ticks s5, ?d)]"
      using failed(3-5) by simp_all
    have ticks: "rs_ticks s \<le> rs_ticks s4" "rs_ticks s5 = Suc (rs_ticks s4)"
      using failed(3-5) ticks_mono(1) [of s c] past_budget_reading(2)
        ticks_mono(2) [of "log_event (EAttempt (n + 1)) (snd (gate c s))" c err]
        ticks_mono(3) [of s3 c ?d] by auto
    from failed(6) show ?thesis
    proof (elim disjE conjE)
      assume again: "retries c err (n + 1)" "retry_loop c st n s = retry_loop c st (n + 1) ?s'"
        and within: "\<not> fst (past_budget c st ?d s4)"
      have dec: "nat (attempts (rc_config c) - (n + 1)) < nat (attempts (rc_config c) - n)"
        using retries_bound [OF again(1)] by simp
      have late: "rc_clock c (rs_ticks s) \<le> rc_clock c (rs_ticks s4)"
        using clock ticks(1) by (rule monoD)
      have bud: "1000 * (?D + ?d) < maximum_total_ms (rc_config c)"
        using within late less.prems(2) unfolding past_budget_reading(1) by (simp add: algebra_simps)
      have slept: "rc_clock c (rs_ticks s4) + ?d \<le> rc_clock c (rs_ticks s5)"
        if "(rs_ticks s5, ?d) \<in> set (sleeps_of (rs_log (snd (retry_loop c st n s))))"
        using less.prems(1) that ticks(2) unfolding sleeps_last_def by force
      have mem: "(rs_ticks s5, ?d) \<in> set (sleeps_of (rs_log (snd (retry_loop c st n s))))"
        using retry_loop_sleeps_extend [of c st "n + 1" ?s'] log(4) again(2) by auto
      have "\<exists>sl. sleeps_of (rs_log (snd (retry_loop c st (n + 1) ?s'))) = sleeps_of (rs_log ?s') @ sl
          \<and> (sl \<noteq> [] \<longrightarrow> 1000 * sum_list (map snd (sleeps_of (rs_log ?s') @ sl)) < maximum_total_ms (rc_config c))"
        using less.prems(1) slept [OF mem] late less.prems(2) again(2) log(4)
        by (intro less.hyps [OF dec]) (auto simp: algebra_simps)
      then obtain sl where "sleeps_of (rs_log (snd (retry_loop c st (n + 1) ?s'))) = sleeps_of (rs_log ?s') @ sl"
        "sl \<noteq> [] \<longrightarrow> 1000 * sum_list (map snd (sleeps_of (rs_log ?s') @ sl)) < maximum_total_ms (rc_config c)"
        by blast
      with bud log(4) again(2) show ?thesis
        by (intro exI [of _ "(rs_ticks s5, ?d) # sl"]) (cases "sl = []"; simp add: algebra_simps)
    qed (use log in auto)
  qed auto
qed

lemma run_budget:
  assumes "mono (rc_clock c)" "sleeps_last c (sleeps_of (rs_log (snd (run_with_retries c b))))"
    and "sleeps_of (rs_log (snd (run_with_retries c b))) \<noteq> []"
  shows "1000 * sum_list (map snd (sleeps_of (rs_log (snd (run_with_retries c b))))) < maximum_total_ms (rc_config c)"
proof -
  let ?s = "\<lparr>rs_ticks = Suc 0, rs_breaker = b, rs_log = []\<rparr>"
  have run: "run_with_retries c b = retry_loop c (rc_clock c 0) 0 ?s"
    by (simp add: run_with_retries_def monotonic_def)
  have "rc_clock c 0 \<le> rc_clock c (Suc 0)" using assms(1) by (simp add: monoD)
  then show ?thesis using retry_loop_budget [of c "rc_clock c 0" 0 ?s] assms run by auto
qed

lemma run_deadline:
  assumes "rc_deadline c = Some dl" "(t, d) \<in> set (sleeps_of (rs_log (snd (run_with_retries c b))))"
  shows "2 \<le> t \<and> rc_clock c (t - 2) + d < dl"
  using assms retry_loop_deadline [of c dl t d "rc_clock c 0" 0 "\<lparr>rs_ticks = Suc 0, rs_breaker = b, rs_log = []\<rparr>"]
  by (auto simp: run_with_retries_def monotonic_def)

subsection \<open>A breaker that refuses\<close>

lemma run_blocked:
  assumes "\<not> fst (allow (rc_clock c 1) b)"
  shows "fst (run_with_retries c (Some b)) = Inl (DbErr (circuit_open_error c))"
    and "attempts_of (rs_log (snd (run_with_retries c (Some b)))) = []"
    and "rs_breaker (snd (run_with_retries c (Some b))) = Some (state (rc_clock c 1) (snd (allow (rc_clock c 1) b)))"
  using assms
  by (simp_all add: run_with_retries_def retry_loop.simps retry_defs case_prod_beta)

text \<open>An attempt whose outcome the breaker does not count leaves the slot it took.\<close>

lemma run_foreign:
  assumes "fst (allow (rc_clock c 1) b)" "rc_op c 1 = Inl (Foreign e)"
  shows "run_with_retries c (Some b) =
    (Inl (Foreign e), \<lparr>rs_ticks = 2, rs_breaker = Some (state (rc_clock c 1) (snd (allow (rc_clock c 1) b))),
       rs_log = [EGauge (circuit_state_value (br_state (state (rc_clock c 1) (snd (allow (rc_clock c 1) b))))), EAttempt 1]\<rparr>)"
  using assms
  by (simp add: run_with_retries_def retry_loop.simps retry_defs case_prod_beta)


subsection \<open>Sequences of calls on one breaker\<close>

fun run_calls :: "'a retry_call list \<Rightarrow> breaker option \<Rightarrow> 'a py list \<times> breaker option" where
  "run_calls [] b = ([], b)"
| "run_calls (c # cs) b =
     (case run_with_retries c b of (r, s) \<Rightarrow>
      case run_calls cs (rs_breaker s) of (rs, b') \<Rightarrow> (r # rs, b'))"

lemma exhausted_calls:
  "exhausted b \<Longrightarrow> run_calls cs (Some b) = (map (\<lambda>c. Inl (DbErr (circuit_open_error c))) cs, Some b)"
proof (induction cs)
  case (Cons c cs)
  have no: "allow t b = (False, b)" for t by (rule allow_exhausted [OF Cons.prems])
  have st: "state t b = b" for t using Cons.prems by (simp add: exhausted_def state_def)
  have "fst (run_with_retries c (Some b)) = Inl (DbErr (circuit_open_error c))"
    "rs_breaker (snd (run_with_retries c (Some b))) = Some b"
    using run_blocked [of c b] no st by simp_all
  with Cons show ?case by (cases "run_with_retries c (Some b)") simp
qed simp

text \<open>A call whose first attempt ends in a foreign exception (a cancellation, or an exception of the
  caller's own code) uses up a half-open slot for good.\<close>

lemma foreign_trial:
  assumes "br_state b = HALF_OPEN" "br_half_open_calls b < half_open_max_calls b" "rc_op c 1 = Inl (Foreign e)"
  shows "rs_breaker (snd (run_with_retries c (Some b))) = Some (b\<lparr>br_half_open_calls := br_half_open_calls b + 1\<rparr>)"
  using assms run_foreign [of c b e] by (simp add: allow_def state_def)

lemma foreign_trials_exhaust:
  assumes "br_state b = HALF_OPEN" "br_half_open_calls b \<le> half_open_max_calls b"
    and "half_open_max_calls b \<le> br_half_open_calls b + int (length cs)"
    and "\<forall>c \<in> set cs. \<exists>e. rc_op c 1 = Inl (Foreign e)"
  shows "\<exists>b'. snd (run_calls cs (Some b)) = Some b' \<and> exhausted b'"
  using assms
proof (induction cs arbitrary: b)
  case Nil
  then show ?case by (simp add: exhausted_def)
next
  case (Cons c cs)
  show ?case
  proof (cases "exhausted b")
    case True
    then show ?thesis using exhausted_calls [of b "c # cs"] by simp
  next
    case False
    with Cons.prems have lt: "br_half_open_calls b < half_open_max_calls b" by (simp add: exhausted_def)
    obtain e where "rc_op c 1 = Inl (Foreign e)" using Cons.prems(4) by auto
    from foreign_trial [OF Cons.prems(1) lt this] show ?thesis
      using Cons.IH [of "b\<lparr>br_half_open_calls := br_half_open_calls b + 1\<rparr>"] Cons.prems lt
      by (cases "run_with_retries c (Some b)") (auto split: prod.split)
  qed
qed

subsection \<open>Properties\<close>

text \<open>A concrete call for the witnesses: attempt 1 fails with a retryable error, attempt 2 returns.\<close>

definition sample_call :: "(int \<Rightarrow> nat py) \<Rightarrow> query option \<Rightarrow> nat retry_call" where
  "sample_call op q =
     \<lparr>rc_op = op, rc_query = q, rc_config = default_retry, rc_override = None, rc_deadline = Some 5,
      rc_labels = no_context, rc_clock = (\<lambda>t. real t / 10), rc_random = (\<lambda>_. 1)\<rparr>"

lemma sample_call_simps [simp]:
  "rc_op (sample_call op q) = op" "rc_query (sample_call op q) = q"
  "rc_config (sample_call op q) = default_retry" "rc_override (sample_call op q) = None"
  "rc_deadline (sample_call op q) = Some 5" "rc_clock (sample_call op q) = (\<lambda>t. real t / 10)"
  "rc_random (sample_call op q) = (\<lambda>_. 1)"
  by (simp_all add: sample_call_def)

definition flaky :: "int \<Rightarrow> nat py" where
  "flaky n = (if n = 1 then raise_db DatabaseConnectionError ''reset'' else Inr 7)"

lemma flaky_sleeps: "sleeps_of (rs_log (snd (run_with_retries (sample_call flaky None) None))) = [(4, 1 / 50)]"
  by (simp add: run_with_retries_def retry_loop.simps [of _ _ 0] retry_loop.simps [of _ _ 1] retry_defs
      flaky_def raise_db_def new_error_state_unknown retries_def should_retry_iff default_retry_def
      query_is_write_def retry_delay_def backoff_delay_ms_def class_retryable_def)

definition lost_commit :: "int \<Rightarrow> nat py" where
  "lost_commit n = (if n = 1 then raise_db DatabaseCommitUnknownError ''lost'' else Inr 7)"

definition interrupted :: "int \<Rightarrow> nat py" where
  "interrupted n = Inl (Foreign (plain_exn [CCancelledError] ''cancelled''))"

definition sample_write :: query where
  "sample_write = \<lparr>q_name = ''w'', q_statement = TextClause ''UPDATE t SET a = 1'', q_operation = OpWrite,
     q_timeout = None, q_idempotent = False, q_expensive = False, q_sensitive_parameters = [], q_settings = None\<rparr>"


text \<open>A write is attempted at most once unless the configuration opts in to retrying writes and
  the write is idempotent.\<close>

theorem unsafe_write_once:
  assumes "query_is_write (rc_query c)"
    and "\<not> retry_writes (rc_config c) \<or> \<not> is_idempotent (rc_query c) (rc_override c)"
  shows "length (attempts_of (rs_log (snd (run_with_retries c b)))) \<le> 1"
proof -
  obtain k where "attempts_of (rs_log (snd (run_with_retries c b))) = map (\<lambda>i. 1 + int i) [0..<k]"
    "legal c 0 k (fst (run_with_retries c b))"
    using run_legal by blast
  with legal_unsafe_write [OF _ assms, of 0 k] show ?thesis by auto
qed

lemma unsafe_write_once_witness:
  "length (attempts_of (rs_log (snd (run_with_retries (sample_call flaky (Some sample_write)) None)))) \<le> 1"
  by (rule unsafe_write_once)
    (simp_all add: sample_call_def sample_write_def query_is_write_def is_write_def default_retry_def)

text \<open>C13. An attempt whose commit outcome is unknown is the last one: the call ends with that very
  error and the operation is not run again.\<close>

theorem commit_unknown_is_final:
  assumes "i \<in> set (attempts_of (rs_log (snd (run_with_retries c b))))"
    and "rc_op c i = Inl (DbErr err)" "err_transaction_state_unknown err"
  shows "fst (run_with_retries c b) = Inl (DbErr err)
    \<and> i = List.last (attempts_of (rs_log (snd (run_with_retries c b))))"
proof -
  obtain k where k: "attempts_of (rs_log (snd (run_with_retries c b))) = map (\<lambda>i. 1 + int i) [0..<k]"
    "legal c 0 k (fst (run_with_retries c b))"
    using run_legal by blast
  with assms have "1 \<le> i" "i \<le> int k" by auto
  with legal_unknown_last [OF k(2), of i err] assms(2,3) k(1) show ?thesis
    by (cases k) auto
qed

lemma commit_unknown_is_final_witness:
  "fst (run_with_retries (sample_call lost_commit None) None) =
     Inl (DbErr (new_error DatabaseCommitUnknownError ''lost'' no_kwargs))
   \<and> 1 = List.last (attempts_of (rs_log (snd (run_with_retries (sample_call lost_commit None) None))))"
  by (rule commit_unknown_is_final)
    (simp_all add: run_with_retries_def retry_loop.simps [of _ _ 0] retry_defs
      lost_commit_def raise_db_def new_error_state_unknown retries_def should_retry_iff)

text \<open>The retry budget: when a sleep lasts at least its delay and the clock does not go back, the
  backoff delays of one call sum up to less than \<open>maximum_total_ms\<close>, whatever the number of attempts
  and whatever the deadline.\<close>

theorem retry_budget:
  assumes "mono (rc_clock c)"
    and "sleeps_last c (sleeps_of (rs_log (snd (run_with_retries c b))))"
    and "sleeps_of (rs_log (snd (run_with_retries c b))) \<noteq> []"
  shows "1000 * sum_list (map snd (sleeps_of (rs_log (snd (run_with_retries c b)))))
    < maximum_total_ms (rc_config c)"
  using assms by (rule run_budget)

lemma retry_budget_witness:
  "1000 * sum_list (map snd (sleeps_of (rs_log (snd (run_with_retries (sample_call flaky None) None))))) < 750"
  using retry_budget [of "sample_call flaky None" None]
  by (simp add: flaky_sleeps sleeps_last_def mono_def default_retry_def)

text \<open>The deadline: every backoff that is slept was planned, on the clock reading taken for it, to
  end before the caller's deadline.\<close>

theorem retry_deadline:
  assumes "rc_deadline c = Some dl" "(t, d) \<in> set (sleeps_of (rs_log (snd (run_with_retries c b))))"
  shows "2 \<le> t \<and> rc_clock c (t - 2) + d < dl"
  using assms by (rule run_deadline)

lemma retry_deadline_witness: "2 \<le> (4 :: nat) \<and> rc_clock (sample_call flaky None) (4 - 2) + 1 / 50 < 5"
  by (rule retry_deadline [of _ _ _ _ None]) (simp_all add: flaky_sleeps)

text \<open>A breaker that refuses: the call fails with the circuit-open error, the operation is not run,
  and the caller learns the database, the role and the query.\<close>

theorem open_breaker_blocks:
  assumes "br_state b = OPEN" "rc_clock c 1 - br_opened_at b < open_seconds b"
  shows "fst (run_with_retries c (Some b)) = Inl (DbErr (circuit_open_error c))
    \<and> attempts_of (rs_log (snd (run_with_retries c (Some b)))) = []
    \<and> rs_breaker (snd (run_with_retries c (Some b))) = Some b"
proof -
  have "allow (rc_clock c 1) b = (False, b)" using assms by (rule allow_open)
  moreover have "state (rc_clock c 1) b = b" using assms by (simp add: state_def)
  ultimately show ?thesis using run_blocked [of c b] by simp
qed

lemma open_breaker_blocks_witness:
  "fst (run_with_retries (sample_call flaky None) (Some (open_breaker 0 (new_breaker 1 30 10 1))))
     = Inl (DbErr (circuit_open_error (sample_call flaky None)))
   \<and> attempts_of (rs_log (snd (run_with_retries (sample_call flaky None)
        (Some (open_breaker 0 (new_breaker 1 30 10 1)))))) = []
   \<and> rs_breaker (snd (run_with_retries (sample_call flaky None) (Some (open_breaker 0 (new_breaker 1 30 10 1)))))
       = Some (open_breaker 0 (new_breaker 1 30 10 1))"
  by (rule open_breaker_blocks) (simp_all add: open_breaker_def new_breaker_def sample_call_def)

text \<open>Half-open slots leak: once as many half-open trials as there are slots left have ended in an
  exception the loop does not report to the breaker (a cancellation, or an exception that is not a
  database error), every later call is refused, at every time, without its operation being run.\<close>

theorem half_open_slots_leak:
  assumes "br_state b = HALF_OPEN" "br_half_open_calls b \<le> half_open_max_calls b"
    and "half_open_max_calls b \<le> br_half_open_calls b + int (length cs)"
    and "\<forall>c \<in> set cs. \<exists>e. rc_op c 1 = Inl (Foreign e)"
  shows "fst (run_calls ds (snd (run_calls cs (Some b)))) = map (\<lambda>c. Inl (DbErr (circuit_open_error c))) ds"
proof -
  obtain b' where "snd (run_calls cs (Some b)) = Some b'" "exhausted b'"
    using foreign_trials_exhaust [OF assms] by blast
  then show ?thesis by (simp add: exhausted_calls)
qed

lemma half_open_slots_leak_witness:
  "fst (run_calls [sample_call flaky None, sample_call flaky None]
      (snd (run_calls [sample_call interrupted None] (Some (state 20 (open_breaker 0 (new_breaker 1 30 10 1)))))))
   = map (\<lambda>c. Inl (DbErr (circuit_open_error c))) [sample_call flaky None, sample_call flaky None]"
  by (rule half_open_slots_leak)
    (simp_all add: open_breaker_def new_breaker_def state_def sample_call_def interrupted_def)

end
