(* ===== verification/Conversions.thy ===== *)
theory Conversions
  imports Errors
begin

text \<open>
  The conversions of Python values that the program relies on: truth, \<^verbatim>\<open>int\<close>,
  \<^verbatim>\<open>float\<close>, \<^verbatim>\<open>in\<close>, iteration and \<^verbatim>\<open>Mapping.get\<close>, with the exceptions each
  raises on a value of another type.
\<close>

definition py_raise :: "py_class \<Rightarrow> string \<Rightarrow> 'a py" where
  "py_raise c msg = Inl (Foreign (plain_exn [CException, c] msg))"

definition truthy :: "pyval \<Rightarrow> bool" where
  "truthy v = (case v of PNone \<Rightarrow> False | PBool b \<Rightarrow> b | PInt i \<Rightarrow> i \<noteq> 0 | PFloat x \<Rightarrow> x \<noteq> 0
     | PStr s \<Rightarrow> s \<noteq> [] | PBytes bs \<Rightarrow> bs \<noteq> [] | PList xs \<Rightarrow> xs \<noteq> [] | PDict d \<Rightarrow> d \<noteq> [])"

text \<open>\<^verbatim>\<open>int(value)\<close>\<close>

definition int_of_text :: "string \<Rightarrow> int py" where
  "int_of_text s =
     (case int_literal s of
        Some i \<Rightarrow> Inr i
      | None \<Rightarrow> py_raise CValueError (''invalid literal for int() with base 10: '' @ quoted s))"

definition int_of_value :: "pyval \<Rightarrow> int py" where
  "int_of_value v =
     (case v of
        PInt i \<Rightarrow> Inr i
      | PBool b \<Rightarrow> Inr (if b then 1 else 0)
      | PFloat r \<Rightarrow> Inr (if r < 0 then \<lceil>r\<rceil> else \<lfloor>r\<rfloor>)
      | PStr s \<Rightarrow> int_of_text s
      | PBytes bs \<Rightarrow> int_of_text (map char_of bs)
      | _ \<Rightarrow> py_raise CTypeError ''int() argument must be a string, a bytes-like object or a real number'')"

text \<open>\<^verbatim>\<open>float(value)\<close>: \<open>read_float\<close> reads a decimal text that denotes a finite number.\<close>

definition float_of_value :: "(string \<Rightarrow> real option) \<Rightarrow> pyval \<Rightarrow> real py" where
  "float_of_value read_float v =
     (case v of
        PFloat r \<Rightarrow> Inr r
      | PInt i \<Rightarrow> Inr (of_int i)
      | PBool b \<Rightarrow> Inr (if b then 1 else 0)
      | PStr s \<Rightarrow>
          (case read_float s of
             Some r \<Rightarrow> Inr r
           | None \<Rightarrow> py_raise CValueError (''could not convert string to float: '' @ quoted s))
      | PBytes bs \<Rightarrow>
          (case read_float (map char_of bs) of
             Some r \<Rightarrow> Inr r
           | None \<Rightarrow> py_raise CValueError ''could not convert string to float'')
      | _ \<Rightarrow> py_raise CTypeError ''float() argument must be a string or a real number'')"

text \<open>\<^verbatim>\<open>data.get(key, default)\<close>: only a mapping has it.\<close>

definition get_or :: "pyval \<Rightarrow> string \<Rightarrow> pyval \<Rightarrow> pyval py" where
  "get_or data key d =
     (case data of
        PDict items \<Rightarrow> Inr (case dict_get items key of Some v \<Rightarrow> v | None \<Rightarrow> d)
      | _ \<Rightarrow> py_raise CAttributeError (''object has no attribute '' @ quoted ''get''))"

text \<open>\<^verbatim>\<open>data.items()\<close>\<close>

definition items_of :: "pyval \<Rightarrow> (string \<times> pyval) list py" where
  "items_of data =
     (case data of
        PDict items \<Rightarrow> Inr items
      | _ \<Rightarrow> py_raise CAttributeError (''object has no attribute '' @ quoted ''items''))"

text \<open>\<^verbatim>\<open>key in data\<close>\<close>

fun contains_text :: "string \<Rightarrow> string \<Rightarrow> bool" where
  "contains_text key [] = (key = [])"
| "contains_text key (c # cs) = (take (length key) (c # cs) = key \<or> contains_text key cs)"

definition py_in :: "string \<Rightarrow> pyval \<Rightarrow> bool py" where
  "py_in key data =
     (case data of
        PDict items \<Rightarrow> Inr (dict_get items key \<noteq> None)
      | PStr s \<Rightarrow> Inr (contains_text key s)
      | PList xs \<Rightarrow> Inr (PStr key \<in> set xs)
      | _ \<Rightarrow> py_raise CTypeError ''argument is not iterable'')"

text \<open>\<^verbatim>\<open>data[key]\<close> for a text key.\<close>

definition py_index :: "pyval \<Rightarrow> string \<Rightarrow> pyval py" where
  "py_index data key =
     (case data of
        PDict items \<Rightarrow>
          (case dict_get items key of Some v \<Rightarrow> Inr v | None \<Rightarrow> py_raise CKeyError key)
      | _ \<Rightarrow> py_raise CTypeError ''indices must be integers'')"

text \<open>The values a \<^verbatim>\<open>for\<close> loop sees.\<close>

definition iter_values :: "pyval \<Rightarrow> pyval list py" where
  "iter_values data =
     (case data of
        PList xs \<Rightarrow> Inr xs
      | PDict items \<Rightarrow> Inr (map (\<lambda>(k, _). PStr k) items)
      | PStr s \<Rightarrow> Inr (map (\<lambda>c. PStr [c]) s)
      | PBytes bs \<Rightarrow> Inr (map (\<lambda>b. PInt (int b)) bs)
      | _ \<Rightarrow> py_raise CTypeError ''object is not iterable'')"

end
