(* ===== verification/Effects.thy ===== *)
theory Effects
  imports Classifier Query Conversions
begin

text \<open>
  Programs that talk to the driver. SQLAlchemy, the DBAPI driver and the event loop are not part of
  the repository: they are the environment \<open>env\<close>, an argument of every program, whose answer to a
  call may depend on everything that happened before (\<open>env_answer\<close> of the trace so far and the call).
  A program maps the trace so far to its outcome and the longer trace, so which calls are issued, in
  which order, and what happens after each failure, is what the definitions say.

  \<^item> \<open>perform\<close> issues a call and yields the environment's answer, a value or an exception;
  \<^item> \<open>emit\<close> records a metric or a log event, which cannot fail;
  \<^item> \<open>now\<close> reads the clock;
  \<^item> \<open>try_except\<close>, \<open>try_finally\<close> and \<open>suppress\<close> are the Python statements of these names
    (\<open>suppress\<close> is \<^verbatim>\<open>contextlib.suppress(Exception)\<close>: a cancellation passes);
  \<^item> \<open>shield\<close> and \<open>timeout_scope\<close> are those of the two \<^verbatim>\<open>_compat.py\<close> files, \<open>env_async\<close>
    choosing the frontend.
\<close>

datatype effect =
    DConnect
  | DSetOptions "(string \<times> pyval) list"
  | DBegin
  | DTransCommit
  | DTransRollback
  | DBeginNested
  | DNestedCommit
  | DNestedRollback
  | DConnCommit
  | DConnRollback
  | DExecute statement_obj pyval
  | DCursor string
  | DDriverConn string
  | DInvalidate
  | DClose
  | DTag string
  | DShield
  | DEnterTimeout real
  | DExitTimeout
  | DAcquire string "real option"
  | DRelease string
  | DSleep real
  | DClock
  | MIncr string real "(string \<times> string) list"
  | MObserve string real "(string \<times> string) list"
  | LSlowQuery string real
  | LLongTransaction real string
  | LRowsDropped string int
  | LCount int
  | DCall string pyval
  | TSpanEnter string
  | TSpanExit

record env =
  env_answer :: "effect list \<Rightarrow> effect \<Rightarrow> pyval py"
  env_clock :: "effect list \<Rightarrow> real"
  env_async :: bool

type_synonym 'a io = "effect list \<Rightarrow> 'a py \<times> effect list"

definition io_return :: "'a \<Rightarrow> 'a io" where
  "io_return x tr = (Inr x, tr)"

definition io_raise :: "raised \<Rightarrow> 'a io" where
  "io_raise e tr = (Inl e, tr)"

definition io_of :: "'a py \<Rightarrow> 'a io" where
  "io_of r tr = (r, tr)"

definition io_bind :: "'a io \<Rightarrow> ('a \<Rightarrow> 'b io) \<Rightarrow> 'b io" where
  "io_bind m f tr = (case m tr of (Inl e, tr') \<Rightarrow> (Inl e, tr') | (Inr x, tr') \<Rightarrow> f x tr')"

definition io_then :: "'a io \<Rightarrow> 'b io \<Rightarrow> 'b io" where
  "io_then m k = io_bind m (\<lambda>_. k)"

definition perform :: "env \<Rightarrow> effect \<Rightarrow> pyval io" where
  "perform w e tr = (env_answer w tr e, tr @ [e])"

definition emit :: "effect \<Rightarrow> unit io" where
  "emit e tr = (Inr (), tr @ [e])"

definition now :: "env \<Rightarrow> real io" where
  "now w tr = (Inr (env_clock w tr), tr @ [DClock])"

definition try_except :: "'a io \<Rightarrow> (raised \<Rightarrow> 'a io) \<Rightarrow> 'a io" where
  "try_except m h tr = (case m tr of (Inl e, tr') \<Rightarrow> h e tr' | (Inr x, tr') \<Rightarrow> (Inr x, tr'))"

text \<open>\<^verbatim>\<open>except Exception\<close>: anything else passes.\<close>

definition except_exception :: "'a io \<Rightarrow> (raised \<Rightarrow> 'a io) \<Rightarrow> 'a io" where
  "except_exception m h = try_except m (\<lambda>e. if is_exception e then h e else io_raise e)"

definition suppress :: "'a io \<Rightarrow> unit io" where
  "suppress m = except_exception (io_then m (io_return ())) (\<lambda>_. io_return ())"

text \<open>An exception of the final block replaces the outcome.\<close>

definition try_finally :: "'a io \<Rightarrow> unit io \<Rightarrow> 'a io" where
  "try_finally m f tr =
     (case m tr of (r, tr1) \<Rightarrow>
        (case f tr1 of (Inl e, tr2) \<Rightarrow> (Inl e, tr2) | (Inr _, tr2) \<Rightarrow> (r, tr2)))"

fun io_each :: "('a \<Rightarrow> unit io) \<Rightarrow> 'a list \<Rightarrow> unit io" where
  "io_each f [] = io_return ()"
| "io_each f (x # xs) = io_then (f x) (io_each f xs)"

subsection \<open>The two frontends\<close>

definition is_cancellation :: "env \<Rightarrow> raised \<Rightarrow> bool" where
  "is_cancellation w e \<longleftrightarrow> env_async w \<and> raised_isa e CCancelledError"

text \<open>
  \<^verbatim>\<open>asyncio.timeout\<close>: on leaving with a cancellation the scope asks whether it was its own
  deadline that expired (the environment's answer), and then raises \<^verbatim>\<open>TimeoutError\<close> instead.
\<close>

definition timeout_scope :: "env \<Rightarrow> real option \<Rightarrow> 'a io \<Rightarrow> 'a io" where
  "timeout_scope w seconds m =
     (case seconds of
        None \<Rightarrow> m
      | Some t \<Rightarrow>
          if \<not> env_async w \<or> t \<le> 0 then m
          else io_then (emit (DEnterTimeout t))
            (try_except m (\<lambda>e.
               if raised_isa e CCancelledError then
                 io_bind (perform w DExitTimeout) (\<lambda>expired.
                   if expired = PBool True
                   then io_raise (Foreign (plain_exn [CException, CTimeoutError, COSError] ''''))
                   else io_raise e)
               else io_raise e)))"

text \<open>The shielded cleanup runs to its end; a cancellation that arrives meanwhile is delivered
  afterwards.\<close>

definition shield :: "env \<Rightarrow> 'a io \<Rightarrow> 'a io" where
  "shield w m =
     (if env_async w then try_finally m (io_then (perform w DShield) (io_return ())) else m)"

text \<open>A limiter slot: the environment decides whether one frees up in time.\<close>

definition semaphore_acquire :: "env \<Rightarrow> string \<Rightarrow> real option \<Rightarrow> bool io" where
  "semaphore_acquire w tier timeout =
     io_bind (perform w (DAcquire tier timeout)) (\<lambda>v. io_return (v = PBool True))"

definition sleep :: "env \<Rightarrow> real \<Rightarrow> unit io" where
  "sleep w seconds = io_then (perform w (DSleep seconds)) (io_return ())"

definition API_LABEL :: "env \<Rightarrow> string" where
  "API_LABEL w = (if env_async w then ''async'' else ''sync'')"

text \<open>An exception as dbkit sees it when it is attached as \<^verbatim>\<open>original\<close>.\<close>

definition as_exn :: "raised \<Rightarrow> py_exn" where
  "as_exn r =
     (case r of
        Foreign x \<Rightarrow> x
      | DbErr e \<Rightarrow> PyExn [CException] (err_message e) None
          (case err_sqlstate e of Some s \<Rightarrow> AttrStr s | None \<Rightarrow> AttrOther) NoAttr NoDiag False)"

subsection \<open>Running programs\<close>

named_theorems io_defs \<open>definitions of the program combinators\<close>

lemmas io_combinators [io_defs] =
  io_return_def io_raise_def io_of_def io_bind_def io_then_def perform_def emit_def now_def
  try_except_def except_exception_def suppress_def try_finally_def

lemma io_bind_assoc: "io_bind (io_bind m f) g = io_bind m (\<lambda>x. io_bind (f x) g)"
  by (auto simp: io_bind_def fun_eq_iff split: prod.split sum.split)

lemma io_return_bind [simp]: "io_bind (io_return x) f = f x"
  by (simp add: io_bind_def io_return_def fun_eq_iff)

lemma io_of_bind [simp]: "io_bind (io_of (Inr x)) f = f x" "io_bind (io_of (Inl e)) f = io_raise e"
  by (simp_all add: io_bind_def io_of_def io_raise_def fun_eq_iff)

lemma run_emit: "io_then (emit e) k tr = k (tr @ [e])"
  by (simp add: io_then_def io_bind_def emit_def)

lemma run_bind: "m tr = (r, tr') \<Longrightarrow> io_bind m f tr = (case r of Inl e \<Rightarrow> (Inl e, tr') | Inr x \<Rightarrow> f x tr')"
  by (simp add: io_bind_def)

lemma io_raise_bind [simp]: "io_bind (io_raise e) f = io_raise e"
  by (simp add: io_bind_def io_raise_def fun_eq_iff)

text \<open>The calls that open, end and give back a connection or a transaction.\<close>

fun lifecycle :: "effect \<Rightarrow> bool" where
  "lifecycle DConnect = True"
| "lifecycle (DSetOptions _) = True"
| "lifecycle DBegin = True"
| "lifecycle DTransCommit = True"
| "lifecycle DTransRollback = True"
| "lifecycle DConnCommit = True"
| "lifecycle DConnRollback = True"
| "lifecycle DInvalidate = True"
| "lifecycle DClose = True"
| "lifecycle _ = False"

definition life :: "effect list \<Rightarrow> effect list" where
  "life tr = filter lifecycle tr"

lemma life_append [simp]: "life (xs @ ys) = life xs @ life ys"
  by (simp add: life_def)

lemma life_Nil [simp]: "life [] = []"
  by (simp add: life_def)

lemma life_Cons [simp]: "life (e # tr) = (if lifecycle e then e # life tr else life tr)"
  by (simp add: life_def)

text \<open>
  \<open>keeps obs m\<close>: whatever the program \<open>m\<close> does, the observation \<open>obs\<close> of the trace is the same
  afterwards. The rules go by the structure of the program; only a single call needs to be looked at.
\<close>

definition keeps :: "(effect list \<Rightarrow> 'o) \<Rightarrow> 'a io \<Rightarrow> bool" where
  "keeps obs m \<longleftrightarrow> (\<forall>tr. obs (snd (m tr)) = obs tr)"

text \<open>A quiet program leaves the connection's life cycle alone: this is what a transaction relies on of
  its body.\<close>

abbreviation quiet :: "'a io \<Rightarrow> bool" where
  "quiet m \<equiv> keeps life m"

named_theorems quiet_intros \<open>programs that keep an observation of the trace\<close>

lemma keepsD: "keeps obs m \<Longrightarrow> obs (snd (m tr)) = obs tr"
  by (simp add: keeps_def)

lemma keeps_return [quiet_intros]: "keeps obs (io_return x)"
  by (simp add: keeps_def io_defs)

lemma keeps_raise [quiet_intros]: "keeps obs (io_raise e)"
  by (simp add: keeps_def io_defs)

lemma keeps_of [quiet_intros]: "keeps obs (io_of r)"
  by (simp add: keeps_def io_defs)

lemma keeps_bind [quiet_intros]: "keeps obs m \<Longrightarrow> (\<And>x. keeps obs (f x)) \<Longrightarrow> keeps obs (io_bind m f)"
  by (auto simp: keeps_def io_bind_def split: prod.split sum.split) (metis snd_conv)+

lemma keeps_then [quiet_intros]: "keeps obs m \<Longrightarrow> keeps obs k \<Longrightarrow> keeps obs (io_then m k)"
  by (simp add: io_then_def keeps_bind)

lemma keeps_perform [quiet_intros]: "(\<And>tr. obs (tr @ [e]) = obs tr) \<Longrightarrow> keeps obs (perform w e)"
  by (simp add: keeps_def io_defs)

lemma keeps_emit [quiet_intros]: "(\<And>tr. obs (tr @ [e]) = obs tr) \<Longrightarrow> keeps obs (emit e)"
  by (simp add: keeps_def io_defs)

lemma keeps_now [quiet_intros]: "(\<And>tr. obs (tr @ [DClock]) = obs tr) \<Longrightarrow> keeps obs (now w)"
  by (simp add: keeps_def io_defs)

lemma keeps_try_except [quiet_intros]:
  "keeps obs m \<Longrightarrow> (\<And>e. keeps obs (h e)) \<Longrightarrow> keeps obs (try_except m h)"
  by (auto simp: keeps_def try_except_def split: prod.split sum.split) (metis snd_conv)+

lemma keeps_except_exception [quiet_intros]:
  "keeps obs m \<Longrightarrow> (\<And>e. keeps obs (h e)) \<Longrightarrow> keeps obs (except_exception m h)"
  by (simp add: except_exception_def keeps_try_except keeps_raise)

lemma keeps_suppress [quiet_intros]: "keeps obs m \<Longrightarrow> keeps obs (suppress m)"
  by (auto simp: suppress_def intro!: quiet_intros)

lemma keeps_try_finally [quiet_intros]: "keeps obs m \<Longrightarrow> keeps obs f \<Longrightarrow> keeps obs (try_finally m f)"
  by (auto simp: keeps_def try_finally_def split: prod.split sum.split) (metis snd_conv)+

lemma keeps_timeout_scope [quiet_intros]:
  "(\<And>tr t. obs (tr @ [DEnterTimeout t]) = obs tr) \<Longrightarrow> (\<And>tr. obs (tr @ [DExitTimeout]) = obs tr) \<Longrightarrow>
     keeps obs m \<Longrightarrow> keeps obs (timeout_scope w s m)"
  by (auto simp: timeout_scope_def intro!: quiet_intros split: option.split)

lemma keeps_each [quiet_intros]: "(\<And>x. x \<in> set xs \<Longrightarrow> keeps obs (f x)) \<Longrightarrow> keeps obs (io_each f xs)"
  by (induction xs) (auto intro!: quiet_intros)

subsection \<open>Programs that succeed\<close>

text \<open>An environment that never fails.\<close>

definition all_ok :: "env \<Rightarrow> bool" where
  "all_ok w \<longleftrightarrow> (\<forall>tr e. \<exists>v. env_answer w tr e = Inr v)"

definition succeeds :: "'a io \<Rightarrow> bool" where
  "succeeds m \<longleftrightarrow> (\<forall>tr. \<exists>x. fst (m tr) = Inr x)"

lemma succeeds_bind: "succeeds m \<Longrightarrow> (\<And>x. succeeds (f x)) \<Longrightarrow> succeeds (io_bind m f)"
  unfolding succeeds_def io_bind_def by (metis (no_types, lifting) old.sum.simps(6) prod.collapse prod.simps(2))

lemma succeeds_basic:
  "succeeds (io_return x)" "succeeds (emit e)" "succeeds (now w)" "all_ok w \<Longrightarrow> succeeds (perform w e)"
  by (simp_all add: succeeds_def io_defs all_ok_def)

lemma succeeds_then: "succeeds m \<Longrightarrow> succeeds k \<Longrightarrow> succeeds (io_then m k)"
  by (simp add: io_then_def succeeds_bind)

lemma succeeds_try: "succeeds m \<Longrightarrow> succeeds (try_except m h)" "succeeds m \<Longrightarrow> succeeds (except_exception m h)"
  unfolding succeeds_def except_exception_def try_except_def
  by (metis (no_types, lifting) fst_conv old.sum.simps(6) prod.collapse prod.simps(2))+

lemma succeeds_timeout: "succeeds m \<Longrightarrow> succeeds (timeout_scope w s m)"
  by (auto simp: timeout_scope_def intro: succeeds_then succeeds_basic succeeds_try split: option.split)

subsection \<open>Limiter slots\<close>

text \<open>The slots a program holds after a trace (given backwards): an acquisition counts when the
  environment granted it.\<close>

fun held_rev :: "env \<Rightarrow> effect list \<Rightarrow> string list" where
  "held_rev w [] = []"
| "held_rev w (DAcquire t s # past) =
     (if env_answer w (rev past) (DAcquire t s) = Inr (PBool True) then t # held_rev w past else held_rev w past)"
| "held_rev w (DRelease t # past) = remove1 t (held_rev w past)"
| "held_rev w (_ # past) = held_rev w past"

definition held :: "env \<Rightarrow> effect list \<Rightarrow> string list" where
  "held w tr = held_rev w (rev tr)"

end
