(* ===== verification/Result.thy ===== *)
theory Result
  imports Effects
begin

text \<open>
  Row mappers (\<^verbatim>\<open>_core/result.py\<close>). A row mapping is a \<open>PDict\<close> with the columns in
  order. The target types are the application's: a dataclass is its name, its field names and its
  constructor, a pydantic model its name and its validator, a callable a function.
\<close>

datatype map_to =
    MapNone
  | MapDict
  | MapDataclass string "string list" "(string \<times> pyval) list \<Rightarrow> pyval py"
  | MapTypedDict
  | MapPydantic string "pyval \<Rightarrow> pyval py"
  | MapCallable "pyval \<Rightarrow> pyval py"
  | MapUnsupported string

definition mapping_error :: "string \<Rightarrow> raised \<Rightarrow> 'a py" where
  "mapping_error msg e =
     Inl (DbErr (new_error DatabaseMappingError msg (no_kwargs\<lparr>kw_original := Some (as_exn e)\<rparr>)))"

definition mapped :: "string \<Rightarrow> pyval py \<Rightarrow> pyval py" where
  "mapped what r =
     (case r of
        Inr v \<Rightarrow> Inr v
      | Inl e \<Rightarrow> if is_exception e then mapping_error (what @ exn_str (as_exn e)) e else Inl e)"

definition row_items :: "pyval \<Rightarrow> (string \<times> pyval) list" where
  "row_items row = (case row of PDict items \<Rightarrow> items | _ \<Rightarrow> [])"

definition build_mapper :: "map_to \<Rightarrow> (pyval \<Rightarrow> pyval py) py" where
  "build_mapper mt =
     (case mt of
        MapNone \<Rightarrow> Inr (\<lambda>row. Inr row)
      | MapDict \<Rightarrow> Inr (\<lambda>row. Inr (PDict (row_items row)))
      | MapDataclass name columns ctor \<Rightarrow>
          Inr (\<lambda>row. mapped (''failed to map row to '' @ name @ '': '')
                 (ctor (filter (\<lambda>(k, _). k \<in> set columns) (row_items row))))
      | MapTypedDict \<Rightarrow> Inr (\<lambda>row. Inr (PDict (row_items row)))
      | MapPydantic name validator \<Rightarrow>
          Inr (\<lambda>row. mapped (''failed to validate row into '' @ name @ '': '')
                 (validator (PDict (row_items row))))
      | MapCallable f \<Rightarrow> Inr (\<lambda>row. mapped ''custom mapper raised: '' (f row))
      | MapUnsupported repr \<Rightarrow> raise_db DatabaseMappingError (''unsupported map_to value: '' @ repr))"

definition map_rows :: "pyval list \<Rightarrow> map_to \<Rightarrow> pyval list py" where
  "map_rows rows mt = sum_bind (build_mapper mt) (\<lambda>mapper. map_sum mapper rows)"

lemma mapped_fails: "mapped what r = Inl e \<Longrightarrow>
    is_db_raise DatabaseMappingError (Inl e :: unit py) \<or> \<not> is_exception e"
  by (auto simp: mapped_def mapping_error_def is_db_raise_def split: sum.splits if_splits)

lemma map_sum_fails: "map_sum f xs = Inl e \<Longrightarrow> \<exists>x \<in> set xs. f x = Inl e"
  by (induction xs) (auto simp: sum_bind_Inl_iff)

lemma map_rows_fails:
  assumes "map_rows rows mt = Inl e" "is_exception e"
  shows "is_db_raise DatabaseMappingError (Inl e :: unit py)"
proof (cases "build_mapper mt")
  case (Inl e')
  then have "e' = e" using assms(1) by (simp add: map_rows_def)
  with Inl show ?thesis
    by (auto simp: build_mapper_def raise_db_def is_db_raise_def split: map_to.splits)
next
  case (Inr mapper)
  then obtain row where "mapper row = Inl e"
    using assms(1) by (auto simp: map_rows_def dest!: map_sum_fails)
  with Inr assms(2) show ?thesis
    by (auto simp: build_mapper_def raise_db_def dest: mapped_fails split: map_to.splits)
qed

lemma map_rows_length: "map_rows rows mt = Inr xs \<Longrightarrow> length xs = length rows"
  by (auto simp: map_rows_def sum_bind_Inr_iff dest: map_sum_length)

lemma map_rows_identity: "map_rows rows MapNone = Inr rows"
  by (induction rows) (simp_all add: map_rows_def build_mapper_def)

end
