(* ===== verification/Connection.thy ===== *)
theory Connection
  imports Result Config
begin

text \<open>
  The execution primitives and the connection scope (\<^verbatim>\<open>_async/connection.py\<close> and its
  generated twin in \<^verbatim>\<open>_sync\<close>): statement timeouts, transaction-local settings, and the
  fetch and execute family with its cardinality errors and its classification.
\<close>

subsection \<open>Statement timeout and local settings\<close>

definition timeout_ms :: "real \<Rightarrow> int" where
  "timeout_ms seconds = max \<lfloor>seconds * 1000\<rfloor> 1"

definition apply_statement_timeout_sql :: "real option \<Rightarrow> string option" where
  "apply_statement_timeout_sql seconds =
     (case seconds of
        None \<Rightarrow> None
      | Some s \<Rightarrow> if s \<le> 0 then None
                  else Some (''SET LOCAL statement_timeout = '' @ show_int (timeout_ms s)))"

definition word_char :: "char \<Rightarrow> bool" where
  "word_char c \<longleftrightarrow> alpha_char c \<or> c = CHR ''_''"

definition setting_name_ok :: "string \<Rightarrow> bool" where
  "setting_name_ok name \<longleftrightarrow>
     (case name of
        [] \<Rightarrow> False
      | c # cs \<Rightarrow> word_char c \<and> list_all (\<lambda>x. word_char x \<or> digit_char x \<or> x = CHR ''.'') cs)"

definition set_config_sql :: statement_obj where
  "set_config_sql = TextClause ''SELECT set_config(:setting_name, :setting_value, true)''"

definition apply_setting :: "env \<Rightarrow> string \<times> string \<Rightarrow> unit io" where
  "apply_setting w setting =
     (if \<not> setting_name_ok (fst setting) then
        io_of (raise_db DatabaseProgrammingError
          (''invalid setting name in Query.settings: '' @ quoted (fst setting)))
      else
        io_then (perform w (DExecute set_config_sql
            (PDict [(''setting_name'', PStr (fst setting)), (''setting_value'', PStr (snd setting))])))
          (io_return ()))"

definition apply_local_settings ::
  "env \<Rightarrow> (string, string) dict option \<Rightarrow> bool \<Rightarrow> unit io" where
  "apply_local_settings w settings is_postgres =
     (case settings of
        None \<Rightarrow> io_return ()
      | Some s \<Rightarrow>
          if s = [] then io_return ()
          else if \<not> is_postgres then
            io_of (raise_db DatabaseUnsupportedOperationError ''Query.settings requires PostgreSQL'')
          else io_each (apply_setting w) s)"

definition maybe_set_timeout :: "env \<Rightarrow> real option \<Rightarrow> bool \<Rightarrow> unit io" where
  "maybe_set_timeout w seconds is_postgres =
     (if env_async w \<or> \<not> is_postgres then io_return ()
      else
        (case apply_statement_timeout_sql seconds of
           None \<Rightarrow> io_return ()
         | Some stmt \<Rightarrow> io_then (perform w (DExecute (TextClause stmt) (PDict []))) (io_return ())))"

subsection \<open>The primitives\<close>

text \<open>\<^verbatim>\<open>params or {}\<close>\<close>

definition params_or_empty :: "pyval option \<Rightarrow> pyval" where
  "params_or_empty params =
     (case params of
        None \<Rightarrow> PDict []
      | Some p \<Rightarrow> if p = PDict [] \<or> p = PList [] then PDict [] else p)"

definition run_statement ::
  "env \<Rightarrow> statement_obj \<Rightarrow> pyval option \<Rightarrow> real option \<Rightarrow> bool \<Rightarrow> pyval io" where
  "run_statement w statement params timeout is_postgres =
     io_then (maybe_set_timeout w timeout is_postgres)
       (perform w (DExecute statement (params_or_empty params)))"

text \<open>Each primitive reads its cursor inside the timeout scope, with the accessor of its name.\<close>

definition run_cursor ::
  "string \<Rightarrow> env \<Rightarrow> statement_obj \<Rightarrow> pyval option \<Rightarrow> real option \<Rightarrow> bool \<Rightarrow> pyval io" where
  "run_cursor accessor w statement params timeout is_postgres =
     timeout_scope w timeout
       (io_then (run_statement w statement params timeout is_postgres) (perform w (DCursor accessor)))"

definition run_fetch where "run_fetch = run_cursor ''mappings.all''"
definition run_fetch_one where "run_fetch_one = run_cursor ''mappings.one''"
definition run_fetch_optional where "run_fetch_optional = run_cursor ''mappings.one_or_none''"
definition run_fetch_value where "run_fetch_value = run_cursor ''scalar_one''"
definition run_fetch_values where "run_fetch_values = run_cursor ''scalars.all''"

definition run_execute ::
  "env \<Rightarrow> statement_obj \<Rightarrow> pyval option \<Rightarrow> real option \<Rightarrow> bool \<Rightarrow> pyval io" where
  "run_execute w statement params timeout is_postgres =
     timeout_scope w timeout (run_statement w statement params timeout is_postgres)"

subsection \<open>The connection scope\<close>

record conn_scope =
  cs_is_postgres :: bool
  cs_default_timeout :: "real option"
  cs_database :: string
  cs_shard_id :: string
  cs_role :: string

record resolved_query =
  rq_statement :: statement_obj
  rq_query :: "query option"
  rq_timeout :: "real option"
  rq_name :: string

definition query_of :: "query_obj \<Rightarrow> query option" where
  "query_of q = (case q of AQuery x \<Rightarrow> Some x | AStatement _ \<Rightarrow> None)"

definition scope_resolve :: "conn_scope \<Rightarrow> query_obj \<Rightarrow> resolved_query py" where
  "scope_resolve cs query =
     sum_bind (coerce_statement query) (\<lambda>statement.
       let q = query_of query in
       Inr \<lparr>rq_statement = statement, rq_query = q,
            rq_timeout = (case q of
               Some x \<Rightarrow> (case q_timeout x of Some t \<Rightarrow> Some t | None \<Rightarrow> cs_default_timeout cs)
             | None \<Rightarrow> cs_default_timeout cs),
            rq_name = (case q of Some x \<Rightarrow> q_name x | None \<Rightarrow> ''adhoc'')\<rparr>)"

definition scope_context :: "conn_scope \<Rightarrow> string \<Rightarrow> err_context" where
  "scope_context cs name =
     \<lparr>ctx_query_name = Some name, ctx_database_name = Some (cs_database cs),
      ctx_shard_id = None, ctx_role = Some (cs_role cs)\<rparr>"

definition classified :: "conn_scope \<Rightarrow> string \<Rightarrow> raised \<Rightarrow> 'a io" where
  "classified cs name e = io_raise (DbErr (classify e (scope_context cs name)))"

definition result_error :: "conn_scope \<Rightarrow> string \<Rightarrow> string \<Rightarrow> 'a io" where
  "result_error cs name what =
     io_raise (DbErr (new_error DatabaseResultError (''query '' @ quoted name @ what)
       (no_kwargs\<lparr>kw_query_name := Some name, kw_database_name := Some (cs_database cs),
                  kw_role := Some (cs_role cs)\<rparr>)))"

definition settings_of :: "query option \<Rightarrow> (string, string) dict option" where
  "settings_of q = (case q of Some x \<Rightarrow> q_settings x | None \<Rightarrow> None)"

text \<open>The \<^verbatim>\<open>try\<close> block every operation of the scope opens with: settings, then the
  primitive, an exception handled by \<open>handler\<close> of the query's name.\<close>

definition guarded ::
  "env \<Rightarrow> conn_scope \<Rightarrow> (env \<Rightarrow> statement_obj \<Rightarrow> pyval option \<Rightarrow> real option \<Rightarrow> bool \<Rightarrow> pyval io)
     \<Rightarrow> (string \<Rightarrow> raised \<Rightarrow> pyval io) \<Rightarrow> query_obj \<Rightarrow> pyval option \<Rightarrow> pyval io" where
  "guarded w cs prim handler query params =
     io_bind (io_of (scope_resolve cs query)) (\<lambda>rq.
       except_exception
         (io_then (apply_local_settings w (settings_of (rq_query rq)) (cs_is_postgres cs))
           (prim w (rq_statement rq) params (rq_timeout rq) (cs_is_postgres cs)))
         (handler (rq_name rq)))"

definition rows_of :: "pyval \<Rightarrow> pyval list" where
  "rows_of v = (case v of PList rows \<Rightarrow> rows | _ \<Rightarrow> [])"

definition fetch_all :: "env \<Rightarrow> conn_scope \<Rightarrow> query_obj \<Rightarrow> pyval option \<Rightarrow> map_to \<Rightarrow> pyval list io" where
  "fetch_all w cs query params mt =
     io_bind (guarded w cs run_fetch (classified cs) query params) (\<lambda>rows.
       io_of (map_rows (rows_of rows) mt))"

definition cardinality_handler :: "conn_scope \<Rightarrow> string option \<Rightarrow> string \<Rightarrow> string \<Rightarrow> raised \<Rightarrow> pyval io" where
  "cardinality_handler cs none_msg many_msg name e =
     (if none_msg \<noteq> None \<and> raised_isa e CNoResultFound then result_error cs name (the none_msg)
      else if raised_isa e CMultipleResultsFound then result_error cs name many_msg
      else classified cs name e)"

definition fetch_one :: "env \<Rightarrow> conn_scope \<Rightarrow> query_obj \<Rightarrow> pyval option \<Rightarrow> map_to \<Rightarrow> pyval io" where
  "fetch_one w cs query params mt =
     io_bind (guarded w cs run_fetch_one
         (cardinality_handler cs (Some '' returned no rows, expected exactly one'')
            '' returned more than one row, expected exactly one'') query params)
       (\<lambda>row. io_of (sum_bind (build_mapper mt) (\<lambda>mapper. mapper row)))"

definition fetch_optional :: "env \<Rightarrow> conn_scope \<Rightarrow> query_obj \<Rightarrow> pyval option \<Rightarrow> map_to \<Rightarrow> pyval io" where
  "fetch_optional w cs query params mt =
     io_bind (guarded w cs run_fetch_optional
         (cardinality_handler cs None '' returned more than one row, expected at most one'') query params)
       (\<lambda>row. if row = PNone then io_return PNone
              else io_of (sum_bind (build_mapper mt) (\<lambda>mapper. mapper row)))"

definition fetch_value :: "env \<Rightarrow> conn_scope \<Rightarrow> query_obj \<Rightarrow> pyval option \<Rightarrow> pyval io" where
  "fetch_value w cs query params =
     guarded w cs run_fetch_value
       (cardinality_handler cs (Some '' returned no rows, expected a single scalar value'')
          '' returned more than one row, expected a single scalar value'') query params"

definition fetch_values :: "env \<Rightarrow> conn_scope \<Rightarrow> query_obj \<Rightarrow> pyval option \<Rightarrow> pyval list io" where
  "fetch_values w cs query params =
     io_bind (guarded w cs run_fetch_values (classified cs) query params)
       (\<lambda>v. io_return (rows_of v))"

definition execute :: "env \<Rightarrow> conn_scope \<Rightarrow> query_obj \<Rightarrow> pyval option \<Rightarrow> pyval io" where
  "execute w cs query params =
     guarded w cs (\<lambda>w st ps t pg. io_then (run_execute w st ps t pg) (perform w (DCursor ''rowcount'')))
       (classified cs) query params"

text \<open>Pipeline mode (\<^verbatim>\<open>postgres/pipeline.py\<close>): the driver connection is asked for a
  \<^verbatim>\<open>pipeline\<close> attribute, which only psycopg has.\<close>

definition pipeline_scope :: "env \<Rightarrow> 'a io \<Rightarrow> 'a io" where
  "pipeline_scope w body =
     io_bind (perform w (DDriverConn ''pipeline'')) (\<lambda>has.
       if has = PBool True then
         io_then (perform w (DDriverConn ''pipeline.enter''))
           (try_finally body (io_then (perform w (DDriverConn ''pipeline.exit'')) (io_return ())))
       else io_of (raise_db DatabaseUnsupportedOperationError
         ''pipeline mode requires the psycopg driver; this target uses a different driver''))"

subsection \<open>The operations leave the life cycle alone\<close>

lemma quiet_apply_local_settings [quiet_intros]: "quiet (apply_local_settings w s pg)"
  by (auto simp: apply_local_settings_def apply_setting_def intro!: quiet_intros split: option.split)

lemma quiet_maybe_set_timeout [quiet_intros]: "quiet (maybe_set_timeout w s pg)"
  by (auto simp: maybe_set_timeout_def intro!: quiet_intros split: option.split)

lemma quiet_run_cursor [quiet_intros]: "quiet (run_cursor acc w st ps t pg)"
  by (auto simp: run_cursor_def run_statement_def intro!: quiet_intros)

lemmas run_cursor_defs = run_fetch_def run_fetch_one_def run_fetch_optional_def run_fetch_value_def
  run_fetch_values_def

lemma quiet_run_execute [quiet_intros]: "quiet (run_execute w st ps t pg)"
  by (auto simp: run_execute_def run_statement_def intro!: quiet_intros)

lemma quiet_classified [quiet_intros]: "quiet (classified cs name e)"
  by (simp add: classified_def keeps_raise)

lemma quiet_cardinality_handler [quiet_intros]: "quiet (cardinality_handler cs a b name e)"
  by (auto simp: cardinality_handler_def result_error_def intro!: quiet_intros)

lemma quiet_guarded [quiet_intros]:
  "\<lbrakk>\<And>st ps t pg. quiet (prim w st ps t pg); \<And>n e. quiet (h n e)\<rbrakk> \<Longrightarrow> quiet (guarded w cs prim h q ps)"
  by (auto simp: guarded_def intro!: quiet_intros)

lemma quiet_fetch_all: "quiet (fetch_all w cs q ps mt)"
  by (auto simp: fetch_all_def run_cursor_defs intro!: quiet_intros)

lemma quiet_fetch_one: "quiet (fetch_one w cs q ps mt)"
  by (auto simp: fetch_one_def run_cursor_defs intro!: quiet_intros)

lemma quiet_fetch_optional: "quiet (fetch_optional w cs q ps mt)"
  by (auto simp: fetch_optional_def run_cursor_defs intro!: quiet_intros)

lemma quiet_fetch_value: "quiet (fetch_value w cs q ps)"
  by (auto simp: fetch_value_def run_cursor_defs intro!: quiet_intros)

lemma quiet_fetch_values: "quiet (fetch_values w cs q ps)"
  by (auto simp: fetch_values_def run_cursor_defs intro!: quiet_intros)

lemma quiet_execute: "quiet (execute w cs q ps)"
  by (auto simp: execute_def intro!: quiet_intros)

subsection \<open>Every failure is a normalized error\<close>

definition normalized :: "'a io \<Rightarrow> bool" where
  "normalized m \<longleftrightarrow> (\<forall>tr e. fst (m tr) = Inl e \<longrightarrow> is_exception e \<longrightarrow> (\<exists>err. e = DbErr err))"

lemma normalized_bind:
  "normalized m \<Longrightarrow> (\<And>x. normalized (f x)) \<Longrightarrow> normalized (io_bind m f)"
  by (auto simp: normalized_def io_bind_def split: prod.splits sum.splits) (metis fst_conv)+

lemma normalized_of: "(\<And>e. r = Inl e \<Longrightarrow> is_exception e \<Longrightarrow> \<exists>err. e = DbErr err) \<Longrightarrow> normalized (io_of r)"
  by (auto simp: normalized_def io_of_def)

lemma normalized_except:
  "(\<And>e. normalized (h e)) \<Longrightarrow> normalized (except_exception m h)"
  by (auto simp: normalized_def except_exception_def try_except_def io_raise_def split: prod.splits sum.splits if_splits)

lemma scope_resolve_normalized: "scope_resolve cs q = Inl e \<Longrightarrow> \<exists>err. e = DbErr err"
  by (auto simp: scope_resolve_def sum_bind_Inl_iff coerce_statement_def raise_db_def Let_def
      split: query_obj.splits statement_obj.splits)

lemma normalized_guarded: "(\<And>n e. normalized (h n e)) \<Longrightarrow> normalized (guarded w cs prim h q ps)"
  unfolding guarded_def
  by (intro normalized_bind normalized_of normalized_except) (auto dest: scope_resolve_normalized)

lemma normalized_classified: "normalized (classified cs name e)"
  by (simp add: normalized_def classified_def io_raise_def)

lemma normalized_cardinality: "normalized (cardinality_handler cs a b name e)"
  by (auto simp: normalized_def cardinality_handler_def result_error_def classified_def io_raise_def)

lemma normalized_map_rows: "map_rows rows mt = Inl e \<Longrightarrow> is_exception e \<Longrightarrow> \<exists>err. e = DbErr err"
  using map_rows_fails [of rows mt e] by (auto simp: is_db_raise_def split: raised.splits)

lemma map_one_as_rows: "sum_bind (build_mapper mt) (\<lambda>f. f row) = Inl e \<longleftrightarrow> map_rows [row] mt = Inl e"
  by (cases "build_mapper mt") (auto simp: map_rows_def sum_bind_Inl_iff)

lemma normalized_map_one: "normalized (io_of (sum_bind (build_mapper mt) (\<lambda>f. f row)))"
  by (rule normalized_of) (auto simp: map_one_as_rows dest: normalized_map_rows)

lemma normalized_return: "normalized (io_return x)"
  by (simp add: normalized_def io_return_def)

lemmas normalized_intros = normalized_bind normalized_of normalized_guarded normalized_classified
  normalized_cardinality normalized_map_one normalized_return

subsection \<open>Properties\<close>

text \<open>C38. Every exception that an operation of a connection scope raises is a normalized
  \<open>DatabaseError\<close>, whatever the driver, the row mapper or the caller's arguments raise; only what is not
  an \<^verbatim>\<open>Exception\<close> (a cancellation) passes unchanged.\<close>

theorem scope_errors_normalized:
  "normalized (fetch_all w cs q ps mt) \<and> normalized (fetch_one w cs q ps mt)
   \<and> normalized (fetch_optional w cs q ps mt) \<and> normalized (fetch_value w cs q ps)
   \<and> normalized (fetch_values w cs q ps) \<and> normalized (execute w cs q ps)"
  unfolding fetch_all_def fetch_one_def fetch_optional_def fetch_value_def fetch_values_def execute_def
  by (auto intro!: normalized_intros dest: normalized_map_rows)

definition setting_call :: "string \<times> string \<Rightarrow> effect" where
  "setting_call p = DExecute set_config_sql
     (PDict [(''setting_name'', PStr (fst p)), (''setting_value'', PStr (snd p))])"

lemma local_settings_trace:
  "\<exists>ext. snd (io_each (apply_setting w) s tr) = tr @ ext
    \<and> set ext \<subseteq> setting_call ` {p \<in> set s. setting_name_ok (fst p)}"
proof (induction s arbitrary: tr)
  case Nil
  then show ?case by (simp add: io_return_def)
next
  case (Cons p s)
  show ?case
  proof (cases "setting_name_ok (fst p)")
    case False
    then show ?thesis by (intro exI [of _ "[]"]) (simp add: apply_setting_def io_defs raise_db_def)
  next
    case ok: True
    then have one: "apply_setting w p tr = (case env_answer w tr (setting_call p) of
        Inl e \<Rightarrow> (Inl e, tr @ [setting_call p]) | Inr v \<Rightarrow> (Inr (), tr @ [setting_call p]))"
      by (simp add: apply_setting_def io_defs setting_call_def split: sum.split)
    from Cons.IH [of "tr @ [setting_call p]"] obtain ext where
      ext: "snd (io_each (apply_setting w) s (tr @ [setting_call p])) = (tr @ [setting_call p]) @ ext"
        "set ext \<subseteq> setting_call ` {p \<in> set s. setting_name_ok (fst p)}" by blast
    show ?thesis
    proof (cases "env_answer w tr (setting_call p)")
      case (Inl e)
      with ok one show ?thesis
        by (intro exI [of _ "[setting_call p]"]) (auto simp: io_then_def io_bind_def)
    next
      case (Inr v)
      with ok one ext show ?thesis
        by (intro exI [of _ "setting_call p # ext"]) (auto simp: io_then_def io_bind_def)
    qed
  qed
qed

text \<open>Query settings reach the server only as bound parameters of one fixed statement: the text that is
  executed never contains a setting's name or value, and every name that is sent is a plain identifier.\<close>

theorem settings_never_interpolated:
  "\<exists>ext. snd (apply_local_settings w settings pg tr) = tr @ ext
    \<and> set ext \<subseteq> setting_call ` {p. setting_name_ok (fst p) \<and> (\<exists>s. settings = Some s \<and> p \<in> set s)}"
proof -
  have none: "\<exists>ext. tr = tr @ ext \<and> set ext \<subseteq> A" for A :: "effect set"
    by (intro exI [of _ "[]"]) simp
  show ?thesis
  proof (cases settings)
    case None
    then show ?thesis using none by (simp add: apply_local_settings_def io_return_def)
  next
    case (Some s)
    show ?thesis
    proof (cases "s = [] \<or> \<not> pg")
      case True
      then show ?thesis
        using none by (cases "s = []") (simp_all add: Some apply_local_settings_def io_return_def io_of_def)
    next
      case False
      then show ?thesis
        using local_settings_trace [of w s tr] by (simp add: Some apply_local_settings_def conj_commute)
    qed
  qed
qed

text \<open>Statement timeouts: with a positive timeout the async frontend opens a client-side deadline and
  sends only the statement, while the sync frontend on PostgreSQL sends the statement only after a
  server-side timeout of at least one millisecond; the sync frontend on another dialect sends the
  statement with no bound at all.\<close>

theorem statement_timeout_applied:
  assumes "0 < t"
  shows "\<exists>rest. snd (run_execute w st ps (Some t) pg tr) = tr @
      (if env_async w then [DEnterTimeout t, DExecute st (params_or_empty ps)] @ rest
       else if pg then DExecute (TextClause (''SET LOCAL statement_timeout = '' @ show_int (timeout_ms t))) (PDict []) # rest
       else [DExecute st (params_or_empty ps)])
    \<and> 1 \<le> timeout_ms t \<and> real_of_int (timeout_ms t) \<le> max 1 (t * 1000)"
proof -
  have "1 \<le> timeout_ms t \<and> real_of_int (timeout_ms t) \<le> max 1 (t * 1000)"
    by (auto simp: timeout_ms_def max_def)
  then show ?thesis
    using assms
    by (auto simp: run_execute_def run_statement_def timeout_scope_def maybe_set_timeout_def
        apply_statement_timeout_sql_def io_defs split: sum.split prod.split)
qed

lemma statement_timeout_applied_witness:
  "1 \<le> timeout_ms (1 / 10000) \<and> real_of_int (timeout_ms (1 / 10000)) \<le> max 1 (1 / 10000 * 1000)"
  using statement_timeout_applied [of "1 / 10000"] by simp

end
