(* ===== verification/Transaction.thy ===== *)
theory Transaction
  imports Connection
begin

text \<open>
  Transactions (\<^verbatim>\<open>_async/transaction.py\<close> and its generated twin): the context manager's
  enter and exit, commit with its unknown outcome, rollback, release, savepoints and advisory locks.
\<close>

record tx_manager =
  tm_is_postgres :: bool
  tm_default_timeout :: "real option"
  tm_database :: string
  tm_shard_id :: string
  tm_role :: string
  tm_isolation :: "string option"
  tm_read_only :: bool
  tm_timeout :: "real option"
  tm_lock_timeout :: "real option"
  tm_query_name :: string
  tm_labels :: "(string, string) dict"
  tm_long_transaction_warning :: real
  tm_deferrable :: bool

text \<open>The constructor's defaults: the transaction timeout falls back to the default timeout, missing
  labels to the three the manager knows.\<close>

definition new_tx_manager :: "tx_manager \<Rightarrow> (string, string) dict option \<Rightarrow> tx_manager" where
  "new_tx_manager m labels =
     m\<lparr>tm_timeout := (case tm_timeout m of Some t \<Rightarrow> Some t | None \<Rightarrow> tm_default_timeout m),
       tm_labels := (case labels of
          Some l \<Rightarrow> if l = [] then [(''database'', tm_database m), (''shard'', tm_shard_id m), (''role'', tm_role m)] else l
        | None \<Rightarrow> [(''database'', tm_database m), (''shard'', tm_shard_id m), (''role'', tm_role m)])\<rparr>"

definition upper_char :: "char \<Rightarrow> char" where
  "upper_char c = (let n = of_char c :: nat in if 97 \<le> n \<and> n \<le> 122 then char_of (n - 32) else c)"

definition isolation_level :: "string \<Rightarrow> string" where
  "isolation_level s = map (\<lambda>c. if c = CHR ''_'' then CHR '' '' else c) (map upper_char s)"

definition execution_options :: "tx_manager \<Rightarrow> (string \<times> pyval) list" where
  "execution_options m =
     (if truthy_str (tm_isolation m)
      then [(''isolation_level'', PStr (isolation_level (the (tm_isolation m))))] else [])
     @ (if tm_is_postgres m then
          (if tm_read_only m then [(''postgresql_readonly'', PBool True)] else [])
          @ (if tm_deferrable m then [(''postgresql_deferrable'', PBool True)] else [])
        else [])"

definition tx_apply_settings :: "env \<Rightarrow> tx_manager \<Rightarrow> unit io" where
  "tx_apply_settings w m =
     (if \<not> tm_is_postgres m then io_return ()
      else io_then
        (case apply_statement_timeout_sql (tm_timeout m) of
           None \<Rightarrow> io_return ()
         | Some stmt \<Rightarrow> io_then (perform w (DExecute (TextClause stmt) (PDict []))) (io_return ()))
        (case tm_lock_timeout m of
           None \<Rightarrow> io_return ()
         | Some lt \<Rightarrow>
             if lt > 0 then
               io_then (perform w (DExecute (TextClause (''SET LOCAL lock_timeout = '' @ show_int (timeout_ms lt))) (PDict [])))
                 (io_return ())
             else io_return ()))"

definition tx_context :: "tx_manager \<Rightarrow> err_context" where
  "tx_context m =
     \<lparr>ctx_query_name = Some (tm_query_name m), ctx_database_name = Some (tm_database m),
      ctx_shard_id = None, ctx_role = Some (tm_role m)\<rparr>"

subsection \<open>Commit, rollback, release\<close>

definition commit_unknown_error :: "tx_manager \<Rightarrow> raised \<Rightarrow> db_error" where
  "commit_unknown_error m exc =
     new_error DatabaseCommitUnknownError
       ''connection failed during COMMIT; transaction outcome is unknown''
       (no_kwargs\<lparr>kw_original := Some (as_exn exc), kw_database_name := Some (tm_database m),
                  kw_shard_id := Some (tm_shard_id m), kw_role := Some (tm_role m),
                  kw_query_name := Some (tm_query_name m)\<rparr>)"

definition tx_commit :: "env \<Rightarrow> tx_manager \<Rightarrow> unit io" where
  "tx_commit w m =
     try_except (io_then (perform w DTransCommit) (io_return ()))
       (\<lambda>exc.
          if is_connection_error exc then io_raise (DbErr (commit_unknown_error m exc))
          else io_then (suppress (perform w DTransRollback))
            (io_raise (DbErr (classify exc (tx_context m)))))"

definition invalidate :: "env \<Rightarrow> unit io" where
  "invalidate w = suppress (perform w DInvalidate)"

definition tx_rollback :: "env \<Rightarrow> bool \<Rightarrow> unit io" where
  "tx_rollback w cancelled =
     io_then
       (shield w (except_exception (io_then (perform w DTransRollback) (io_return ())) (\<lambda>_. invalidate w)))
       (if cancelled then invalidate w else io_return ())"

definition tx_release :: "env \<Rightarrow> unit io" where
  "tx_release w = shield w (suppress (perform w DClose))"

subsection \<open>Enter and exit\<close>

text \<open>What the manager has when entering fails: \<open>have_conn\<close> and \<open>have_trans\<close> say whether
  \<^verbatim>\<open>_conn\<close> and \<^verbatim>\<open>_trans\<close> were assigned.\<close>

definition cleanup_on_enter_failure :: "env \<Rightarrow> bool \<Rightarrow> bool \<Rightarrow> unit io" where
  "cleanup_on_enter_failure w have_conn have_trans =
     io_then (if have_trans then suppress (perform w DTransRollback) else io_return ())
       (if have_conn then tx_release w else io_return ())"

definition enter_failed :: "env \<Rightarrow> tx_manager \<Rightarrow> bool \<Rightarrow> bool \<Rightarrow> raised \<Rightarrow> 'a io" where
  "enter_failed w m have_conn have_trans exc =
     io_then (cleanup_on_enter_failure w have_conn have_trans)
       (if is_cancellation w exc then io_raise exc
        else io_raise (DbErr (classify exc (tx_context m))))"

text \<open>\<open>on_raise m k h\<close>: run \<open>m\<close>; if it raises, \<open>h\<close> handles that alone, else \<open>k\<close> goes on. The
  single \<^verbatim>\<open>try\<close> of \<^verbatim>\<open>__aenter__\<close> is a chain of these, one per assignment of the
  manager's state.\<close>

definition on_raise :: "'a io \<Rightarrow> ('a \<Rightarrow> 'b io) \<Rightarrow> (raised \<Rightarrow> 'b io) \<Rightarrow> 'b io" where
  "on_raise m k h tr = (case m tr of (Inl e, tr') \<Rightarrow> h e tr' | (Inr x, tr') \<Rightarrow> k x tr')"

definition tx_enter :: "env \<Rightarrow> tx_manager \<Rightarrow> real io" where
  "tx_enter w m =
     on_raise (perform w DConnect)
       (\<lambda>_. on_raise
          (if execution_options m = [] then io_return PNone
           else perform w (DSetOptions (execution_options m)))
          (\<lambda>_. on_raise (perform w DBegin)
             (\<lambda>_. on_raise (tx_apply_settings w m) (\<lambda>_. now w) (enter_failed w m True True))
             (enter_failed w m True False))
          (enter_failed w m True False))
       (enter_failed w m False False)"

definition tx_scope :: "tx_manager \<Rightarrow> conn_scope" where
  "tx_scope m =
     \<lparr>cs_is_postgres = tm_is_postgres m, cs_default_timeout = tm_timeout m,
      cs_database = tm_database m, cs_shard_id = tm_shard_id m, cs_role = tm_role m\<rparr>"

datatype tx_outcome = TxCommitted | TxRolledBack | TxCancelled | TxCommitUnknown

fun tx_outcome_value :: "tx_outcome \<Rightarrow> string" where
  "tx_outcome_value TxCommitted = ''commit''"
| "tx_outcome_value TxRolledBack = ''rollback''"
| "tx_outcome_value TxCancelled = ''cancelled''"
| "tx_outcome_value TxCommitUnknown = ''commit_unknown''"

text \<open>The \<^verbatim>\<open>finally\<close> block of \<^verbatim>\<open>__aexit__\<close>.\<close>

definition tx_epilogue :: "env \<Rightarrow> tx_manager \<Rightarrow> real \<Rightarrow> tx_outcome \<Rightarrow> unit io" where
  "tx_epilogue w m started outcome =
     io_bind (now w) (\<lambda>t.
       let duration = t - started in
       io_then (emit (MIncr ''db_transaction_total'' 1 (tm_labels m)))
       (io_then (emit (MObserve ''db_transaction_duration_seconds'' duration (tm_labels m)))
       (io_then
         (if outcome = TxRolledBack \<or> outcome = TxCancelled
          then emit (MIncr ''db_transaction_rollback_total'' 1 (tm_labels m))
          else if outcome = TxCommitUnknown
          then emit (MIncr ''db_commit_unknown_total'' 1 (tm_labels m))
          else io_return ())
       (io_then
         (if duration \<ge> tm_long_transaction_warning m
          then emit (LLongTransaction (duration * 1000) (tx_outcome_value outcome)) else io_return ())
         (tx_release w)))))"

text \<open>The exception an exit propagates: the body's own, or the commit's.\<close>

definition commit_outcome :: "unit py \<Rightarrow> tx_outcome" where
  "commit_outcome r =
     (case r of
        Inr _ \<Rightarrow> TxCommitted
      | Inl (DbErr e) \<Rightarrow> if error_isa e DatabaseCommitUnknownError then TxCommitUnknown else TxRolledBack
      | Inl (Foreign _) \<Rightarrow> TxRolledBack)"

definition tx_exit :: "env \<Rightarrow> tx_manager \<Rightarrow> real \<Rightarrow> raised option \<Rightarrow> unit io" where
  "tx_exit w m started exc tr =
     (case exc of
        Some e \<Rightarrow>
          try_finally (tx_rollback w (is_cancellation w e))
            (tx_epilogue w m started (if is_cancellation w e then TxCancelled else TxRolledBack)) tr
      | None \<Rightarrow>
          (case tx_commit w m tr of (r, tr1) \<Rightarrow>
             try_finally (io_of r) (tx_epilogue w m started (commit_outcome r)) tr1))"

text \<open>\<^verbatim>\<open>async with manager as scope: body\<close>. The exit returns \<^verbatim>\<open>False\<close>, so the
  body's exception goes on unless the exit raises another one.\<close>

definition with_transaction :: "env \<Rightarrow> tx_manager \<Rightarrow> (conn_scope \<Rightarrow> 'a io) \<Rightarrow> 'a io" where
  "with_transaction w m body tr =
     (case tx_enter w m tr of
        (Inl e, tr1) \<Rightarrow> (Inl e, tr1)
      | (Inr started, tr1) \<Rightarrow>
          (case body (tx_scope m) tr1 of
             (Inr x, tr2) \<Rightarrow> io_then (tx_exit w m started None) (io_return x) tr2
           | (Inl e, tr2) \<Rightarrow> io_then (tx_exit w m started (Some e)) (io_raise e) tr2))"

subsection \<open>Savepoints and advisory locks\<close>

definition savepoint :: "env \<Rightarrow> 'a io \<Rightarrow> 'a io" where
  "savepoint w body =
     io_then (perform w DBeginNested)
       (on_raise body
          (\<lambda>x. io_then (perform w DNestedCommit) (io_return x))
          (\<lambda>e. io_then (perform w DNestedRollback) (io_raise e)))"

datatype lock_key = LockInt int | LockStr string

definition lock_arg :: "lock_key \<Rightarrow> string \<times> pyval" where
  "lock_arg k = (case k of LockInt i \<Rightarrow> ('':key'', PInt i) | LockStr s \<Rightarrow> (''hashtextextended(:key, 0)'', PStr s))"

definition advisory_lock :: "env \<Rightarrow> conn_scope \<Rightarrow> string \<Rightarrow> lock_key \<Rightarrow> string \<Rightarrow> pyval io" where
  "advisory_lock w cs func key name =
     (if \<not> cs_is_postgres cs then
        io_of (raise_db DatabaseUnsupportedOperationError ''advisory locks require PostgreSQL'')
      else
        except_exception
          (io_then (perform w (DExecute (TextClause (''SELECT '' @ func @ ''('' @ fst (lock_arg key) @ '')''))
              (PDict [(''key'', snd (lock_arg key))])))
            (perform w (DCursor ''scalar'')))
          (classified cs name))"

definition advisory_xact_lock :: "env \<Rightarrow> conn_scope \<Rightarrow> lock_key \<Rightarrow> unit io" where
  "advisory_xact_lock w cs key =
     io_then (advisory_lock w cs ''pg_advisory_xact_lock'' key ''advisory_xact_lock'') (io_return ())"

definition try_advisory_xact_lock :: "env \<Rightarrow> conn_scope \<Rightarrow> lock_key \<Rightarrow> bool io" where
  "try_advisory_xact_lock w cs key =
     io_bind (advisory_lock w cs ''pg_try_advisory_xact_lock'' key ''try_advisory_xact_lock'')
       (\<lambda>v. io_return (truthy v))"

subsection \<open>What each step does to the connection\<close>

lemma on_raise_eqs:
  "m tr = (Inl e, tr') \<Longrightarrow> on_raise m k h tr = h e tr'"
  "m tr = (Inr x, tr') \<Longrightarrow> on_raise m k h tr = k x tr'"
  by (simp_all add: on_raise_def)

lemma quiet_on_raise [quiet_intros]:
  "keeps obs m \<Longrightarrow> (\<And>x. keeps obs (k x)) \<Longrightarrow> (\<And>e. keeps obs (h e)) \<Longrightarrow> keeps obs (on_raise m k h)"
  by (auto simp: keeps_def on_raise_def split: prod.split sum.split) (metis snd_conv)+

lemma quiet_life: "quiet m \<Longrightarrow> life (snd (m tr)) = life tr"
  by (simp add: keeps_def)

lemma life_suppress_perform: "life (snd (suppress (perform w e) tr)) = life tr @ life [e]"
  by (simp add: io_defs split: sum.split)

lemma life_shield: "life (snd (shield w m tr)) = life (snd (m tr))"
  by (auto simp: shield_def io_defs split: prod.split sum.split)

lemma life_release [simp]: "life (snd (tx_release w tr)) = life tr @ [DClose]"
  by (simp add: tx_release_def life_shield life_suppress_perform)

lemma quiet_tx_apply_settings: "quiet (tx_apply_settings w m)"
  by (auto simp: tx_apply_settings_def intro!: quiet_intros split: option.split)

lemma life_emit_then:
  "\<not> lifecycle e \<Longrightarrow> life (snd (io_then (emit e) k tr)) = life (snd (k (tr @ [e])))"
  by (simp add: io_defs)

lemma life_return_then: "io_then (io_return ()) k tr = k tr"
  by (simp add: io_defs)

lemma life_epilogue [simp]: "life (snd (tx_epilogue w m st oc tr)) = life tr @ [DClose]"
proof -
  have clock: "life (snd (io_bind (now w) k tr)) = life (snd (k (env_clock w tr) (tr @ [DClock])))" for k :: "real \<Rightarrow> unit io"
    by (simp add: io_defs)
  show ?thesis
    unfolding tx_epilogue_def clock Let_def
    by (simp add: life_emit_then life_return_then)
qed

lemma life_invalidate [simp]: "life (snd (invalidate w tr)) = life tr @ [DInvalidate]"
  by (simp add: invalidate_def life_suppress_perform)

lemma life_tx_rollback:
  "\<exists>n. life (snd (tx_rollback w c tr)) = life tr @ DTransRollback # replicate n DInvalidate"
proof -
  let ?rb = "except_exception (io_then (perform w DTransRollback) (io_return ())) (\<lambda>_. invalidate w)"
  have rb: "\<exists>n. life (snd (?rb tr)) = life tr @ DTransRollback # replicate n DInvalidate"
  proof (cases "env_answer w tr DTransRollback")
    case (Inl e)
    have "life (snd (?rb tr)) = life tr @ DTransRollback # replicate (if is_exception e then 1 else 0) DInvalidate"
      using Inl life_invalidate [of w "tr @ [DTransRollback]"] by (simp add: io_defs)
    then show ?thesis by blast
  next
    case (Inr v)
    have "life (snd (?rb tr)) = life tr @ DTransRollback # replicate 0 DInvalidate"
      using Inr by (simp add: io_defs)
    then show ?thesis by blast
  qed
  then obtain n where n: "life (snd (shield w ?rb tr)) = life tr @ DTransRollback # replicate n DInvalidate"
    by (auto simp: life_shield)
  obtain r tr' where sh: "shield w ?rb tr = (r, tr')" by (cases "shield w ?rb tr")
  show ?thesis
  proof (cases "(\<exists>x. r = Inr x) \<and> c")
    case True
    then have "life (snd (tx_rollback w c tr)) = life tr' @ [DInvalidate]"
      using sh by (auto simp: tx_rollback_def io_then_def io_bind_def)
    with n sh have "life (snd (tx_rollback w c tr)) = life tr @ DTransRollback # replicate (Suc n) DInvalidate"
      by (simp add: replicate_append_same)
    then show ?thesis by blast
  next
    case False
    then have "snd (tx_rollback w c tr) = tr'"
      using sh by (cases r) (auto simp: tx_rollback_def io_then_def io_bind_def io_return_def)
    with n sh show ?thesis by auto
  qed
qed

lemma tx_commit_cases:
  "env_answer w tr DTransCommit = Inr v \<Longrightarrow> tx_commit w m tr = (Inr (), tr @ [DTransCommit])"
  "env_answer w tr DTransCommit = Inl e \<Longrightarrow> is_connection_error e \<Longrightarrow>
     tx_commit w m tr = (Inl (DbErr (commit_unknown_error m e)), tr @ [DTransCommit])"
  "env_answer w tr DTransCommit = Inl e \<Longrightarrow> \<not> is_connection_error e \<Longrightarrow>
     snd (tx_commit w m tr) = tr @ [DTransCommit, DTransRollback]"
  by (auto simp: tx_commit_def io_defs split: sum.split prod.split)

lemma life_tx_commit:
  "life (snd (tx_commit w m tr)) = life tr @ [DTransCommit] \<or>
   life (snd (tx_commit w m tr)) = life tr @ [DTransCommit, DTransRollback]"
proof (cases "env_answer w tr DTransCommit")
  case (Inl e)
  then show ?thesis
    using tx_commit_cases(2,3) [OF Inl, of m] by (cases "is_connection_error e") auto
next
  case (Inr v)
  with tx_commit_cases(1) [OF Inr, of m] show ?thesis by auto
qed

lemma life_try_finally:
  assumes "\<And>tr. life (snd (f tr)) = life tr @ L"
  shows "life (snd (try_finally m f tr)) = life (snd (m tr)) @ L"
  using assms [of "snd (m tr)"]
  by (auto simp: try_finally_def split: prod.split sum.split)

lemma life_exit_ok:
  "\<exists>L. (L = [DTransCommit] \<or> L = [DTransCommit, DTransRollback])
     \<and> life (snd (tx_exit w m st None tr)) = life tr @ L @ [DClose]"
proof -
  obtain r tr1 where c: "tx_commit w m tr = (r, tr1)" by (cases "tx_commit w m tr")
  have "life (snd (tx_exit w m st None tr)) = life tr1 @ [DClose]"
    using c life_try_finally [of "tx_epilogue w m st (commit_outcome r)" "[DClose]" "io_of r" tr1]
    by (simp add: tx_exit_def io_of_def)
  with life_tx_commit [of w m tr] c show ?thesis by auto
qed

lemma life_exit_failed:
  "\<exists>n. life (snd (tx_exit w m st (Some e) tr)) =
     life tr @ DTransRollback # replicate n DInvalidate @ [DClose]"
proof -
  have "life (snd (tx_exit w m st (Some e) tr)) = life (snd (tx_rollback w (is_cancellation w e) tr)) @ [DClose]"
    unfolding tx_exit_def by (simp add: life_try_finally)
  with life_tx_rollback [of w "is_cancellation w e" tr] show ?thesis by auto
qed

text \<open>The rollback that cleans up a failed enter is not itself interrupted by a cancellation.\<close>

definition rollback_uninterrupted :: "env \<Rightarrow> bool" where
  "rollback_uninterrupted w \<longleftrightarrow> (\<forall>tr e. env_answer w tr DTransRollback = Inl e \<longrightarrow> is_exception e)"

lemma suppress_ok:
  "\<lbrakk>\<And>e. env_answer w tr c = Inl e \<Longrightarrow> is_exception e\<rbrakk> \<Longrightarrow> suppress (perform w c) tr = (Inr (), tr @ [c])"
  by (auto simp: io_defs split: sum.split)

lemma enter_failed_life:
  assumes "have_trans \<Longrightarrow> rollback_uninterrupted w"
  shows "life (snd (enter_failed w m have_conn have_trans e tr :: 'a py \<times> effect list)) =
      life tr @ (if have_trans then [DTransRollback] else []) @ (if have_conn then [DClose] else [])
    \<and> (\<exists>x. fst (enter_failed w m have_conn have_trans e tr :: 'a py \<times> effect list) = Inl x)"
proof -
  let ?final = "if is_cancellation w e then io_raise e else io_raise (DbErr (classify e (tx_context m))) :: 'a io"
  have fin: "snd (?final t) = t \<and> (\<exists>x. fst (?final t) = Inl x)" for t
    by (simp add: io_raise_def)
  obtain r tr' where cl: "cleanup_on_enter_failure w have_conn have_trans tr = (r, tr')"
    by (cases "cleanup_on_enter_failure w have_conn have_trans tr")
  have sup: "suppress (perform w DTransRollback) tr = (Inr (), tr @ [DTransRollback])" if have_trans
    using assms [OF that] by (intro suppress_ok) (auto simp: rollback_uninterrupted_def)
  have "life tr' = life tr @ (if have_trans then [DTransRollback] else []) @ (if have_conn then [DClose] else [])"
  proof (cases have_trans)
    case True
    then have "tr' = snd ((if have_conn then tx_release w else io_return ()) (tr @ [DTransRollback]))"
      using cl sup by (simp add: cleanup_on_enter_failure_def io_then_def io_bind_def)
    with True show ?thesis by (simp add: io_return_def)
  next
    case False
    then have "tr' = snd ((if have_conn then tx_release w else io_return ()) tr)"
      using cl by (simp add: cleanup_on_enter_failure_def life_return_then)
    with False show ?thesis by (simp add: io_return_def)
  qed
  with cl fin [of tr'] show ?thesis
    by (cases r) (auto simp: enter_failed_def io_then_def io_bind_def)
qed

definition closed_once :: "effect list \<Rightarrow> bool" where
  "closed_once L \<longleftrightarrow> (\<exists>xs. L = DConnect # xs @ [DClose] \<and> DClose \<notin> set xs \<and> DConnect \<notin> set xs)"

lemma closed_onceI: "DClose \<notin> set xs \<Longrightarrow> DConnect \<notin> set xs \<Longrightarrow> L = DConnect # xs @ [DClose] \<Longrightarrow> closed_once L"
  by (auto simp: closed_once_def)

text \<open>Entering: either the transaction is open on a fresh connection, or the call failed, no commit was
  issued and the connection was given back.\<close>

lemma tx_enter_life:
  assumes ok: "rollback_uninterrupted w"
  shows "case tx_enter w m tr of
      (Inr st, tr') \<Rightarrow> life tr' = life tr @ DConnect # (if execution_options m = [] then [] else [DSetOptions (execution_options m)]) @ [DBegin]
    | (Inl e, tr') \<Rightarrow> (\<exists>L. life tr' = life tr @ L \<and> DTransCommit \<notin> set L
        \<and> (closed_once L \<or> (L = [DConnect] \<and> (\<exists>x. env_answer w tr DConnect = Inl x))))"
proof (cases "env_answer w tr DConnect")
  case (Inl e)
  have "tx_enter w m tr = enter_failed w m False False e (tr @ [DConnect])"
    by (simp add: tx_enter_def on_raise_def perform_def Inl)
  moreover have "life (snd (enter_failed w m False False e (tr @ [DConnect]) :: real py \<times> effect list)) = life tr @ [DConnect]
      \<and> (\<exists>x. fst (enter_failed w m False False e (tr @ [DConnect]) :: real py \<times> effect list) = Inl x)"
    using enter_failed_life [of False w m False e "tr @ [DConnect]"] by simp
  ultimately show ?thesis using Inl by (cases "tx_enter w m tr") auto
next
  case (Inr v)
  let ?o = "if execution_options m = [] then [] else [DSetOptions (execution_options m)]"
  let ?opt = "if execution_options m = [] then io_return PNone else perform w (DSetOptions (execution_options m))"
  let ?t1 = "tr @ [DConnect]"
  have opt: "snd (?opt ?t1) = ?t1 @ ?o" by (simp add: io_defs)
  define rest where "rest = (\<lambda>_ :: pyval. on_raise (perform w DBegin)
      (\<lambda>_. on_raise (tx_apply_settings w m) (\<lambda>_. now w) (enter_failed w m True True))
      (enter_failed w m True False))"
  have enter: "tx_enter w m tr = on_raise ?opt rest (enter_failed w m True False) ?t1"
    by (simp add: tx_enter_def rest_def on_raise_def perform_def Inr)
  have failed: "?thesis" if "tx_enter w m tr = enter_failed w m True ht e t"
      "life t = life tr @ DConnect # xs" "set xs \<subseteq> {DSetOptions (execution_options m), DBegin}" for ht e t xs
  proof -
    let ?L = "DConnect # (xs @ (if ht then [DTransRollback] else [])) @ [DClose]"
    have "closed_once ?L" using that(3) by (intro closed_onceI [OF _ _ refl]) auto
    moreover have "DTransCommit \<notin> set ?L" using that(3) by auto
    moreover have "life (snd (tx_enter w m tr)) = life tr @ ?L \<and> (\<exists>x. fst (tx_enter w m tr) = Inl x)"
      using enter_failed_life [of ht w m True e t, OF ok] that(1,2) by simp
    ultimately show ?thesis by (cases "tx_enter w m tr") auto
  qed
  show ?thesis
  proof (cases "fst (?opt ?t1)")
    case (Inl e)
    then have "tx_enter w m tr = enter_failed w m True False e (?t1 @ ?o)"
      using opt unfolding enter by (cases "?opt ?t1") (simp add: on_raise_def)
    then show ?thesis by (rule failed [where xs = ?o]) auto
  next
    case (Inr u)
    then have go: "tx_enter w m tr = rest u (?t1 @ ?o)"
      using opt unfolding enter by (cases "?opt ?t1") (simp add: on_raise_def)
    show ?thesis
    proof (cases "env_answer w (?t1 @ ?o) DBegin")
      case (Inl e)
      then have "tx_enter w m tr = enter_failed w m True False e (?t1 @ ?o @ [DBegin])"
        unfolding go rest_def by (simp add: on_raise_def perform_def)
      then show ?thesis by (rule failed [where xs = "?o @ [DBegin]"]) auto
    next
      case (Inr u')
      let ?t2 = "?t1 @ ?o @ [DBegin]"
      obtain r t3 where s: "tx_apply_settings w m ?t2 = (r, t3)" by (cases "tx_apply_settings w m ?t2")
      have t3: "life t3 = life tr @ DConnect # ?o @ [DBegin]"
        using quiet_life [OF quiet_tx_apply_settings, of w m ?t2] s by simp
      show ?thesis
      proof (cases r)
        case (Inl e)
        then have "tx_enter w m tr = enter_failed w m True True e t3"
          using Inr s unfolding go rest_def by (simp add: on_raise_def perform_def)
        then show ?thesis by (rule failed [where xs = "?o @ [DBegin]"]) (use t3 in auto)
      next
        case r: (Inr x)
        then have "tx_enter w m tr = now w t3"
          using Inr s unfolding go rest_def by (simp add: on_raise_def perform_def)
        with t3 show ?thesis by (simp add: now_def)
      qed
    qed
  qed
qed

subsection \<open>The outcome when the cleanup is not interrupted\<close>

text \<open>The calls of the cleanup may fail, but not with a cancellation, and none arrives while a shielded
  cleanup runs.\<close>

definition uninterrupted :: "env \<Rightarrow> bool" where
  "uninterrupted w \<longleftrightarrow>
     (\<forall>tr c e. c \<in> {DTransRollback, DInvalidate, DClose} \<longrightarrow> env_answer w tr c = Inl e \<longrightarrow> is_exception e)
     \<and> (\<forall>tr e. env_answer w tr DShield \<noteq> Inl e)"

lemma uninterrupted_rollback: "uninterrupted w \<Longrightarrow> rollback_uninterrupted w"
  by (auto simp: uninterrupted_def rollback_uninterrupted_def)

lemma uninterrupted_suppress:
  "uninterrupted w \<Longrightarrow> c \<in> {DTransRollback, DInvalidate, DClose} \<Longrightarrow> fst (suppress (perform w c) tr) = Inr ()"
  by (subst suppress_ok) (auto simp: uninterrupted_def)

lemma shield_result: "uninterrupted w \<Longrightarrow> fst (shield w m tr) = fst (m tr)"
  by (auto simp: uninterrupted_def shield_def io_defs split: prod.split sum.split)

lemma release_result: "uninterrupted w \<Longrightarrow> fst (tx_release w tr) = Inr ()"
  by (simp add: tx_release_def shield_result uninterrupted_suppress)

lemma epilogue_result: "uninterrupted w \<Longrightarrow> fst (tx_epilogue w m st oc tr) = Inr ()"
  using release_result by (simp add: tx_epilogue_def io_defs Let_def)

lemma finally_result: "\<lbrakk>\<And>tr. fst (f tr) = Inr ()\<rbrakk> \<Longrightarrow> fst (try_finally m f tr) = fst (m tr)"
  by (cases "m tr") (auto simp: try_finally_def split: prod.split sum.split, metis fst_conv sum.distinct(1))

lemma rollback_result: "uninterrupted w \<Longrightarrow> fst (tx_rollback w c tr) = Inr ()"
proof -
  assume un: "uninterrupted w"
  let ?rb = "except_exception (io_then (perform w DTransRollback) (io_return ())) (\<lambda>_. invalidate w)"
  have inv: "fst (invalidate w t) = Inr ()" for t
    by (simp add: invalidate_def uninterrupted_suppress [OF un])
  have "fst (?rb tr) = Inr ()"
  proof (cases "env_answer w tr DTransRollback")
    case (Inl e)
    then have "is_exception e" using un by (auto simp: uninterrupted_def)
    with Inl inv show ?thesis by (simp add: io_defs)
  qed (simp add: io_defs)
  then have "fst (shield w ?rb tr) = Inr ()" by (simp add: shield_result [OF un])
  then show ?thesis
    using inv by (cases "shield w ?rb tr") (auto simp: tx_rollback_def io_then_def io_bind_def io_return_def)
qed

lemma exit_result:
  assumes "uninterrupted w"
  shows "fst (tx_exit w m st (Some e) tr) = Inr ()"
    and "fst (tx_exit w m st None tr) = fst (tx_commit w m tr)"
proof -
  note fin = finally_result [OF epilogue_result [OF assms]]
  show "fst (tx_exit w m st (Some e) tr) = Inr ()"
    by (simp add: tx_exit_def fin rollback_result [OF assms])
  show "fst (tx_exit w m st None tr) = fst (tx_commit w m tr)"
    by (cases "tx_commit w m tr") (simp add: tx_exit_def fin io_of_def)
qed

lemma with_transaction_cases:
  assumes "tx_enter w m tr = (Inr st, t1)"
  shows "body (tx_scope m) t1 = (Inr x, t2) \<Longrightarrow> snd (with_transaction w m body tr) = snd (tx_exit w m st None t2)"
    and "body (tx_scope m) t1 = (Inr x, t2) \<Longrightarrow> fst (with_transaction w m body tr) =
      (case fst (tx_exit w m st None t2) of Inl e \<Rightarrow> Inl e | Inr _ \<Rightarrow> Inr x)"
    and "body (tx_scope m) t1 = (Inl e, t2) \<Longrightarrow> snd (with_transaction w m body tr) = snd (tx_exit w m st (Some e) t2)"
    and "body (tx_scope m) t1 = (Inl e, t2) \<Longrightarrow> fst (with_transaction w m body tr) =
      (case fst (tx_exit w m st (Some e) t2) of Inl e' \<Rightarrow> Inl e' | Inr _ \<Rightarrow> Inl e)"
  using assms
  by (auto simp: with_transaction_def io_then_def io_bind_def io_return_def io_raise_def split: prod.split sum.split)

lemma with_transaction_life:
  assumes ok: "rollback_uninterrupted w" and q: "quiet (body (tx_scope m))"
  shows "\<exists>L. life (snd (with_transaction w m body tr)) = life tr @ L
    \<and> (closed_once L \<or> (L = [DConnect] \<and> (\<exists>x. env_answer w tr DConnect = Inl x)))
    \<and> count_list L DTransCommit \<le> 1
    \<and> (DTransCommit \<in> set L \<longleftrightarrow> (\<exists>st t1 x t2. tx_enter w m tr = (Inr st, t1) \<and> body (tx_scope m) t1 = (Inr x, t2)))"
proof (cases "fst (tx_enter w m tr)")
  case (Inl e)
  then obtain t1 where t1: "tx_enter w m tr = (Inl e, t1)" by (cases "tx_enter w m tr") auto
  with tx_enter_life [OF ok, where m = m and tr = tr] obtain L where L: "life t1 = life tr @ L" "DTransCommit \<notin> set L"
    "closed_once L \<or> (L = [DConnect] \<and> (\<exists>x. env_answer w tr DConnect = Inl x))" by auto
  from L(2) have "count_list L DTransCommit = 0" by (rule count_notin)
  with t1 L show ?thesis by (intro exI [of _ L]) (simp add: with_transaction_def)
next
  case (Inr st)
  let ?o = "if execution_options m = [] then [] else [DSetOptions (execution_options m)]"
  obtain t1 where t1: "tx_enter w m tr = (Inr st, t1)" using Inr by (cases "tx_enter w m tr") auto
  obtain r t2 where b: "body (tx_scope m) t1 = (r, t2)" by (cases "body (tx_scope m) t1")
  have t2: "life t2 = life tr @ DConnect # ?o @ [DBegin]"
    using tx_enter_life [OF ok, where m = m and tr = tr] t1 quiet_life [OF q, of t1] b by simp
  show ?thesis
  proof (cases r)
    case (Inl e)
    obtain n where n: "life (snd (tx_exit w m st (Some e) t2)) = life t2 @ DTransRollback # replicate n DInvalidate @ [DClose]"
      using life_exit_failed by blast
    let ?L = "DConnect # (?o @ DBegin # DTransRollback # replicate n DInvalidate) @ [DClose]"
    have "closed_once ?L" by (rule closed_onceI [OF _ _ refl]) auto
    moreover have "DTransCommit \<notin> set ?L" by auto
    moreover from this have "count_list ?L DTransCommit = 0" by (rule count_notin)
    moreover have "life (snd (with_transaction w m body tr)) = life tr @ ?L"
      using with_transaction_cases(3) [OF t1, of body e t2] b Inl n t2 by simp
    ultimately show ?thesis using t1 b Inl by (intro exI [of _ ?L]) simp
  next
    case r: (Inr x)
    obtain C where C: "C = [DTransCommit] \<or> C = [DTransCommit, DTransRollback]"
      "life (snd (tx_exit w m st None t2)) = life t2 @ C @ [DClose]"
      using life_exit_ok by blast
    let ?L = "DConnect # (?o @ DBegin # C) @ [DClose]"
    have "closed_once ?L" using C(1) by (intro closed_onceI [OF _ _ refl]) auto
    moreover have "DTransCommit \<in> set ?L" "count_list ?L DTransCommit = 1" using C(1) by auto
    moreover have "life (snd (with_transaction w m body tr)) = life tr @ ?L"
      using with_transaction_cases(1) [OF t1, of body x t2] b r C(2) t2 by simp
    ultimately show ?thesis using t1 b r by (intro exI [of _ ?L]) simp
  qed
qed

lemma with_transaction_closed:
  assumes "rollback_uninterrupted w" "quiet (body (tx_scope m))"
  shows "\<exists>L. life (snd (with_transaction w m body tr)) = life tr @ L
    \<and> (closed_once L \<or> (L = [DConnect] \<and> (\<exists>x. env_answer w tr DConnect = Inl x)))"
  using with_transaction_life [where body = body and m = m and tr = tr, OF assms] by (elim exE conjE) (intro exI conjI)

subsection \<open>The contract of a transaction body\<close>

text \<open>The calls and records of the transaction itself: the settings have no parameters. An observation that none
  of them changes is kept by entering and leaving, and by the whole block if the body keeps it.\<close>

definition own_call :: "tx_manager \<Rightarrow> effect \<Rightarrow> bool" where
  "own_call m e \<longleftrightarrow> lifecycle e \<or> (\<exists>st. e = DExecute st (PDict [])) \<or> e \<in> {DClock, DShield} \<or> (\<exists>d q. e = LLongTransaction d q)
     \<or> e \<in> {MIncr ''db_transaction_total'' 1 (tm_labels m), MIncr ''db_transaction_rollback_total'' 1 (tm_labels m),
         MIncr ''db_commit_unknown_total'' 1 (tm_labels m)}
     \<or> (\<exists>v. e = MObserve ''db_transaction_duration_seconds'' v (tm_labels m))"

lemma own_calls:
  "lifecycle e \<Longrightarrow> own_call m e" "own_call m (DExecute st (PDict []))" "own_call m DClock" "own_call m DShield"
  "own_call m (LLongTransaction d q)" "own_call m (MIncr ''db_transaction_total'' 1 (tm_labels m))"
  "own_call m (MIncr ''db_transaction_rollback_total'' 1 (tm_labels m))"
  "own_call m (MIncr ''db_commit_unknown_total'' 1 (tm_labels m))"
  "own_call m (MObserve ''db_transaction_duration_seconds'' v (tm_labels m))"
  by (auto simp: own_call_def)

lemma keeps_obs_enter:
  assumes "\<And>e tr. own_call m e \<Longrightarrow> e \<noteq> DTransCommit \<Longrightarrow> obs (tr @ [e]) = obs tr"
  shows "keeps obs (tx_enter w m)"
  unfolding tx_enter_def tx_apply_settings_def enter_failed_def cleanup_on_enter_failure_def tx_rollback_def tx_release_def
    invalidate_def shield_def Let_def
  by (auto intro!: quiet_intros assms own_calls split: option.split)

lemma keeps_obs_epilogue:
  assumes "\<And>e tr. own_call m e \<Longrightarrow> e \<noteq> DTransCommit \<Longrightarrow> obs (tr @ [e]) = obs tr"
  shows "keeps obs (tx_epilogue w m st oc)"
  unfolding tx_epilogue_def tx_release_def shield_def Let_def
  by (auto intro!: quiet_intros assms own_calls split: option.split)

lemma keeps_obs_exit:
  assumes "\<And>e tr. own_call m e \<Longrightarrow> obs (tr @ [e]) = obs tr"
  shows "keeps obs (tx_exit w m st x)"
proof -
  have ep: "keeps obs (tx_epilogue w m st oc)" for oc by (rule keeps_obs_epilogue) (rule assms)
  have rb: "keeps obs (tx_rollback w c)" for c
    unfolding tx_rollback_def invalidate_def shield_def
    by (auto intro!: quiet_intros assms own_calls split: option.split)
  have co: "keeps obs (tx_commit w m)"
    unfolding tx_commit_def by (auto intro!: quiet_intros assms own_calls)
  show ?thesis
  proof (cases x)
    case (Some e)
    have "keeps obs (try_finally (tx_rollback w c) (tx_epilogue w m st oc))" for c oc
      by (intro keeps_try_finally rb ep)
    with Some show ?thesis by (simp add: keeps_def tx_exit_def)
  next
    case None
    have "obs (snd (try_finally (io_of r) (tx_epilogue w m st oc) t)) = obs t" for r :: "unit py" and oc t
      by (rule keepsD) (intro keeps_try_finally keeps_of ep)
    with None keepsD [OF co] show ?thesis by (auto simp: keeps_def tx_exit_def split: prod.split) (metis snd_conv)
  qed
qed

lemma keeps_obs_transaction:
  assumes own: "\<And>e tr. own_call m e \<Longrightarrow> obs (tr @ [e]) = obs tr"
    and "\<And>cs. keeps obs (body cs)"
  shows "keeps obs (with_transaction w m body)"
proof -
  have enter: "keeps obs (tx_enter w m)" by (rule keeps_obs_enter) (rule own)
  have exit: "keeps obs (tx_exit w m st x)" for st x by (rule keeps_obs_exit) (rule own)
  have "obs (snd (with_transaction w m body tr)) = obs tr" for tr
  proof -
    obtain r t1 where t1: "tx_enter w m tr = (r, t1)" by (cases "tx_enter w m tr")
    then have o1: "obs t1 = obs tr" using keepsD [OF enter, of tr] by simp
    show ?thesis
    proof (cases r)
      case (Inl e)
      with t1 o1 show ?thesis by (simp add: with_transaction_def)
    next
      case (Inr st)
      obtain b t2 where b: "body (tx_scope m) t1 = (b, t2)" by (cases "body (tx_scope m) t1")
      then have "obs t2 = obs t1" using keepsD [OF assms(2), of "tx_scope m" t1] by simp
      moreover have last: "obs (snd (io_then (tx_exit w m st x) k t2)) = obs t2" if "keeps obs k" for x and k :: "'c io"
        by (rule keepsD) (intro keeps_then exit that)
      ultimately show ?thesis
        using t1 b Inr o1
        by (cases b) (simp_all add: with_transaction_def last [OF keeps_return] last [OF keeps_raise])
    qed
  qed
  then show ?thesis by (simp add: keeps_def)
qed

lemma with_transaction_committed:
  assumes "fst (with_transaction w m body tr) = Inr x"
  shows "\<exists>st t1 t2 v. tx_enter w m tr = (Inr st, t1) \<and> body (tx_scope m) t1 = (Inr x, t2)
    \<and> env_answer w t2 DTransCommit = Inr v"
proof -
  obtain st t1 where t1: "tx_enter w m tr = (Inr st, t1)"
    using assms by (auto simp: with_transaction_def split: prod.splits sum.splits)
  obtain r t2 where b: "body (tx_scope m) t1 = (r, t2)" by (cases "body (tx_scope m) t1")
  show ?thesis
  proof (cases r)
    case (Inl e)
    with assms with_transaction_cases(4) [OF t1, of body e t2] b show ?thesis by (auto split: sum.splits)
  next
    case (Inr y)
    note res = with_transaction_cases(2) [OF t1, of body y t2, OF b [unfolded Inr]]
    have "\<exists>u. fst (tx_exit w m st None t2) = Inr u" "y = x"
      using assms res by (auto split: sum.splits)
    moreover have "\<exists>v. env_answer w t2 DTransCommit = Inr v" if "fst (tx_exit w m st None t2) = Inr u" for u
    proof (rule ccontr)
      assume "\<not> ?thesis"
      then obtain e where "env_answer w t2 DTransCommit = Inl e" by (cases "env_answer w t2 DTransCommit") auto
      then have "\<exists>e'. fst (tx_commit w m t2) = Inl e'"
        by (auto simp: tx_commit_def io_defs split: sum.split)
      then obtain e' t3 where "tx_commit w m t2 = (Inl e', t3)" by (cases "tx_commit w m t2") auto
      then have "\<exists>e''. fst (tx_exit w m st None t2) = Inl e''"
        by (auto simp: tx_exit_def try_finally_def io_of_def split: prod.split sum.split)
      with that show False by auto
    qed
    ultimately show ?thesis using t1 b Inr by auto
  qed
qed

text \<open>What a block that returns shows of an observation: what its body shows, and then the COMMIT that was
  acknowledged.\<close>

lemma with_transaction_shows:
  assumes "with_transaction w m body tr = (Inr x, tr')"
    and own: "\<And>e tr. own_call m e \<Longrightarrow> e \<noteq> DTransCommit \<Longrightarrow> obs (tr @ [e]) = obs tr"
  shows "\<exists>t1 t2 v. obs t1 = obs tr \<and> body (tx_scope m) t1 = (Inr x, t2) \<and> env_answer w t2 DTransCommit = Inr v
    \<and> obs tr' = obs (t2 @ [DTransCommit])"
proof -
  obtain st t1 t2 v where t: "tx_enter w m tr = (Inr st, t1)" "body (tx_scope m) t1 = (Inr x, t2)"
    "env_answer w t2 DTransCommit = Inr v"
    using with_transaction_committed [of w m body tr x] assms(1) by auto
  have "keeps obs (tx_enter w m)" by (rule keeps_obs_enter) (rule own)
  with keepsD [of obs "tx_enter w m" tr] t(1) have "obs t1 = obs tr" by simp
  moreover have "obs tr' = obs (t2 @ [DTransCommit])"
  proof -
    let ?k = "io_then (try_finally (io_of (Inr ())) (tx_epilogue w m st TxCommitted)) (io_return x)"
    have "keeps obs ?k" by (intro keeps_then keeps_try_finally keeps_of keeps_return keeps_obs_epilogue own)
    moreover have "snd (?k (t2 @ [DTransCommit])) = tr'"
      using assms(1) t tx_commit_cases(1) [OF t(3), of m]
      by (simp add: with_transaction_def io_then_def io_bind_def tx_exit_def commit_outcome_def)
    ultimately show ?thesis using keepsD [of obs ?k "t2 @ [DTransCommit]"] by simp
  qed
  ultimately show ?thesis using t by blast
qed

text \<open>
  What the transaction relies on of the program it runs: it uses the connection through the scope and
  leaves its life cycle alone. Every operation of the scope keeps the contract, and so does a sequence
  of two bodies and a body in a savepoint.
\<close>

locale transaction_body =
  fixes body :: "conn_scope \<Rightarrow> 'a io"
  assumes body_quiet: "quiet (body cs)"
begin

lemma always_closed:
  "rollback_uninterrupted w \<Longrightarrow> \<exists>L. life (snd (with_transaction w m body tr)) = life tr @ L
    \<and> (closed_once L \<or> (L = [DConnect] \<and> (\<exists>x. env_answer w tr DConnect = Inl x)))"
  by (rule with_transaction_closed [OF _ body_quiet])

lemma savepoint_quiet: "quiet (savepoint w (body cs))"
  unfolding savepoint_def by (auto intro!: quiet_intros body_quiet)

end

interpretation fetch_all_body: transaction_body "\<lambda>cs. fetch_all w cs q ps mt" for w q ps mt
  by unfold_locales (rule quiet_fetch_all)

interpretation fetch_one_body: transaction_body "\<lambda>cs. fetch_one w cs q ps mt" for w q ps mt
  by unfold_locales (rule quiet_fetch_one)

interpretation fetch_optional_body: transaction_body "\<lambda>cs. fetch_optional w cs q ps mt" for w q ps mt
  by unfold_locales (rule quiet_fetch_optional)

interpretation fetch_value_body: transaction_body "\<lambda>cs. fetch_value w cs q ps" for w q ps
  by unfold_locales (rule quiet_fetch_value)

interpretation fetch_values_body: transaction_body "\<lambda>cs. fetch_values w cs q ps" for w q ps
  by unfold_locales (rule quiet_fetch_values)

interpretation execute_body: transaction_body "\<lambda>cs. execute w cs q ps" for w q ps
  by unfold_locales (rule quiet_execute)

lemma quiet_advisory_lock: "quiet (advisory_lock w cs f k n)"
  by (auto simp: advisory_lock_def intro!: quiet_intros)

interpretation lock_body: transaction_body "\<lambda>cs. advisory_xact_lock w cs k" for w k
  by unfold_locales (auto simp: advisory_xact_lock_def intro!: quiet_intros quiet_advisory_lock)

interpretation try_lock_body: transaction_body "\<lambda>cs. try_advisory_xact_lock w cs k" for w k
  by unfold_locales (auto simp: try_advisory_xact_lock_def intro!: quiet_intros quiet_advisory_lock)

text \<open>Two bodies in sequence are a body.\<close>

lemma body_sequence:
  "transaction_body a \<Longrightarrow> transaction_body b \<Longrightarrow> transaction_body (\<lambda>cs. io_then (a cs) (b cs))"
  by (simp add: transaction_body_def keeps_then)

subsection \<open>Properties\<close>

text \<open>Environments for the witnesses: every call succeeds, except those listed.\<close>

definition sample_env :: "bool \<Rightarrow> (effect \<times> raised) list \<Rightarrow> env" where
  "sample_env a fails =
     \<lparr>env_answer = (\<lambda>tr e. case map_of fails e of Some x \<Rightarrow> Inl x | None \<Rightarrow> Inr (PInt 1)),
      env_clock = (\<lambda>tr. real (length tr)), env_async = a\<rparr>"

lemma sample_env_simps [simp]:
  "env_answer (sample_env a fails) tr e = (case map_of fails e of Some x \<Rightarrow> Inl x | None \<Rightarrow> Inr (PInt 1))"
  "env_async (sample_env a fails) = a"
  by (simp_all add: sample_env_def)

definition sample_tx :: tx_manager where
  "sample_tx = \<lparr>tm_is_postgres = True, tm_default_timeout = None, tm_database = ''app'', tm_shard_id = ''default'',
     tm_role = ''primary'', tm_isolation = Some ''repeatable_read'', tm_read_only = False, tm_timeout = Some 2,
     tm_lock_timeout = None, tm_query_name = ''tx'', tm_labels = [], tm_long_transaction_warning = 5,
     tm_deferrable = False\<rparr>"

lemma sample_env_ok: "all_ok (sample_env a [])"
  by (simp add: all_ok_def)

lemma sample_enters: "\<exists>st t1. tx_enter (sample_env a []) sample_tx tr = (Inr st, t1)"
  by (simp add: tx_enter_def on_raise_def io_defs tx_apply_settings_def sample_tx_def
      apply_statement_timeout_sql_def execution_options_def truthy_str_def)

lemma with_transaction_returns:
  assumes "all_ok w" "uninterrupted w" "tx_enter w m tr = (Inr st, t1)" "succeeds (body (tx_scope m))"
  shows "\<exists>x. fst (with_transaction w m body tr) = Inr x"
proof -
  obtain x t2 where b: "body (tx_scope m) t1 = (Inr x, t2)"
    using assms(4) unfolding succeeds_def by (metis prod.collapse)
  have "fst (tx_commit w m t2) = Inr ()"
  proof -
    obtain v where "env_answer w t2 DTransCommit = Inr v" using assms(1) unfolding all_ok_def by blast
    then show ?thesis by (simp add: tx_commit_def io_defs)
  qed
  then show ?thesis
    using with_transaction_cases(2) [where body = body and ?t1.0 = t1 and ?t2.0 = t2, OF assms(3) b] exit_result(2) [OF assms(2), of m st t2] by simp
qed

definition net_down :: raised where
  "net_down = Foreign (plain_exn [CException, CConnectionError, COSError] ''reset by peer'')"

definition cancelled :: raised where
  "cancelled = Foreign (plain_exn [CCancelledError] ''cancelled'')"



text \<open>C6. A transaction that reports success was committed: the block returns only when its body
  returned and the driver acknowledged the COMMIT issued right after it.\<close>

theorem transaction_success_committed:
  assumes "fst (with_transaction w m body tr) = Inr x"
  shows "\<exists>st t1 t2 v. tx_enter w m tr = (Inr st, t1) \<and> body (tx_scope m) t1 = (Inr x, t2)
    \<and> env_answer w t2 DTransCommit = Inr v"
  using assms by (rule with_transaction_committed)

lemma transaction_success_committed_witness:
  "\<exists>st t1 t2 v. tx_enter (sample_env True []) sample_tx [] = (Inr st, t1) \<and> io_return (1 :: nat) t1 = (Inr 1, t2)
    \<and> env_answer (sample_env True []) t2 DTransCommit = Inr v"
  by (rule transaction_success_committed)
    (simp add: with_transaction_def tx_enter_def on_raise_def io_defs tx_apply_settings_def sample_tx_def
      apply_statement_timeout_sql_def execution_options_def truthy_str_def tx_exit_def tx_commit_def
      tx_epilogue_def Let_def tx_release_def shield_def)

text \<open>A failing body rolls back: the block raises the body's own exception, no COMMIT is issued, one
  ROLLBACK is, the connection is closed last, and a failure of the rollback only invalidates it. A
  cancelled body also leaves the connection invalidated.\<close>

theorem transaction_body_error_rolls_back:
  assumes "uninterrupted w" "quiet (body (tx_scope m))"
    and "tx_enter w m tr = (Inr st, t1)" "body (tx_scope m) t1 = (Inl e, t2)"
  shows "fst (with_transaction w m body tr) = Inl e
    \<and> (\<exists>n. life (snd (with_transaction w m body tr)) = life t1 @ DTransRollback # replicate n DInvalidate @ [DClose])"
  using with_transaction_cases(3,4) [where body = body, OF assms(3,4)] exit_result(1) [OF assms(1)]
    life_exit_failed [of w m st e t2] quiet_life [OF assms(2), of t1] assms(4) by simp

lemma sample_enter:
  assumes "set (map fst fails) \<subseteq> {DTransCommit}"
  shows "tx_enter (sample_env a fails) sample_tx [] =
     (Inr (env_clock (sample_env a fails) [DConnect, DSetOptions (execution_options sample_tx), DBegin,
         DExecute (TextClause ''SET LOCAL statement_timeout = 2000'') (PDict [])]),
      [DConnect, DSetOptions (execution_options sample_tx), DBegin,
         DExecute (TextClause ''SET LOCAL statement_timeout = 2000'') (PDict []), DClock])"
proof -
  have "show_int 2000 = ''2000''" by code_simp
  then have "apply_statement_timeout_sql (tm_timeout sample_tx) = Some ''SET LOCAL statement_timeout = 2000''"
    by (simp add: sample_tx_def apply_statement_timeout_sql_def timeout_ms_def)
  moreover have "execution_options sample_tx \<noteq> []" "tm_is_postgres sample_tx" "tm_lock_timeout sample_tx = None"
    by (simp_all add: sample_tx_def execution_options_def truthy_str_def)
  moreover have "map_of fails e = None" if "e \<noteq> DTransCommit" for e
    using assms that by (auto simp: map_of_eq_None_iff)
  ultimately show ?thesis by (simp add: tx_enter_def on_raise_def io_defs tx_apply_settings_def)
qed

lemma transaction_body_error_rolls_back_witness:
  "fst (with_transaction (sample_env True []) sample_tx (\<lambda>_. io_raise cancelled :: nat io) []) = Inl cancelled"
  using transaction_body_error_rolls_back [OF _ _ sample_enter [of "[]" True], of "\<lambda>_. io_raise cancelled :: nat io" cancelled]
  by (simp add: uninterrupted_def keeps_raise io_raise_def)

text \<open>C7. A connection that fails during COMMIT leaves the outcome unknown: the block raises
  \<open>DatabaseCommitUnknownError\<close> with the transaction state marked unknown, which is not retryable, and no
  rollback is attempted.\<close>

theorem commit_connection_loss_unknown:
  assumes "uninterrupted w" "quiet (body (tx_scope m))"
    and "tx_enter w m tr = (Inr st, t1)" "body (tx_scope m) t1 = (Inr x, t2)"
    and "env_answer w t2 DTransCommit = Inl exc" "is_connection_error exc"
  shows "\<exists>err. fst (with_transaction w m body tr) = Inl (DbErr err)
    \<and> err_class err = DatabaseCommitUnknownError \<and> err_transaction_state_unknown err \<and> \<not> err_retryable err
    \<and> life (snd (with_transaction w m body tr)) = life t1 @ [DTransCommit, DClose]"
proof -
  note c = tx_commit_cases(2) [OF assms(5,6), of m]
  have "fst (with_transaction w m body tr) = Inl (DbErr (commit_unknown_error m exc))"
    using with_transaction_cases(2) [where body = body, OF assms(3,4)] exit_result(2) [OF assms(1), of m st t2] c by simp
  moreover have "life (snd (with_transaction w m body tr)) = life t1 @ [DTransCommit, DClose]"
    using with_transaction_cases(1) [where body = body, OF assms(3,4)] quiet_life [OF assms(2), of t1] assms(4) c
      life_try_finally [of "tx_epilogue w m st TxCommitUnknown" "[DClose]" "io_of (Inl (DbErr (commit_unknown_error m exc)) :: unit py)" "t2 @ [DTransCommit]"]
    by (simp add: tx_exit_def commit_outcome_def error_isa_def is_subclass_def commit_unknown_error_def io_of_def)
  ultimately show ?thesis
    by (auto simp: commit_unknown_error_def new_error_state_unknown class_retryable_def)
qed

lemma commit_connection_loss_unknown_witness:
  "\<exists>err. fst (with_transaction (sample_env False [(DTransCommit, net_down)]) sample_tx (\<lambda>_. io_return (1 :: nat)) []) = Inl (DbErr err)
    \<and> err_class err = DatabaseCommitUnknownError"
  using commit_connection_loss_unknown [OF _ _ sample_enter [of "[(DTransCommit, net_down)]" False],
      of "\<lambda>_. io_return 1" "1 :: nat" _ net_down]
  by (simp add: uninterrupted_def keeps_return io_return_def is_connection_error_def net_down_def) blast

text \<open>A cancellation that arrives during COMMIT is swallowed: the block raises a plain
  \<open>DatabaseError\<close> that does not say that the state is unknown, and the connection goes back to the pool
  without being invalidated.\<close>

theorem cancelled_commit_swallowed:
  assumes "uninterrupted w" "quiet (body (tx_scope m))"
    and "tx_enter w m tr = (Inr st, t1)" "body (tx_scope m) t1 = (Inr x, t2)"
    and "env_answer w t2 DTransCommit = Inl (Foreign (plain_exn [CCancelledError] msg))"
  shows "\<exists>err. fst (with_transaction w m body tr) = Inl (DbErr err)
    \<and> err_class err = DatabaseError \<and> \<not> err_transaction_state_unknown err
    \<and> life (snd (with_transaction w m body tr)) = life t1 @ [DTransCommit, DTransRollback, DClose]"
proof -
  let ?exc = "Foreign (plain_exn [CCancelledError] msg)"
  have nc: "\<not> is_connection_error ?exc" by (simp add: is_connection_error_def)
  note snd_c = tx_commit_cases(3) [OF assms(5) nc, of m]
  have fst_c: "fst (tx_commit w m t2) = Inl (DbErr (classify ?exc (tx_context m)))"
    using assms(5) nc uninterrupted_suppress [OF assms(1), of DTransRollback "t2 @ [DTransCommit]"]
    by (auto simp: tx_commit_def try_except_def io_then_def io_bind_def io_raise_def perform_def split: prod.split)
  then have c: "tx_commit w m t2 = (Inl (DbErr (classify ?exc (tx_context m))), t2 @ [DTransCommit, DTransRollback])"
    using snd_c by (cases "tx_commit w m t2") simp
  have cls: "classified_class ?exc = DatabaseError"
    by (simp add: classified_class_def class_of_foreign_def from_sqlalchemy_type_def sqlstate_of_def
        looks_like_dbapi_def extract_sqlstate_def plain_exn_def isinstance_def error_class_for_sqlstate_def truthy_str_def)
  have "fst (with_transaction w m body tr) = Inl (DbErr (classify ?exc (tx_context m)))"
    using with_transaction_cases(2) [where body = body, OF assms(3,4)] exit_result(2) [OF assms(1), of m st t2] fst_c by simp
  moreover have "life (snd (with_transaction w m body tr)) = life t1 @ [DTransCommit, DTransRollback, DClose]"
    using with_transaction_cases(1) [where body = body, OF assms(3,4)] quiet_life [OF assms(2), of t1] assms(4) c
      life_try_finally [of "tx_epilogue w m st (commit_outcome (Inl (DbErr (classify ?exc (tx_context m)))))" "[DClose]"
        "io_of (Inl (DbErr (classify ?exc (tx_context m))) :: unit py)" "t2 @ [DTransCommit, DTransRollback]"]
    by (simp add: tx_exit_def io_of_def)
  ultimately show ?thesis
    using cls by (simp add: classify_class classify_foreign_state_unknown)
qed

lemma cancelled_commit_swallowed_witness:
  "\<exists>err. fst (with_transaction (sample_env True [(DTransCommit, cancelled)]) sample_tx (\<lambda>_. io_return (1 :: nat)) []) = Inl (DbErr err)
    \<and> err_class err = DatabaseError"
  using cancelled_commit_swallowed [OF _ _ sample_enter [of "[(DTransCommit, cancelled)]" True],
      of "\<lambda>_. io_return 1" "1 :: nat" _ "''cancelled''"]
  by (simp add: uninterrupted_def keeps_return io_return_def cancelled_def) blast

text \<open>A transaction that runs one statement of the scope, inside a savepoint, gives its connection
  back whatever the statement, the savepoint or the driver does.\<close>

theorem statement_in_savepoint_closes:
  assumes "rollback_uninterrupted w"
  shows "\<exists>L. life (snd (with_transaction w m (\<lambda>cs. savepoint w (execute w cs q ps)) tr)) = life tr @ L
    \<and> (closed_once L \<or> (L = [DConnect] \<and> (\<exists>x. env_answer w tr DConnect = Inl x)))"
  by (rule with_transaction_closed [OF assms execute_body.savepoint_quiet])

lemma statement_in_savepoint_closes_witness:
  "\<exists>L. life (snd (with_transaction (sample_env True [(DNestedCommit, net_down)]) sample_tx
      (\<lambda>cs. savepoint (sample_env True [(DNestedCommit, net_down)])
         (execute (sample_env True [(DNestedCommit, net_down)]) cs (AStatement (TextClause ''SELECT 1'')) None)) [])) = life [] @ L
    \<and> (closed_once L \<or> (L = [DConnect] \<and> (\<exists>x. env_answer (sample_env True [(DNestedCommit, net_down)]) [] DConnect = Inl x)))"
  by (rule statement_in_savepoint_closes) (simp add: rollback_uninterrupted_def)

end
