(* ===== verification/Engine.thy ===== *)
theory Engine
  imports Config Routing "HOL-Library.Multiset"
begin

text \<open>
  Engine keys (\<^verbatim>\<open>_core/keys.py\<close>) and the engine registry
  (\<^verbatim>\<open>_async/engine.py\<close> and its twin). SQLAlchemy's \<^verbatim>\<open>create_engine\<close> is
  the parameter \<open>create\<close>: from the URL and the keyword arguments it makes an engine, named by a
  number, or raises. Every operation takes the clock reading it makes and yields, besides its result and
  the new registry, the engines it disposes. The critical sections of the registry's lock are atomic.
\<close>

subsection \<open>Keys\<close>

record engine_key =
  ek_environment :: string
  ek_database :: string
  ek_shard_id :: string
  ek_role :: string
  ek_driver :: string

definition key_text :: "engine_key \<Rightarrow> string" where
  "key_text k = ek_environment k @ '':'' @ ek_database k @ '':'' @ ek_shard_id k @ '':''
     @ ek_role k @ '':'' @ ek_driver k"

subsection \<open>Building engines\<close>

datatype arg =
    ArgInt int
  | ArgReal real
  | ArgBool bool
  | ArgStr "string option"
  | ArgNullPool
  | ArgDict "(string \<times> arg) list"

definition connect_args :: "string \<Rightarrow> pool_config \<Rightarrow> (string \<times> arg) list" where
  "connect_args drv pool =
     (if drv = ''psycopg'' \<or> drv = ''psycopg2'' then
        [(''connect_timeout'', ArgInt \<lfloor>max (pool_connect_timeout_seconds pool) 1\<rfloor>)]
        @ (if pool_pgbouncer_compatible pool then [(''prepare_threshold'', ArgStr None)] else [])
      else if drv = ''asyncpg'' then
        [(''timeout'', ArgReal (pool_connect_timeout_seconds pool))]
        @ (if pool_pgbouncer_compatible pool then [(''statement_cache_size'', ArgInt 0)] else [])
      else [])"

definition engine_kwargs :: "string \<Rightarrow> pool_config \<Rightarrow> (string \<times> arg) list" where
  "engine_kwargs drv pool =
     [(''connect_args'', ArgDict (connect_args drv pool)), (''pool_pre_ping'', ArgBool (pool_pre_ping pool))]
     @ (if pool_disable_pooling pool then [(''poolclass'', ArgNullPool)]
        else
          [(''pool_size'', ArgInt (pool_size pool)),
           (''max_overflow'', ArgInt (pool_max_overflow pool)),
           (''pool_timeout'', ArgReal (pool_timeout_seconds pool)),
           (''pool_recycle'', ArgInt (pool_recycle_seconds pool)),
           (''pool_use_lifo'', ArgBool (pool_use_lifo pool)),
           (''pool_reset_on_return'',
              ArgStr (if pool_reset_on_return pool = Some ''none'' then None else pool_reset_on_return pool))])"

definition exn_text :: "raised \<Rightarrow> string" where
  "exn_text e = (case e of Foreign x \<Rightarrow> exn_str x | DbErr d \<Rightarrow> err_message d)"

type_synonym creator = "string \<Rightarrow> (string \<times> arg) list \<Rightarrow> nat py"

definition build_engine :: "creator \<Rightarrow> dbkit_config \<Rightarrow> target_config \<Rightarrow> nat py" where
  "build_engine create cfg t =
     (let pool = resolved_pool t (defaults cfg) in
      sum_bind (driver t) (\<lambda>drv.
        case create (t_url t) (engine_kwargs drv pool) of
          Inr e \<Rightarrow> Inr e
        | Inl e \<Rightarrow> raise_db DatabaseConfigurationError
            (''failed to create engine for '' @ quoted (t_name t) @ '': '' @ exn_text e)))"

subsection \<open>The registry\<close>

record engine_entry =
  ee_key :: engine_key
  ee_engine :: nat
  ee_target :: target_config
  ee_labels :: "(string, string) dict"
  ee_last_used :: real

record engine_registry =
  rg_config :: dbkit_config
  rg_max_engines :: "int option"
  rg_evict_lru :: bool
  rg_entries :: "(string, engine_entry) dict"

definition new_registry :: "dbkit_config \<Rightarrow> int option \<Rightarrow> bool \<Rightarrow> engine_registry" where
  "new_registry cfg mx evict =
     \<lparr>rg_config = cfg, rg_max_engines = mx, rg_evict_lru = evict, rg_entries = []\<rparr>"

definition engine_count :: "engine_registry \<Rightarrow> nat" where
  "engine_count r = length (rg_entries r)"

definition target_for :: "dbkit_config \<Rightarrow> route \<Rightarrow> target_config py" where
  "target_for cfg rt =
     (case dict_get (databases cfg) (rt_database rt) of
        None \<Rightarrow> raise_db DatabaseRoutingError (''unknown database '' @ quoted (rt_database rt))
      | Some db \<Rightarrow>
          if rt_role rt = Replica then
            (case find (\<lambda>t. Some (t_name t) = rt_replica_name rt) (db_replicas db) of
               Some t \<Rightarrow> Inr t
             | None \<Rightarrow> raise_db DatabaseRoutingError
                 (''unknown replica '' @ (case rt_replica_name rt of Some n \<Rightarrow> quoted n | None \<Rightarrow> ''None'')
                     @ '' for database '' @ quoted (rt_database rt)))
          else Inr (db_primary db))"

definition replica_text :: "string option \<Rightarrow> string" where
  "replica_text n = (case n of None \<Rightarrow> ''None'' | Some s \<Rightarrow> s)"

definition key_for :: "dbkit_config \<Rightarrow> route \<Rightarrow> target_config \<Rightarrow> engine_key py" where
  "key_for cfg rt t =
     sum_bind (driver t) (\<lambda>drv. Inr
       \<lparr>ek_environment = environment cfg, ek_database = rt_database rt, ek_shard_id = rt_shard_id rt,
        ek_role = (if rt_role rt = Primary then ''primary'' else ''replica:'' @ replica_text (rt_replica_name rt)),
        ek_driver = drv\<rparr>)"

text \<open>\<^verbatim>\<open>min\<close> over the entries in order keeps the first of the least recently used.\<close>

fun oldest :: "(string, engine_entry) dict \<Rightarrow> (string \<times> engine_entry) option" where
  "oldest [] = None"
| "oldest (x # xs) =
     (case oldest xs of
        None \<Rightarrow> Some x
      | Some y \<Rightarrow> if ee_last_used (snd x) \<le> ee_last_used (snd y) then Some x else Some y)"

definition pop_lru :: "engine_registry \<Rightarrow> engine_entry option \<times> engine_registry" where
  "pop_lru r =
     (case oldest (rg_entries r) of
        None \<Rightarrow> (None, r)
      | Some (k, e) \<Rightarrow> (Some e, r\<lparr>rg_entries := dict_pop k (rg_entries r)\<rparr>))"

definition touch :: "string \<Rightarrow> real \<Rightarrow> engine_registry \<Rightarrow> engine_registry" where
  "touch k t r =
     (case dict_get (rg_entries r) k of
        None \<Rightarrow> r
      | Some e \<Rightarrow> r\<lparr>rg_entries := dict_set k (e\<lparr>ee_last_used := t\<rparr>) (rg_entries r)\<rparr>)"

definition entry_labels :: "engine_key \<Rightarrow> (string, string) dict" where
  "entry_labels k = [(''environment'', ek_environment k), (''database'', ek_database k),
     (''shard'', ek_shard_id k), (''role'', ek_role k)]"

text \<open>The slow path, under the lock, for a key that is not cached: make room, build, insert. The victim is
  disposed only when all of it went well.\<close>

definition insert_engine ::
  "creator \<Rightarrow> real \<Rightarrow> engine_key \<Rightarrow> target_config \<Rightarrow> engine_registry \<Rightarrow> engine_entry py \<times> nat list \<times> engine_registry" where
  "insert_engine create t key tgt r =
     (let full = (case rg_max_engines r of None \<Rightarrow> False | Some n \<Rightarrow> int (length (rg_entries r)) \<ge> n) in
      if full \<and> \<not> rg_evict_lru r then
        (raise_db DatabaseConfigurationError
           (''engine limit reached ('' @ (case rg_max_engines r of Some n \<Rightarrow> show_int n | None \<Rightarrow> ''None'')
              @ ''); cannot create '' @ quoted (key_text key)), [], r)
      else
        (case (if full then pop_lru r else (None, r)) of (victim, r1) \<Rightarrow>
           case build_engine create (rg_config r) tgt of
             Inl e \<Rightarrow> (Inl e, [], r1)
           | Inr eng \<Rightarrow>
               (let entry = \<lparr>ee_key = key, ee_engine = eng, ee_target = tgt, ee_labels = entry_labels key, ee_last_used = t\<rparr>
                in (Inr entry, (case victim of None \<Rightarrow> [] | Some v \<Rightarrow> [ee_engine v]),
                    r1\<lparr>rg_entries := dict_set (key_text key) entry (rg_entries r1)\<rparr>))))"

definition registry_get_engine ::
  "creator \<Rightarrow> real \<Rightarrow> route \<Rightarrow> engine_registry \<Rightarrow> engine_entry py \<times> nat list \<times> engine_registry" where
  "registry_get_engine create t rt r =
     (case sum_bind (target_for (rg_config r) rt) (\<lambda>tgt.
             sum_bind (key_for (rg_config r) rt tgt) (\<lambda>key. Inr (tgt, key))) of
        Inl e \<Rightarrow> (Inl e, [], r)
      | Inr (tgt, key) \<Rightarrow>
          (case dict_get (rg_entries r) (key_text key) of
             Some entry \<Rightarrow> (Inr (entry\<lparr>ee_last_used := t\<rparr>), [], touch (key_text key) t r)
           | None \<Rightarrow> insert_engine create t key tgt r))"

definition dispose_one :: "string \<Rightarrow> engine_registry \<Rightarrow> bool \<times> nat list \<times> engine_registry" where
  "dispose_one k r =
     (case dict_get (rg_entries r) k of
        None \<Rightarrow> (False, [], r)
      | Some e \<Rightarrow> (True, [ee_engine e], r\<lparr>rg_entries := dict_pop k (rg_entries r)\<rparr>))"

definition dispose_database :: "string \<Rightarrow> engine_registry \<Rightarrow> nat \<times> nat list \<times> engine_registry" where
  "dispose_database db r =
     (let victims = filter (\<lambda>(k, e). ek_database (ee_key e) = db) (rg_entries r) in
      (length victims, map (\<lambda>(k, e). ee_engine e) victims,
       r\<lparr>rg_entries := filter (\<lambda>(k, e). ek_database (ee_key e) \<noteq> db) (rg_entries r)\<rparr>))"

definition dispose_all :: "engine_registry \<Rightarrow> nat list \<times> engine_registry" where
  "dispose_all r = (map (\<lambda>(k, e). ee_engine e) (rg_entries r), r\<lparr>rg_entries := []\<rparr>)"

subsection \<open>Runs of the registry\<close>

datatype registry_event =
    EvGet route real
  | EvDisposeOne string
  | EvDisposeDatabase string
  | EvDisposeAll

text \<open>What an event yields: the engine it hands out and the engines it disposes.\<close>

fun registry_step ::
  "creator \<Rightarrow> engine_registry \<Rightarrow> registry_event \<Rightarrow> (engine_entry py option \<times> nat list) \<times> engine_registry" where
  "registry_step create r (EvGet rt t) =
     (case registry_get_engine create t rt r of (x, ds, r') \<Rightarrow> ((Some x, ds), r'))"
| "registry_step create r (EvDisposeOne k) = (case dispose_one k r of (_, ds, r') \<Rightarrow> ((None, ds), r'))"
| "registry_step create r (EvDisposeDatabase db) = (case dispose_database db r of (_, ds, r') \<Rightarrow> ((None, ds), r'))"
| "registry_step create r EvDisposeAll = (case dispose_all r of (ds, r') \<Rightarrow> ((None, ds), r'))"

definition engine_capacity :: "engine_registry \<Rightarrow> nat" where
  "engine_capacity r = (case rg_max_engines r of None \<Rightarrow> 0 | Some n \<Rightarrow> max 1 (nat n))"

text \<open>Each cached engine is filed under its own key, and the cap holds when there is one.\<close>

definition filed :: "(string, engine_entry) dict \<Rightarrow> bool" where
  "filed d \<longleftrightarrow> dict_wf d \<and> (\<forall>(k, e) \<in> set d. k = key_text (ee_key e))"

definition registry_ok :: "engine_registry \<Rightarrow> bool" where
  "registry_ok r \<longleftrightarrow> filed (rg_entries r)
     \<and> (rg_max_engines r \<noteq> None \<longrightarrow> length (rg_entries r) \<le> engine_capacity r)"

lemma oldest_in: "oldest xs = Some x \<Longrightarrow> x \<in> set xs"
  by (induction xs arbitrary: x) (auto split: option.splits if_splits)

lemma oldest_None: "oldest xs = None \<longleftrightarrow> xs = []"
  by (cases xs) (auto split: option.splits)

lemma oldest_least: "oldest xs = Some x \<Longrightarrow> y \<in> set xs \<Longrightarrow> ee_last_used (snd x) \<le> ee_last_used (snd y)"
proof (induction xs arbitrary: x y)
  case Nil
  then show ?case by simp
next
  case (Cons z xs)
  show ?case
  proof (cases "oldest xs")
    case None
    with Cons.prems show ?thesis by (simp add: oldest_None)
  next
    case (Some o1)
    have le: "\<And>y. y \<in> set xs \<Longrightarrow> ee_last_used (snd o1) \<le> ee_last_used (snd y)"
      using Cons.IH [OF Some] by blast
    have x: "x = (if ee_last_used (snd z) \<le> ee_last_used (snd o1) then z else o1)"
      using Cons.prems(1) Some by (simp split: if_splits)
    show ?thesis
    proof (cases "y = z")
      case False
      with Cons.prems(2) have "y \<in> set xs" by simp
      from le [OF this] show ?thesis by (simp add: x)
    qed (simp add: x)
  qed
qed

lemma set_dict_set: "set (dict_set k v d) \<subseteq> insert (k, v) (set d)"
  by (induction d) auto

lemma set_dict_pop: "set (dict_pop k d) \<subseteq> set d"
  by (auto simp: AList.delete_eq)

lemma filed_set: "filed d \<Longrightarrow> k = key_text (ee_key e) \<Longrightarrow> filed (dict_set k e d)"
  using set_dict_set [of k e d] by (auto simp: filed_def)

lemma filed_pop: "filed d \<Longrightarrow> filed (dict_pop k d)"
  using set_dict_pop [of k d] by (auto simp: filed_def)

lemma filed_filter: "filed d \<Longrightarrow> filed (filter P d)"
  by (auto simp: filed_def dict_wf_def distinct_map intro: inj_on_subset)

lemma filed_key: "filed d \<Longrightarrow> dict_get d k = Some e \<Longrightarrow> k = key_text (ee_key e)"
  by (auto simp: filed_def dest: map_of_SomeD)

lemma touch_simps [simp]:
  "rg_config (touch k t r) = rg_config r" "rg_max_engines (touch k t r) = rg_max_engines r"
  "rg_evict_lru (touch k t r) = rg_evict_lru r" "length (rg_entries (touch k t r)) = length (rg_entries r)"
  by (simp_all add: touch_def length_dict_set split: option.split)

lemma touch_ok: "registry_ok r \<Longrightarrow> registry_ok (touch k t r)"
proof -
  assume ok: "registry_ok r"
  have "filed (rg_entries (touch k t r))"
  proof (cases "dict_get (rg_entries r) k")
    case (Some e)
    with ok have "k = key_text (ee_key e)" by (auto simp: registry_ok_def dest: filed_key)
    with Some ok show ?thesis by (simp add: touch_def registry_ok_def filed_set)
  qed (use ok in \<open>simp add: touch_def registry_ok_def\<close>)
  with ok show ?thesis by (simp add: registry_ok_def engine_capacity_def)
qed

text \<open>Making room: the least recently used engine leaves, and the rest stays.\<close>

lemma pop_lru_cases:
  "rg_entries r = [] \<Longrightarrow> pop_lru r = (None, r)"
  "filed (rg_entries r) \<Longrightarrow> rg_entries r \<noteq> [] \<Longrightarrow>
     \<exists>k v. pop_lru r = (Some v, r\<lparr>rg_entries := dict_pop k (rg_entries r)\<rparr>) \<and> (k, v) \<in> set (rg_entries r)
       \<and> Suc (length (dict_pop k (rg_entries r))) = length (rg_entries r)
       \<and> (\<forall>(k', e) \<in> set (rg_entries r). ee_last_used v \<le> ee_last_used e)"
proof -
  show "rg_entries r = [] \<Longrightarrow> pop_lru r = (None, r)" by (simp add: pop_lru_def)
  assume f: "filed (rg_entries r)" and ne: "rg_entries r \<noteq> []"
  then obtain k v where o: "oldest (rg_entries r) = Some (k, v)"
    using oldest_None by (cases "oldest (rg_entries r)") auto
  then have mem: "(k, v) \<in> set (rg_entries r)" by (rule oldest_in)
  with f have "dict_get (rg_entries r) k = Some v" by (simp add: filed_def dict_wf_def)
  with f have "Suc (length (dict_pop k (rg_entries r))) = length (rg_entries r)"
    by (intro length_dict_pop) (simp_all add: filed_def)
  with o mem show "\<exists>k v. pop_lru r = (Some v, r\<lparr>rg_entries := dict_pop k (rg_entries r)\<rparr>) \<and> (k, v) \<in> set (rg_entries r)
       \<and> Suc (length (dict_pop k (rg_entries r))) = length (rg_entries r)
       \<and> (\<forall>(k', e) \<in> set (rg_entries r). ee_last_used v \<le> ee_last_used e)"
    using oldest_least [OF o] by (intro exI [of _ k] exI [of _ v]) (auto simp: pop_lru_def)
qed

lemma insert_engine_ok:
  assumes ok: "registry_ok r" and new: "dict_get (rg_entries r) (key_text key) = None"
  shows "registry_ok (snd (snd (insert_engine create t key tgt r)))"
proof -
  let ?full = "case rg_max_engines r of None \<Rightarrow> False | Some n \<Rightarrow> int (length (rg_entries r)) \<ge> n"
  obtain victim r1 where room: "(if ?full then pop_lru r else (None, r)) = (victim, r1)" by (cases "if ?full then pop_lru r else (None, r)")
  have r1: "filed (rg_entries r1) \<and> rg_max_engines r1 = rg_max_engines r
      \<and> (rg_max_engines r \<noteq> None \<longrightarrow> Suc (length (rg_entries r1)) \<le> engine_capacity r)"
  proof (cases ?full)
    case False
    then show ?thesis
      using room ok by (auto simp: registry_ok_def engine_capacity_def split: option.splits)
  next
    case True
    show ?thesis
    proof (cases "rg_entries r = []")
      case True
      then show ?thesis
        using room \<open>?full\<close> ok by (auto simp: pop_lru_cases registry_ok_def engine_capacity_def split: option.splits)
    next
      case False
      have f: "filed (rg_entries r)" using ok by (simp add: registry_ok_def)
      from pop_lru_cases(2) [OF f False] room \<open>?full\<close>
      have "\<exists>k. r1 = r\<lparr>rg_entries := dict_pop k (rg_entries r)\<rparr> \<and> Suc (length (dict_pop k (rg_entries r))) = length (rg_entries r)"
        by auto
      then show ?thesis using f ok by (auto simp: filed_pop registry_ok_def)
    qed
  qed
  have small: "registry_ok r1"
    using r1 by (auto simp: registry_ok_def engine_capacity_def split: option.splits)
  have grown: "registry_ok (r1\<lparr>rg_entries := dict_set (key_text key) e (rg_entries r1)\<rparr>)" if "ee_key e = key" for e
  proof -
    have "length (dict_set (key_text key) e (rg_entries r1)) \<le> Suc (length (rg_entries r1))"
      by (rule length_dict_set_le)
    with r1 that show ?thesis
      by (auto simp: registry_ok_def filed_set engine_capacity_def split: option.splits)
  qed
  show ?thesis
    unfolding insert_engine_def Let_def room
    using ok small grown by (auto split: sum.split)
qed

lemma registry_step_ok: "registry_ok r \<Longrightarrow> registry_ok (snd (registry_step create r ev))"
proof (induction ev rule: registry_event.induct)
  case (EvGet rt t)
  then show ?case
    using insert_engine_ok [OF EvGet] touch_ok [OF EvGet]
    by (auto simp: registry_get_engine_def split: sum.split prod.split option.split)
      (metis prod.sel(2))+
next
  case (EvDisposeOne k)
  then show ?case
    using length_dict_pop_le [of k "rg_entries r"]
    by (auto simp: dispose_one_def registry_ok_def filed_pop engine_capacity_def split: option.split)
next
  case (EvDisposeDatabase db)
  then show ?case
    by (auto intro: order_trans [OF length_filter_le] simp: dispose_database_def Let_def registry_ok_def filed_filter engine_capacity_def split: option.split)
next
  case EvDisposeAll
  then show ?case by (simp add: dispose_all_def registry_ok_def filed_def engine_capacity_def)
qed

lemma registry_step_config:
  "rg_max_engines (snd (registry_step create r ev)) = rg_max_engines r"
  by (cases ev)
    (auto simp: registry_get_engine_def insert_engine_def pop_lru_def dispose_one_def dispose_database_def
      dispose_all_def Let_def split: sum.split prod.split option.split)

interpretation engines: bounded_store "registry_step create" "\<lambda>r. registry_ok r \<and> rg_max_engines r \<noteq> None"
    engine_count engine_capacity
  for create
  by unfold_locales
    (simp_all add: registry_step_ok registry_step_config engine_capacity_def,
     auto simp: registry_ok_def engine_count_def engine_capacity_def)

subsection \<open>No engine is lost\<close>

definition live :: "engine_registry \<Rightarrow> nat multiset" where
  "live r = mset (map (\<lambda>(k, e). ee_engine e) (rg_entries r))"

lemma live_pop:
  "filed d \<Longrightarrow> dict_get d k = Some e \<Longrightarrow>
     mset (map (\<lambda>(k, e). ee_engine e) d) = add_mset (ee_engine e) (mset (map (\<lambda>(k, e). ee_engine e) (dict_pop k d)))"
proof (induction d)
  case Nil
  then show ?case by simp
next
  case (Cons x d)
  have f: "filed d" using Cons.prems(1) by (auto simp: filed_def dict_wf_def)
  show ?case
  proof (cases "fst x = k")
    case True
    with Cons.prems have "dict_get d k = None" by (cases x) (auto simp: filed_def dict_wf_def map_of_eq_None_iff)
    with True Cons.prems(2) show ?thesis by (cases x) (simp add: dict_pop_fresh)
  next
    case False
    with Cons.IH [OF f] Cons.prems(2) show ?thesis by (cases x) simp
  qed
qed

lemma live_set_new:
  "dict_get d k = None \<Longrightarrow> mset (map (\<lambda>(k, e). ee_engine e) (dict_set k e d)) =
     add_mset (ee_engine e) (mset (map (\<lambda>(k, e). ee_engine e) d))"
  by (simp add: dict_set_new)

lemma live_set_same:
  "dict_get d k = Some e \<Longrightarrow> ee_engine e' = ee_engine e \<Longrightarrow>
     mset (map (\<lambda>(k, e). ee_engine e) (dict_set k e' d)) = mset (map (\<lambda>(k, e). ee_engine e) d)"
  by (induction d) auto

lemma live_touch: "live (touch k t r) = live r"
  by (auto simp: live_def touch_def live_set_same simp del: mset_map split: option.split)

definition total_creator :: "creator \<Rightarrow> bool" where
  "total_creator create \<longleftrightarrow> (\<forall>url kw. \<exists>e. create url kw = Inr e)"

lemma build_total:
  assumes "total_creator create" "driver t = Inr d"
  shows "\<exists>e. build_engine create cfg t = Inr e"
proof -
  obtain e where "create (t_url t) (engine_kwargs d (resolved_pool t (defaults cfg))) = Inr e"
    using assms(1) unfolding total_creator_def by blast
  with assms(2) show ?thesis by (simp add: build_engine_def Let_def)
qed

lemma live_insert:
  assumes tot: "total_creator create" and ok: "registry_ok r"
    and new: "dict_get (rg_entries r) (key_text key) = None" and d: "driver tgt = Inr d"
  shows "case insert_engine create t key tgt r of (x, ds, r') \<Rightarrow> live r \<subseteq># live r' + mset ds"
proof -
  let ?full = "case rg_max_engines r of None \<Rightarrow> False | Some n \<Rightarrow> int (length (rg_entries r)) \<ge> n"
  obtain eng where eng: "\<And>c. c = rg_config r \<Longrightarrow> build_engine create c tgt = Inr eng"
    using build_total [OF tot d, of "rg_config r"] by auto
  obtain victim r1 where room: "(if ?full then pop_lru r else (None, r)) = (victim, r1)"
    by (cases "if ?full then pop_lru r else (None, r)")
  have r1: "live r = live r1 + mset (case victim of None \<Rightarrow> [] | Some v \<Rightarrow> [ee_engine v])
      \<and> rg_config r1 = rg_config r \<and> dict_get (rg_entries r1) (key_text key) = None"
  proof (cases "?full \<and> rg_entries r \<noteq> []")
    case False
    then show ?thesis using room new pop_lru_cases(1) [of r] by (auto split: if_splits)
  next
    case True
    have f: "filed (rg_entries r)" using ok by (simp add: registry_ok_def)
    from pop_lru_cases(2) [OF f] True room obtain k v where
      kv: "victim = Some v" "r1 = r\<lparr>rg_entries := dict_pop k (rg_entries r)\<rparr>" "(k, v) \<in> set (rg_entries r)" by auto
    with f have "dict_get (rg_entries r) k = Some v" by (simp add: filed_def dict_wf_def)
    with live_pop [OF f this] kv new show ?thesis by (simp add: live_def dict_get_pop)
  qed
  show ?thesis
  proof (cases "?full \<and> \<not> rg_evict_lru r")
    case True
    then show ?thesis unfolding insert_engine_def Let_def by simp
  next
    case False
    let ?e = "\<lparr>ee_key = key, ee_engine = eng, ee_target = tgt, ee_labels = entry_labels key, ee_last_used = t\<rparr>"
    have "insert_engine create t key tgt r = (Inr ?e, (case victim of None \<Rightarrow> [] | Some v \<Rightarrow> [ee_engine v]),
        r1\<lparr>rg_entries := dict_set (key_text key) ?e (rg_entries r1)\<rparr>)"
      using False eng r1 unfolding insert_engine_def Let_def room by simp
    moreover have "live (r1\<lparr>rg_entries := dict_set (key_text key) ?e (rg_entries r1)\<rparr>) = add_mset eng (live r1)"
      using r1 by (simp add: live_def live_set_new del: mset_map)
    ultimately show ?thesis using r1 by simp
  qed
qed

lemma live_step:
  assumes tot: "total_creator create" and ok: "registry_ok r"
  shows "live r \<subseteq># live (snd (registry_step create r ev)) + mset (snd (fst (registry_step create r ev)))"
proof (cases ev)
  case (EvGet rt t)
  show ?thesis
  proof (cases "sum_bind (target_for (rg_config r) rt) (\<lambda>tgt. sum_bind (key_for (rg_config r) rt tgt) (\<lambda>key. Inr (tgt, key)))")
    case (Inl e)
    then show ?thesis by (simp add: EvGet registry_get_engine_def)
  next
    case (Inr p)
    obtain tgt key where p: "p = (tgt, key)" by (cases p)
    with Inr obtain d where d: "driver tgt = Inr d"
      by (auto simp: sum_bind_Inr_iff key_for_def)
    show ?thesis
    proof (cases "dict_get (rg_entries r) (key_text key)")
      case None
      from live_insert [OF tot ok None d, of t] Inr p None show ?thesis
        by (simp add: EvGet registry_get_engine_def split: prod.splits)
    qed (use Inr p in \<open>simp add: EvGet registry_get_engine_def live_touch\<close>)
  qed
next
  case (EvDisposeOne k)
  then show ?thesis
    using ok live_pop [of "rg_entries r" k]
    by (auto simp: dispose_one_def live_def registry_ok_def split: option.split)
next
  case (EvDisposeDatabase db)
  have "mset (map (\<lambda>(k, e). ee_engine e) d) =
      mset (map (\<lambda>(k, e). ee_engine e) (filter (\<lambda>(k, e). ek_database (ee_key e) \<noteq> db) d))
      + mset (map (\<lambda>(k, e). ee_engine e) (filter (\<lambda>(k, e). ek_database (ee_key e) = db) d))"
    for d :: "(string, engine_entry) dict"
    by (induction d) auto
  from this [of "rg_entries r"] show ?thesis
    by (simp add: EvDisposeDatabase dispose_database_def live_def Let_def)
next
  case EvDisposeAll
  then show ?thesis by (simp add: dispose_all_def live_def)
qed

lemma live_run:
  assumes "total_creator create" "registry_ok r"
  shows "live r \<subseteq># live (snd (run_steps (registry_step create) r evs))
    + mset (concat (map snd (fst (run_steps (registry_step create) r evs))))"
  using assms(2)
proof (induction evs arbitrary: r)
  case Nil
  then show ?case by simp
next
  case (Cons ev evs)
  let ?s = "registry_step create r ev"
  have "live r \<subseteq># live (snd ?s) + mset (snd (fst ?s))" by (rule live_step [OF assms(1) Cons.prems])
  also have "\<dots> \<subseteq># live (snd (run_steps (registry_step create) (snd ?s) evs))
      + mset (concat (map snd (fst (run_steps (registry_step create) (snd ?s) evs)))) + mset (snd (fst ?s))"
    using Cons.IH [OF registry_step_ok [OF Cons.prems]] by simp
  finally show ?case by (simp add: ac_simps)
qed

subsection \<open>Keys are faithful\<close>

definition plain :: "string \<Rightarrow> bool" where
  "plain s \<longleftrightarrow> CHR '':'' \<notin> set s"

lemma plain_split:
  assumes "plain a" "plain b" "a @ '':'' @ x = b @ '':'' @ y"
  shows "a = b \<and> x = y"
proof -
  have t: "takeWhile (\<lambda>c. c \<noteq> CHR '':'') (s @ '':'' @ z) = s" if "plain s" for s z
    using that by (induction s) (auto simp: plain_def)
  from t [OF assms(1), of x] t [OF assms(2), of y] assms(3) have "a = b" by simp
  with assms(3) show ?thesis by simp
qed

text \<open>The two forms of a role.\<close>

definition key_role :: "string option \<Rightarrow> string" where
  "key_role n = (case n of None \<Rightarrow> ''primary'' | Some r \<Rightarrow> ''replica:'' @ r)"

lemma role_driver_inj:
  assumes "\<And>x. n = Some x \<Longrightarrow> plain x" "\<And>x. n' = Some x \<Longrightarrow> plain x"
    and eq: "key_role n @ '':'' @ d = key_role n' @ '':'' @ d'"
  shows "n = n' \<and> d = d'"
proof -
  have pl: "plain ''primary''" "plain ''replica''" by (simp_all add: plain_def)
  show ?thesis
  proof (cases n)
    case None
    show ?thesis
    proof (cases n')
      case n': None
      with None eq show ?thesis by (simp add: key_role_def)
    next
      case (Some x')
      have "''primary'' @ '':'' @ d = ''replica'' @ '':'' @ (x' @ '':'' @ d')"
        using eq None Some by (simp add: key_role_def)
      from plain_split [OF pl this] show ?thesis by simp
    qed
  next
    case n: (Some x)
    show ?thesis
    proof (cases n')
      case None
      have "''replica'' @ '':'' @ (x @ '':'' @ d) = ''primary'' @ '':'' @ d'"
        using eq None n by (simp add: key_role_def)
      from plain_split [OF pl(2,1) this] show ?thesis by simp
    next
      case (Some x')
      have "x @ '':'' @ d = x' @ '':'' @ d'" using eq n Some by (simp add: key_role_def)
      from plain_split [OF _ _ this] assms(1,2) n Some show ?thesis by blast
    qed
  qed
qed

subsection \<open>Properties\<close>

text \<open>C37. The engine cap: from an empty registry with a cap, no sequence of lookups, disposals and
  evictions ever has more live engines than the cap (at least one).\<close>

theorem engine_cap_respected:
  "engine_count (snd (run_steps (registry_step create) (new_registry cfg (Some n) evict) evs)) \<le> max 1 (nat n)"
  using engines.run_bounded [of "new_registry cfg (Some n) evict" create evs]
  by (simp add: new_registry_def registry_ok_def filed_def engine_capacity_def)

text \<open>No engine is lost: when the driver builds every engine it is asked for, each engine that was live
  at the start of a run is still live at its end or was disposed during it, counted with multiplicity.\<close>

theorem no_engine_lost:
  assumes "total_creator create" "registry_ok r"
  shows "live r \<subseteq># live (snd (run_steps (registry_step create) r evs))
    + mset (concat (map snd (fst (run_steps (registry_step create) r evs))))"
  using assms by (rule live_run)

definition sample_entry :: "nat \<Rightarrow> engine_entry" where
  "sample_entry n =
     \<lparr>ee_key = \<lparr>ek_environment = ''e'', ek_database = ''old'', ek_shard_id = ''s'', ek_role = ''primary'', ek_driver = ''d''\<rparr>,
      ee_engine = n, ee_target = sample_target ''postgresql://h/db'', ee_labels = [], ee_last_used = 0\<rparr>"

definition full_registry :: engine_registry where
  "full_registry =
     \<lparr>rg_config = sample_config None, rg_max_engines = Some 1, rg_evict_lru = True,
      rg_entries = [(key_text (ee_key (sample_entry 7)), sample_entry 7)]\<rparr>"

definition app_route :: route where
  "app_route = \<lparr>rt_database = ''app'', rt_shard_id = ''default'', rt_role = Primary, rt_replica_name = None\<rparr>"

lemma full_registry_ok: "registry_ok full_registry"
  by (simp add: registry_ok_def filed_def full_registry_def sample_entry_def engine_capacity_def dict_wf_def)

lemma no_engine_lost_witness:
  "live full_registry \<subseteq># live (snd (run_steps (registry_step (\<lambda>_ _. Inr 8)) full_registry [EvGet app_route 1]))
    + mset (concat (map snd (fst (run_steps (registry_step (\<lambda>_ _. Inr 8)) full_registry [EvGet app_route 1]))))"
  by (rule no_engine_lost) (simp_all add: total_creator_def full_registry_ok)

text \<open>A failed build loses the victim: when the registry is full, evicts, and building the new engine
  fails, the least recently used engine has left the registry and is not disposed.\<close>

theorem failed_build_loses_victim:
  assumes "\<And>url kw. create url kw = Inl e"
  shows "live full_registry = {#7#}
    \<and> live (snd (registry_step create full_registry (EvGet app_route 1))) = {#}
    \<and> snd (fst (registry_step create full_registry (EvGet app_route 1))) = []"
proof -
  have split: "urlsplit ''postgresql://h/db'' = Some \<lparr>up_scheme = ''postgresql'', up_netloc = ''h'',
      up_path = ''/db'', up_query = [], up_fragment = []\<rparr>" by code_simp
  let ?t = "(sample_target ''postgresql://h/db'')\<lparr>t_pool := None\<rparr>"
  have drv: "driver ?t = Inr ''postgresql''"
    by (simp add: driver_def url_parts_py_def sample_target_def split partition_at_def)
  have tgt: "target_for (sample_config None) app_route = Inr ?t"
    by (simp add: target_for_def sample_config_def app_route_def)
  have key: "key_for (sample_config None) app_route ?t = Inr
      \<lparr>ek_environment = ''development'', ek_database = ''app'', ek_shard_id = ''default'', ek_role = ''primary'', ek_driver = ''postgresql''\<rparr>"
    by (simp add: key_for_def drv) (simp add: app_route_def sample_config_def)
  have build: "build_engine create (sample_config None) ?t =
      raise_db DatabaseConfigurationError (''failed to create engine for '' @ quoted (t_name ?t) @ '': '' @ exn_text e)"
    by (simp add: build_engine_def drv assms Let_def)
  have "registry_step create full_registry (EvGet app_route 1) =
      ((Some (raise_db DatabaseConfigurationError (''failed to create engine for '' @ quoted (t_name ?t) @ '': '' @ exn_text e)), []),
       full_registry\<lparr>rg_entries := []\<rparr>)"
    by (simp add: registry_get_engine_def full_registry_def tgt key insert_engine_def pop_lru_def build Let_def
        key_text_def sample_entry_def raise_db_def)
  then show ?thesis by (simp add: live_def full_registry_def sample_entry_def)
qed

lemma failed_build_loses_victim_witness:
  "live (snd (registry_step (\<lambda>_ _. Inl (Foreign (plain_exn [CException] ''bad url''))) full_registry (EvGet app_route 1))) = {#}"
  using failed_build_loses_victim [of "\<lambda>_ _. Inl (Foreign (plain_exn [CException] ''bad url''))"] by blast

text \<open>Engine keys identify engines: when the environment, the database, the shard, the replica and the
  driver contain no colon, equal key strings come from equal components.\<close>

theorem engine_key_injective:
  assumes "list_all plain [e, db, sh, d, e', db', sh', d']"
    and "\<forall>x. n = Some x \<longrightarrow> plain x" "\<forall>x. n' = Some x \<longrightarrow> plain x"
    and "key_text \<lparr>ek_environment = e, ek_database = db, ek_shard_id = sh, ek_role = key_role n, ek_driver = d\<rparr>
       = key_text \<lparr>ek_environment = e', ek_database = db', ek_shard_id = sh', ek_role = key_role n', ek_driver = d'\<rparr>"
  shows "e = e' \<and> db = db' \<and> sh = sh' \<and> n = n' \<and> d = d'"
proof -
  note pl = assms(1) [simplified]
  have "e @ '':'' @ (db @ '':'' @ (sh @ '':'' @ (key_role n @ '':'' @ d)))
      = e' @ '':'' @ (db' @ '':'' @ (sh' @ '':'' @ (key_role n' @ '':'' @ d')))"
    using assms(4) by (simp add: key_text_def)
  from plain_split [OF _ _ this] pl have 1: "e = e'"
    "db @ '':'' @ (sh @ '':'' @ (key_role n @ '':'' @ d)) = db' @ '':'' @ (sh' @ '':'' @ (key_role n' @ '':'' @ d'))" by auto
  from plain_split [OF _ _ 1(2)] pl have 2: "db = db'"
    "sh @ '':'' @ (key_role n @ '':'' @ d) = sh' @ '':'' @ (key_role n' @ '':'' @ d')" by auto
  from plain_split [OF _ _ 2(2)] pl have 3: "sh = sh'" "key_role n @ '':'' @ d = key_role n' @ '':'' @ d'" by auto
  from role_driver_inj [OF _ _ 3(2)] pl assms(2,3) 1 2 3 show ?thesis by auto
qed

lemma engine_key_injective_witness:
  "''dev'' = ''dev'' \<and> ''app'' = ''app'' \<and> ''s'' = ''s'' \<and> Some ''r1'' = Some ''r1'' \<and> ''psycopg'' = ''psycopg''"
  by (rule engine_key_injective) (simp_all add: plain_def)

end
