(* ===== verification/Executor.thy ===== *)
theory Executor
  imports Resilience Transaction Engine
begin

text \<open>
  The resilient executor (\<^verbatim>\<open>_async/executor.py\<close>), the concurrency limiter
  (\<^verbatim>\<open>_async/resilience.py\<close>) and their generated twins: one breaker per engine, one limiter
  per database, the auto-commit connection scope, and an attempt composed of limiter slots, a fresh
  connection and the operation, run by \<open>run_with_retries\<close>.
\<close>

subsection \<open>The concurrency limiter\<close>

text \<open>The tiers that got a semaphore: those with a positive limit.\<close>

definition new_limiter :: "(string \<times> int option) list \<Rightarrow> (string, int) dict" where
  "new_limiter limits =
     concat (map (\<lambda>(tier, n). case n of Some k \<Rightarrow> if k > 0 then [(tier, k)] else [] | None \<Rightarrow> []) limits)"

definition limiter_acquire :: "env \<Rightarrow> (string, int) dict \<Rightarrow> string \<Rightarrow> real option \<Rightarrow> 'a io \<Rightarrow> 'a io" where
  "limiter_acquire w sems tier timeout body =
     (case dict_get sems tier of
        None \<Rightarrow> body
      | Some _ \<Rightarrow>
          io_bind (semaphore_acquire w tier timeout) (\<lambda>granted.
            if \<not> granted then
              io_of (raise_db DatabaseOverloadedError
                (''concurrency limit reached for tier '' @ quoted tier @ ''; no slot freed up within the timeout''))
            else try_finally body (emit (DRelease tier))))"

subsection \<open>Breakers and limiters\<close>

record executor =
  ex_config :: dbkit_config
  ex_breakers :: "(string, breaker) dict"
  ex_limiters :: "(string, (string, int) dict) dict"

definition executor_labels :: "env \<Rightarrow> engine_key \<Rightarrow> string \<Rightarrow> string \<Rightarrow> (string, string) dict" where
  "executor_labels w k query_name operation =
     [(''environment'', ek_environment k), (''database'', ek_database k), (''shard'', ek_shard_id k),
      (''role'', ek_role k), (''query_name'', query_name), (''operation'', operation), (''api'', API_LABEL w)]"

definition is_postgres :: "target_config \<Rightarrow> bool" where
  "is_postgres t \<longleftrightarrow> dialect t = Inr ''postgresql''"

text \<open>The name, the operation and the query of what the caller passed: anything that is not a
  \<^verbatim>\<open>Query\<close> is an ad-hoc read.\<close>

definition query_meta :: "query_obj \<Rightarrow> string \<times> string \<times> query option" where
  "query_meta q =
     (case q of
        AQuery x \<Rightarrow> (q_name x, operation_value (q_operation x), Some x)
      | AStatement _ \<Rightarrow> (''adhoc'', ''read'', None))"

definition breaker_for :: "engine_key \<Rightarrow> executor \<Rightarrow> breaker option \<times> executor" where
  "breaker_for k ex =
     (let cb = d_circuit_breaker (defaults (ex_config ex)) in
      if \<not> cb_enabled cb then (None, ex)
      else
        (case dict_get (ex_breakers ex) (key_text k) of
           Some b \<Rightarrow> (Some b, ex)
         | None \<Rightarrow>
             (let b = new_breaker (cb_failure_threshold cb) (cb_window_seconds cb) (cb_open_seconds cb)
                        (cb_half_open_max_calls cb)
              in (Some b, ex\<lparr>ex_breakers := dict_set (key_text k) b (ex_breakers ex)\<rparr>))))"

definition limits_of :: "concurrency_config \<Rightarrow> (string \<times> int option) list" where
  "limits_of cc = [(''database'', cc_database cc), (''reads'', cc_reads cc), (''writes'', cc_writes cc),
     (''bulk'', cc_bulk_writes cc), (''expensive'', cc_expensive_queries cc)]"

definition limiter_for :: "string \<Rightarrow> executor \<Rightarrow> (string, int) dict py \<times> executor" where
  "limiter_for database ex =
     (case dict_get (ex_limiters ex) database of
        Some l \<Rightarrow> (Inr l, ex)
      | None \<Rightarrow>
          (case dict_get (databases (ex_config ex)) database of
             None \<Rightarrow> (Inl (Foreign (plain_exn [CException, CKeyError] database)), ex)
           | Some db \<Rightarrow>
               (let l = new_limiter (limits_of (db_concurrency db))
                in (Inr l, ex\<lparr>ex_limiters := dict_set database l (ex_limiters ex)\<rparr>))))"

definition forget_database :: "string \<Rightarrow> executor \<Rightarrow> executor" where
  "forget_database database ex =
     (let prefix = environment (ex_config ex) @ '':'' @ database @ '':'' in
      ex\<lparr>ex_limiters := dict_pop database (ex_limiters ex),
         ex_breakers := filter (\<lambda>(k, b). take (length prefix) k \<noteq> prefix) (ex_breakers ex)\<rparr>)"

subsection \<open>The auto-commit scope\<close>

record scope_info =
  si_is_postgres :: bool
  si_key :: engine_key
  si_labels :: "(string, string) dict"
  si_query_name :: string
  si_timeout :: "real option"
  si_slow_query_ms :: real

definition acquire :: "env \<Rightarrow> scope_info \<Rightarrow> unit io" where
  "acquire w si =
     io_then
       (except_exception (perform w DConnect)
          (\<lambda>exc.
             let err = classify exc \<lparr>ctx_query_name = Some (si_query_name si),
                 ctx_database_name = dict_get (si_labels si) ''database'', ctx_shard_id = None, ctx_role = None\<rparr>
             in io_then (emit (MIncr ''db_operation_errors_total'' 1
                    (si_labels si @ [(''error_category'', category_value (err_category err))])))
                  (io_raise (DbErr err))))
       (suppress (perform w (DTag (si_query_name si))))"

definition error_metric :: "scope_info \<Rightarrow> db_error \<Rightarrow> unit io" where
  "error_metric si err =
     emit (MIncr ''db_operation_errors_total'' 1
       (si_labels si @ [(''error_category'', category_value (err_category err))]))"

definition scope_commit_error :: "scope_info \<Rightarrow> raised \<Rightarrow> db_error" where
  "scope_commit_error si exc =
     (if is_connection_error exc then
        new_error DatabaseCommitUnknownError
          ''connection failed during COMMIT; transaction outcome is unknown''
          (no_kwargs\<lparr>kw_original := Some (as_exn exc), kw_database_name := Some (ek_database (si_key si)),
                     kw_shard_id := Some (ek_shard_id (si_key si)), kw_role := Some (ek_role (si_key si)),
                     kw_query_name := Some (si_query_name si)\<rparr>)
      else
        classify exc \<lparr>ctx_query_name = Some (si_query_name si), ctx_database_name = Some (ek_database (si_key si)),
          ctx_shard_id = None, ctx_role = Some (ek_role (si_key si))\<rparr>)"

definition scope_commit :: "env \<Rightarrow> scope_info \<Rightarrow> unit io" where
  "scope_commit w si =
     try_except (io_then (perform w DConnCommit) (io_return ()))
       (\<lambda>exc.
          io_then (if is_connection_error exc then io_return () else suppress (perform w DConnRollback))
            (io_then (error_metric si (scope_commit_error si exc))
               (io_raise (DbErr (scope_commit_error si exc)))))"

definition scope_epilogue :: "env \<Rightarrow> scope_info \<Rightarrow> real \<Rightarrow> unit io" where
  "scope_epilogue w si op_start =
     io_bind (now w) (\<lambda>t.
       let duration = t - op_start in
       io_then (suppress (perform w DClose))
       (io_then (emit (MIncr ''db_operation_total'' 1 (si_labels si)))
       (io_then (emit (MObserve ''db_operation_duration_seconds'' duration (si_labels si)))
         (if duration * 1000 \<ge> si_slow_query_ms si
          then emit (LSlowQuery (si_query_name si) (duration * 1000)) else io_return ()))))"

definition scope_of_info :: "scope_info \<Rightarrow> conn_scope" where
  "scope_of_info si =
     \<lparr>cs_is_postgres = si_is_postgres si, cs_default_timeout = si_timeout si,
      cs_database = ek_database (si_key si), cs_shard_id = ek_shard_id (si_key si), cs_role = ek_role (si_key si)\<rparr>"

text \<open>\<^verbatim>\<open>async with self.scope(...) as scope: body\<close>\<close>

definition scope :: "env \<Rightarrow> scope_info \<Rightarrow> bool \<Rightarrow> (conn_scope \<Rightarrow> 'a io) \<Rightarrow> 'a io" where
  "scope w si commit body =
     io_bind (now w) (\<lambda>wait_start.
     io_then (acquire w si)
     (io_bind (now w) (\<lambda>acquired.
     io_then (emit (MObserve ''db_pool_wait_seconds'' (acquired - wait_start) (si_labels si)))
     (io_bind (now w) (\<lambda>op_start.
       try_finally
         (on_raise (body (scope_of_info si))
            (\<lambda>x. if commit then io_then (scope_commit w si) (io_return x) else io_return x)
            (\<lambda>exc.
               io_then (suppress (perform w DConnRollback))
                 (io_then (case exc of DbErr err \<Rightarrow> error_metric si err | Foreign _ \<Rightarrow> io_return ())
                    (io_raise exc))))
         (scope_epilogue w si op_start))))))"

subsection \<open>An attempt, and its retries\<close>

record call_info =
  ci_scope :: scope_info
  ci_query :: "query option"
  ci_limiter :: "(string, int) dict"
  ci_config :: dbkit_config
  ci_commit :: bool
  ci_timeout :: "real option"
  ci_deadline :: "real option"

definition default_timeout_of :: "dbkit_config \<Rightarrow> real option" where
  "default_timeout_of cfg = Some (d_query_timeout_seconds (defaults cfg))"

definition tier_of :: "query option \<Rightarrow> string" where
  "tier_of q = (if query_is_write q then ''writes'' else ''reads'')"

definition expensive :: "query option \<Rightarrow> bool" where
  "expensive q = (case q of Some x \<Rightarrow> q_expensive x | None \<Rightarrow> False)"

text \<open>The timeout of the scope is computed from the clock again, after the slots are held.\<close>

definition timed_scope :: "env \<Rightarrow> call_info \<Rightarrow> (conn_scope \<Rightarrow> 'a io) \<Rightarrow> 'a io" where
  "timed_scope w ci op =
     io_bind (now w) (\<lambda>t.
       scope w ((ci_scope ci)\<lparr>si_timeout := effective_timeout (ci_timeout ci) (ci_query ci)
            (default_timeout_of (ci_config ci)) (ci_deadline ci) t\<rparr>) (ci_commit ci) op)"

definition attempt :: "env \<Rightarrow> call_info \<Rightarrow> (conn_scope \<Rightarrow> 'a io) \<Rightarrow> 'a io" where
  "attempt w ci op =
     io_bind (now w) (\<lambda>t.
       let timeout = effective_timeout (ci_timeout ci) (ci_query ci) (default_timeout_of (ci_config ci))
                       (ci_deadline ci) t
       in limiter_acquire w (ci_limiter ci) ''database'' timeout
            (limiter_acquire w (ci_limiter ci) (tier_of (ci_query ci)) timeout
              (if expensive (ci_query ci)
               then limiter_acquire w (ci_limiter ci) ''expensive'' timeout (timed_scope w ci op)
               else timed_scope w ci op)))"

text \<open>Each attempt starts where the previous one left the environment.\<close>

fun trace_after :: "'a io \<Rightarrow> effect list \<Rightarrow> nat \<Rightarrow> effect list" where
  "trace_after m tr 0 = tr"
| "trace_after m tr (Suc n) = snd (m (trace_after m tr n))"

definition resilient_call ::
  "env \<Rightarrow> call_info \<Rightarrow> (conn_scope \<Rightarrow> 'a io) \<Rightarrow> effect list \<Rightarrow> (nat \<Rightarrow> real) \<Rightarrow> (int \<Rightarrow> real) \<Rightarrow> 'a retry_call" where
  "resilient_call w ci op tr clock rnd =
     \<lparr>rc_op = (\<lambda>i. fst (attempt w ci op (trace_after (attempt w ci op) tr (nat (i - 1))))),
      rc_query = ci_query ci, rc_config = d_retry (defaults (ci_config ci)), rc_override = None,
      rc_deadline = ci_deadline ci,
      rc_labels = \<lparr>ctx_query_name = dict_get (si_labels (ci_scope ci)) ''query_name'',
                   ctx_database_name = dict_get (si_labels (ci_scope ci)) ''database'',
                   ctx_shard_id = None, ctx_role = dict_get (si_labels (ci_scope ci)) ''role''\<rparr>,
      rc_clock = clock, rc_random = rnd\<rparr>"

text \<open>The outcome, the trace of all attempts, and the breaker afterwards.\<close>

definition execute_with_resilience ::
  "env \<Rightarrow> call_info \<Rightarrow> (conn_scope \<Rightarrow> 'a io) \<Rightarrow> (nat \<Rightarrow> real) \<Rightarrow> (int \<Rightarrow> real) \<Rightarrow> breaker option
     \<Rightarrow> effect list \<Rightarrow> 'a py \<times> effect list \<times> breaker option" where
  "execute_with_resilience w ci op clock rnd b tr =
     (case run_with_retries (resilient_call w ci op tr clock rnd) b of
        (r, s) \<Rightarrow> (r, trace_after (attempt w ci op) tr (length (attempts_of (rs_log s))), rs_breaker s))"

subsection \<open>The connection of an attempt\<close>

lemma quiet_error_metric: "quiet (error_metric si err)"
  by (auto simp: error_metric_def intro!: quiet_intros)

lemma life_suppress: "life (snd (suppress (perform w e) tr)) = life tr @ life [e]"
  by (rule life_suppress_perform)

lemma life_scope_epilogue [simp]: "life (snd (scope_epilogue w si st tr)) = life tr @ [DClose]"
proof -
  let ?tail = "\<lambda>d. io_then (emit (MIncr ''db_operation_total'' 1 (si_labels si)))
       (io_then (emit (MObserve ''db_operation_duration_seconds'' d (si_labels si)))
         (if d * 1000 \<ge> si_slow_query_ms si
          then emit (LSlowQuery (si_query_name si) (d * 1000)) else io_return ()))"
  have q: "quiet (?tail d)" for d by (auto intro!: quiet_intros)
  have step: "life (snd (io_then (suppress (perform w DClose)) (?tail d) t)) = life t @ [DClose]" for d t
  proof (cases "suppress (perform w DClose) t")
    case (Pair r t')
    then have "life t' = life t @ [DClose]" using life_suppress [of w DClose t] by simp
    with Pair keepsD [OF q, of d t'] show ?thesis by (cases r) (simp_all add: io_then_def io_bind_def)
  qed
  have "scope_epilogue w si st tr =
      io_then (suppress (perform w DClose)) (?tail (env_clock w tr - st)) (tr @ [DClock])"
    by (simp only: scope_epilogue_def io_bind_def [of "now w"] now_def Let_def prod.case sum.case)
  with step [of "env_clock w tr - st" "tr @ [DClock]"] show ?thesis by simp
qed

lemma scope_commit_life:
  "(\<exists>v. env_answer w tr DConnCommit = Inr v \<and> scope_commit w si tr = (Inr (), tr @ [DConnCommit])) \<or>
   (\<exists>e. env_answer w tr DConnCommit = Inl e \<and> (\<exists>x. fst (scope_commit w si tr) = Inl x) \<and>
      life (snd (scope_commit w si tr)) = life tr @ (if is_connection_error e then [DConnCommit] else [DConnCommit, DConnRollback]))"
proof (cases "env_answer w tr DConnCommit")
  case (Inr v)
  then show ?thesis by (simp add: scope_commit_def io_defs)
next
  case (Inl e)
  let ?t = "tr @ [DConnCommit]"
  let ?raise = "io_then (error_metric si (scope_commit_error si e)) (io_raise (DbErr (scope_commit_error si e))) :: unit io"
  have sc: "scope_commit w si tr = io_then (if is_connection_error e then io_return () else suppress (perform w DConnRollback)) ?raise ?t"
    by (simp add: scope_commit_def try_except_def io_then_def [of "perform w DConnCommit"] io_bind_def perform_def Inl)
  have q: "quiet ?raise" by (auto intro!: quiet_intros quiet_error_metric)
  have r: "\<exists>x. fst (?raise t) = Inl x" for t
    by (simp add: io_then_def io_bind_def error_metric_def emit_def io_raise_def)
  show ?thesis
  proof (cases "is_connection_error e")
    case True
    then have "scope_commit w si tr = ?raise ?t" by (simp add: sc life_return_then)
    with True Inl r [of ?t] keepsD [OF q, of ?t] show ?thesis by simp
  next
    case False
    obtain x t' where s: "suppress (perform w DConnRollback) ?t = (x, t')" by (cases "suppress (perform w DConnRollback) ?t")
    then have "life t' = life tr @ [DConnCommit, DConnRollback]"
      using life_suppress [of w DConnRollback ?t] by simp
    with False Inl s r [of t'] keepsD [OF q, of t'] show ?thesis
      by (cases x) (simp_all add: sc io_then_def [of "suppress (perform w DConnRollback)"] io_bind_def)
  qed
qed

definition scope_shape :: "bool \<Rightarrow> effect list \<Rightarrow> bool" where
  "scope_shape commit L \<longleftrightarrow>
     L = [DConnect] \<or> L = [DConnect, DConnRollback, DClose] \<or>
     (if commit then L = [DConnect, DConnCommit, DClose] \<or> L = [DConnect, DConnCommit, DConnRollback, DClose]
      else L = [DConnect, DClose])"

lemma acquire_life:
  "(\<exists>v. env_answer w tr DConnect = Inr v \<and> life (snd (acquire w si tr)) = life tr @ [DConnect]) \<or>
   (\<exists>e. env_answer w tr DConnect = Inl e \<and> (\<exists>x. fst (acquire w si tr) = Inl x) \<and> life (snd (acquire w si tr)) = life tr @ [DConnect])"
proof (cases "env_answer w tr DConnect")
  case (Inl e)
  then show ?thesis by (auto simp: acquire_def io_defs Let_def)
next
  case (Inr v)
  then show ?thesis
    using life_suppress [of w "DTag (si_query_name si)" "tr @ [DConnect]"]
    by (simp add: acquire_def io_then_def io_bind_def except_exception_def try_except_def perform_def)
qed

text \<open>The part of the scope inside its \<^verbatim>\<open>try\<close>.\<close>

definition scope_body :: "env \<Rightarrow> scope_info \<Rightarrow> bool \<Rightarrow> (conn_scope \<Rightarrow> 'a io) \<Rightarrow> 'a io" where
  "scope_body w si commit body =
     on_raise (body (scope_of_info si))
       (\<lambda>x. if commit then io_then (scope_commit w si) (io_return x) else io_return x)
       (\<lambda>exc.
          io_then (suppress (perform w DConnRollback))
            (io_then (case exc of DbErr err \<Rightarrow> error_metric si err | Foreign _ \<Rightarrow> io_return ())
               (io_raise exc)))"

lemma scope_body_life:
  assumes "quiet (body (scope_of_info si))"
  shows "\<exists>C. life (snd (scope_body w si commit body tr)) = life tr @ C
    \<and> (C = [DConnRollback] \<or> (if commit then C = [DConnCommit] \<or> C = [DConnCommit, DConnRollback] else C = []))
    \<and> (\<forall>x. fst (scope_body w si commit body tr) = Inr x \<longrightarrow>
         (\<exists>t2. body (scope_of_info si) tr = (Inr x, t2) \<and> (commit \<longrightarrow> (\<exists>v. env_answer w t2 DConnCommit = Inr v))))"
proof -
  obtain r t2 where b: "body (scope_of_info si) tr = (r, t2)" by (cases "body (scope_of_info si) tr")
  then have t2: "life t2 = life tr" using keepsD [OF assms, of tr] by simp
  show ?thesis
  proof (cases r)
    case (Inr x)
    show ?thesis
    proof (cases commit)
      case False
      with b Inr t2 show ?thesis by (intro exI [of _ "[]"]) (simp add: scope_body_def on_raise_def io_return_def)
    next
      case True
      then have sb: "scope_body w si commit body tr = io_then (scope_commit w si) (io_return x) t2"
        using b Inr by (simp add: scope_body_def on_raise_def)
      show ?thesis
        using scope_commit_life [of w t2 si]
      proof (elim disjE exE conjE)
        fix v assume v: "env_answer w t2 DConnCommit = Inr v" "scope_commit w si t2 = (Inr (), t2 @ [DConnCommit])"
        then have "scope_body w si commit body tr = (Inr x, t2 @ [DConnCommit])"
          unfolding sb by (simp add: io_then_def io_bind_def io_return_def)
        with v(1) True b Inr t2 show ?thesis by (intro exI [of _ "[DConnCommit]"]) auto
      next
        fix e x' assume e: "fst (scope_commit w si t2) = Inl x'"
          "life (snd (scope_commit w si t2)) = life t2 @ (if is_connection_error e then [DConnCommit] else [DConnCommit, DConnRollback])"
        then have "scope_body w si commit body tr = (Inl x', snd (scope_commit w si t2))"
          unfolding sb by (cases "scope_commit w si t2") (simp add: io_then_def io_bind_def)
        with e(2) True t2 show ?thesis
          by (intro exI [of _ "if is_connection_error e then [DConnCommit] else [DConnCommit, DConnRollback]"]) auto
      qed
    qed
  next
    case (Inl e)
    let ?rest = "io_then (case e of DbErr err \<Rightarrow> error_metric si err | Foreign _ \<Rightarrow> io_return ()) (io_raise e) :: 'a io"
    have q: "quiet ?rest" by (auto intro!: quiet_intros quiet_error_metric split: raised.split)
    have f: "\<exists>x. fst (?rest t) = Inl x" for t
      by (cases e) (auto simp: io_then_def io_bind_def error_metric_def emit_def io_raise_def io_return_def)
    obtain x t3 where s: "suppress (perform w DConnRollback) t2 = (x, t3)" by (cases "suppress (perform w DConnRollback) t2")
    then have "life t3 = life tr @ [DConnRollback]" using life_suppress [of w DConnRollback t2] t2 by simp
    with s b Inl keepsD [OF q, of t3] f [of t3] show ?thesis
      by (intro exI [of _ "[DConnRollback]"], cases x)
        (auto simp: scope_body_def on_raise_def io_then_def [of "suppress (perform w DConnRollback)"] io_bind_def)
  qed
qed

text \<open>Tagging the connection is a plain dictionary assignment: it may fail but is not interrupted.\<close>

definition tag_safe :: "env \<Rightarrow> bool" where
  "tag_safe w \<longleftrightarrow> (\<forall>tr q e. env_answer w tr (DTag q) = Inl e \<longrightarrow> is_exception e)"

definition scope_trace :: "env \<Rightarrow> bool \<Rightarrow> effect list \<Rightarrow> bool" where
  "scope_trace w commit L \<longleftrightarrow>
     (closed_once L \<or> (L = [DConnect] \<and> (\<exists>tr x. env_answer w tr DConnect = Inl x)))
     \<and> count_list L DConnCommit \<le> (if commit then 1 else 0)"

lemma acquire_cases:
  assumes "tag_safe w"
  shows "(\<exists>tr'. acquire w si tr = (Inr (), tr') \<and> life tr' = life tr @ [DConnect]) \<or>
    (\<exists>e tr' x. acquire w si tr = (Inl x, tr') \<and> life tr' = life tr @ [DConnect] \<and> env_answer w tr DConnect = Inl e)"
proof (cases "env_answer w tr DConnect")
  case (Inl e)
  with acquire_life [of w tr si] show ?thesis by (cases "acquire w si tr") auto
next
  case (Inr v)
  have "suppress (perform w (DTag (si_query_name si))) (tr @ [DConnect]) = (Inr (), tr @ [DConnect, DTag (si_query_name si)])"
    using assms by (subst suppress_ok) (auto simp: tag_safe_def)
  with Inr have "acquire w si tr = (Inr (), tr @ [DConnect, DTag (si_query_name si)])"
    by (simp add: acquire_def io_then_def io_bind_def except_exception_def try_except_def perform_def)
  then show ?thesis by simp
qed

lemma scope_unfold:
  "scope w si commit body tr =
     (case acquire w si (tr @ [DClock]) of
        (Inl e, tr1) \<Rightarrow> (Inl e, tr1)
      | (Inr _, tr1) \<Rightarrow>
          (let tr2 = tr1 @ [DClock, MObserve ''db_pool_wait_seconds'' (env_clock w tr1 - env_clock w tr) (si_labels si), DClock] in
           try_finally (scope_body w si commit body)
             (scope_epilogue w si (env_clock w (tr1 @ [DClock, MObserve ''db_pool_wait_seconds'' (env_clock w tr1 - env_clock w tr) (si_labels si)]))) tr2))"
  by (simp add: scope_def scope_body_def io_bind_def io_then_def now_def emit_def Let_def split: prod.split sum.split)

lemma scope_life:
  assumes tag: "tag_safe w" and q: "quiet (body (scope_of_info si))"
  shows "\<exists>L. life (snd (scope w si commit body tr)) = life tr @ L \<and> scope_trace w commit L"
  using acquire_cases [OF tag, of si "tr @ [DClock]"]
proof (elim disjE exE conjE)
  fix e tr' x assume a: "acquire w si (tr @ [DClock]) = (Inl x, tr')" "life tr' = life (tr @ [DClock]) @ [DConnect]"
    "env_answer w (tr @ [DClock]) DConnect = Inl e"
  have "scope_trace w commit [DConnect]" using a(3) unfolding scope_trace_def by auto
  with a show ?thesis by (intro exI [of _ "[DConnect]"]) (simp add: scope_unfold)
next
  fix tr1 assume a: "acquire w si (tr @ [DClock]) = (Inr (), tr1)" "life tr1 = life (tr @ [DClock]) @ [DConnect]"
  define mo where "mo = MObserve ''db_pool_wait_seconds'' (env_clock w tr1 - env_clock w tr) (si_labels si)"
  have life: "life (snd (scope w si commit body tr)) =
      life (snd (scope_body w si commit body (tr1 @ [DClock, mo, DClock]))) @ [DClose]"
    unfolding scope_unfold a(1) prod.case sum.case Let_def mo_def [symmetric]
    by (rule life_try_finally) simp
  obtain C where C: "life (snd (scope_body w si commit body (tr1 @ [DClock, mo, DClock]))) = life (tr1 @ [DClock, mo, DClock]) @ C"
    "C = [DConnRollback] \<or> (if commit then C = [DConnCommit] \<or> C = [DConnCommit, DConnRollback] else C = [])"
    using scope_body_life [of body si w commit "tr1 @ [DClock, mo, DClock]", OF q] by blast
  let ?L = "DConnect # C @ [DClose]"
  have "closed_once ?L" using C(2) by (intro closed_onceI [OF _ _ refl]) (auto split: if_splits)
  moreover have "count_list ?L DConnCommit \<le> (if commit then 1 else 0)" using C(2) by (auto split: if_splits)
  ultimately have "scope_trace w commit ?L" by (simp add: scope_trace_def)
  moreover have "life (snd (scope w si commit body tr)) = life tr @ ?L"
    using life C(1) a(2) by (simp add: mo_def)
  ultimately show ?thesis by blast
qed

text \<open>The same through the limiter: a refused slot means no connection at all.\<close>

definition at_most_scope :: "env \<Rightarrow> bool \<Rightarrow> 'a io \<Rightarrow> bool" where
  "at_most_scope w commit m \<longleftrightarrow>
     (\<forall>tr. \<exists>L. life (snd (m tr)) = life tr @ L \<and> (L = [] \<or> scope_trace w commit L))"

lemma at_most_scope_after:
  "keeps life q \<Longrightarrow> (\<And>x. at_most_scope w c (k x)) \<Longrightarrow> at_most_scope w c (io_bind q k)"
  unfolding at_most_scope_def
proof (intro allI)
  fix tr assume q: "keeps life q" and k: "\<And>x. \<forall>tr. \<exists>L. life (snd (k x tr)) = life tr @ L \<and> (L = [] \<or> scope_trace w c L)"
  obtain r t where t: "q tr = (r, t)" by (cases "q tr")
  then have l: "life t = life tr" using keepsD [OF q, of tr] by simp
  show "\<exists>L. life (snd (io_bind q k tr)) = life tr @ L \<and> (L = [] \<or> scope_trace w c L)"
  proof (cases r)
    case (Inl e)
    with t l show ?thesis by (simp add: io_bind_def)
  next
    case (Inr x)
    obtain L where "life (snd (k x t)) = life t @ L" "L = [] \<or> scope_trace w c L"
      using k [of x] by blast
    with Inr t l show ?thesis by (intro exI [of _ L]) (simp add: io_bind_def)
  qed
qed

lemma at_most_scope_finally:
  "at_most_scope w c m \<Longrightarrow> keeps life f \<Longrightarrow> at_most_scope w c (try_finally m f)"
  unfolding at_most_scope_def
proof (intro allI)
  fix tr assume m: "\<forall>tr. \<exists>L. life (snd (m tr)) = life tr @ L \<and> (L = [] \<or> scope_trace w c L)" and f: "keeps life f"
  have "life (snd (try_finally m f tr)) = life (snd (m tr)) @ []"
    by (rule life_try_finally) (simp add: keepsD [OF f])
  with m show "\<exists>L. life (snd (try_finally m f tr)) = life tr @ L \<and> (L = [] \<or> scope_trace w c L)" by simp
qed

lemma at_most_scope_quiet: "keeps life m \<Longrightarrow> at_most_scope w c m"
  by (auto simp: at_most_scope_def keeps_def)

lemma at_most_scope_limiter:
  fixes body :: "'a io"
  assumes "at_most_scope w c body"
  shows "at_most_scope w c (limiter_acquire w sems tier timeout body)"
proof (cases "dict_get sems tier")
  case None
  with assms show ?thesis by (simp add: limiter_acquire_def)
next
  case (Some n)
  have "keeps life (semaphore_acquire w tier timeout)"
    by (auto simp: semaphore_acquire_def intro!: quiet_intros)
  moreover have fin: "at_most_scope w c (try_finally body (emit (DRelease tier)))"
    by (rule at_most_scope_finally [OF assms]) (auto intro!: quiet_intros)
  have refused: "at_most_scope w c (io_of r)" for r :: "'a py"
    by (rule at_most_scope_quiet) (rule keeps_of)
  have "at_most_scope w c (if \<not> g then io_of (raise_db DatabaseOverloadedError msg)
      else try_finally body (emit (DRelease tier)))" for g msg
    using fin refused by (cases g) simp_all
  ultimately show ?thesis
    using Some by (simp only: limiter_acquire_def option.case) (rule at_most_scope_after)
qed

lemma scope_of_info_timeout: "scope_of_info (si\<lparr>si_timeout := t\<rparr>) = (scope_of_info si)\<lparr>cs_default_timeout := t\<rparr>"
  by (simp add: scope_of_info_def)

lemma at_most_scope_timed:
  assumes "tag_safe w" "\<And>cs. quiet (op cs)"
  shows "at_most_scope w (ci_commit ci) (timed_scope w ci op)"
  unfolding timed_scope_def
proof (rule at_most_scope_after)
  show "keeps life (now w)" by (auto intro!: quiet_intros)
  show "at_most_scope w (ci_commit ci) (scope w ((ci_scope ci)\<lparr>si_timeout := t\<rparr>) (ci_commit ci) op)" for t
    unfolding at_most_scope_def
    using scope_life [of w op "(ci_scope ci)\<lparr>si_timeout := t\<rparr>", OF assms] by blast
qed

lemma at_most_scope_attempt:
  assumes "tag_safe w" "\<And>cs. quiet (op cs)"
  shows "at_most_scope w (ci_commit ci) (attempt w ci op)"
  unfolding attempt_def Let_def
  by (intro at_most_scope_after at_most_scope_limiter)
    (auto intro!: quiet_intros at_most_scope_limiter at_most_scope_timed assms)

subsection \<open>The slots of an attempt\<close>

lemma held_acquire:
  "held w (tr @ [DAcquire t s]) = (if env_answer w tr (DAcquire t s) = Inr (PBool True) then t # held w tr else held w tr)"
  by (simp add: held_def)

lemma held_release: "held w (tr @ [DRelease t]) = remove1 t (held w tr)"
  by (simp add: held_def)

lemma held_clock [simp]: "held w (tr @ [DClock]) = held w tr"
  by (simp add: held_def)

lemma keeps_scope_slots:
  assumes "\<And>cs. keeps (held w) (op cs)"
  shows "keeps (held w) (scope w si commit op)"
  unfolding scope_def acquire_def scope_epilogue_def scope_commit_def error_metric_def Let_def
  using assms by (auto simp: held_def intro!: quiet_intros split: raised.split)

lemma semaphore_slots:
  "semaphore_acquire w tier t tr =
     (case env_answer w tr (DAcquire tier t) of
        Inl e \<Rightarrow> (Inl e, tr @ [DAcquire tier t]) | Inr v \<Rightarrow> (Inr (v = PBool True), tr @ [DAcquire tier t]))"
  by (simp add: semaphore_acquire_def io_bind_def perform_def io_return_def split: sum.split)

text \<open>A slot that was granted is given back, however the body ends.\<close>

lemma keeps_limiter_slots:
  assumes "keeps (held w) body"
  shows "keeps (held w) (limiter_acquire w sems tier timeout body)"
proof (cases "dict_get sems tier")
  case None
  with assms show ?thesis by (simp add: limiter_acquire_def)
next
  case (Some n)
  have "held w (snd (limiter_acquire w sems tier timeout body tr)) = held w tr" for tr
  proof (cases "env_answer w tr (DAcquire tier timeout)")
    case (Inl e)
    with Some show ?thesis
      by (simp add: limiter_acquire_def io_bind_def semaphore_slots held_acquire)
  next
    case (Inr v)
    show ?thesis
    proof (cases "v = PBool True")
      case False
      with Some Inr show ?thesis
        by (simp add: limiter_acquire_def io_bind_def semaphore_slots held_acquire io_of_def)
    next
      case True
      let ?t = "tr @ [DAcquire tier timeout]"
      obtain r t2 where b: "body ?t = (r, t2)" by (cases "body ?t")
      then have "held w t2 = tier # held w tr"
        using keepsD [OF assms, of ?t] True Inr by (simp add: held_acquire)
      with b Some Inr True show ?thesis
        by (simp add: limiter_acquire_def io_bind_def semaphore_slots try_finally_def emit_def held_release)
    qed
  qed
  then show ?thesis by (simp add: keeps_def)
qed

lemma keeps_attempt_slots:
  assumes "\<And>cs. keeps (held w) (op cs)"
  shows "keeps (held w) (attempt w ci op)"
  unfolding attempt_def timed_scope_def Let_def
  using assms
  by (auto intro!: keeps_bind keeps_now keeps_limiter_slots keeps_scope_slots)

subsection \<open>Traces of several attempts\<close>

lemma keeps_trace_after: "keeps obs m \<Longrightarrow> obs (trace_after m tr n) = obs tr"
  by (induction n) (simp_all add: keeps_def)

lemma trace_after_commits:
  assumes "at_most_scope w c m"
  shows "\<exists>L. life (trace_after m tr n) = life tr @ L \<and> count_list L DConnCommit \<le> n"
proof (induction n)
  case 0
  then show ?case by simp
next
  case (Suc n)
  then obtain L where L: "life (trace_after m tr n) = life tr @ L" "count_list L DConnCommit \<le> n" by blast
  obtain K where K: "life (snd (m (trace_after m tr n))) = life (trace_after m tr n) @ K" "K = [] \<or> scope_trace w c K"
    using assms unfolding at_most_scope_def by blast
  have "count_list K DConnCommit \<le> 1" using K(2) by (auto simp: scope_trace_def split: if_splits)
  with L K show ?case by (intro exI [of _ "L @ K"]) simp
qed

lemma trace_after_reads:
  assumes "at_most_scope w False m"
  shows "\<exists>L. life (trace_after m tr n) = life tr @ L \<and> DConnCommit \<notin> set L"
proof (induction n)
  case 0
  then show ?case by simp
next
  case (Suc n)
  then obtain L where L: "life (trace_after m tr n) = life tr @ L" "DConnCommit \<notin> set L" by blast
  obtain K where K: "life (snd (m (trace_after m tr n))) = life (trace_after m tr n) @ K" "K = [] \<or> scope_trace w False K"
    using assms unfolding at_most_scope_def by blast
  have "DConnCommit \<notin> set K" using K(2) by (auto simp: scope_trace_def count_list_0_iff)
  with L K show ?case by (intro exI [of _ "L @ K"]) simp
qed

subsection \<open>Properties\<close>

text \<open>C4. A write that may not be retried is committed at most once: whatever the driver answers, one call
  of the executor issues at most one COMMIT for a write that is not idempotent or for which retrying
  writes was not configured.\<close>

theorem unsafe_write_commits_once:
  assumes "tag_safe w" "\<forall>cs. quiet (op cs)"
    and "query_is_write (ci_query ci)"
    and "\<not> retry_writes (d_retry (defaults (ci_config ci))) \<or> \<not> is_idempotent (ci_query ci) None"
  shows "\<exists>L. life (fst (snd (execute_with_resilience w ci op clock rnd b tr))) = life tr @ L
    \<and> count_list L DConnCommit \<le> 1"
proof -
  let ?c = "resilient_call w ci op tr clock rnd"
  obtain k where k: "attempts_of (rs_log (snd (run_with_retries ?c b))) = map (\<lambda>i. 1 + int i) [0..<k]"
    "legal ?c 0 k (fst (run_with_retries ?c b))"
    using run_legal by blast
  have "k \<le> 1" using k(2) by (rule legal_unsafe_write) (use assms(3,4) in \<open>simp_all add: resilient_call_def\<close>)
  moreover have "at_most_scope w (ci_commit ci) (attempt w ci op)"
    using assms(1,2) by (intro at_most_scope_attempt) auto
  from trace_after_commits [OF this, of tr k] obtain L where
    "life (trace_after (attempt w ci op) tr k) = life tr @ L" "count_list L DConnCommit \<le> k" by blast
  ultimately show ?thesis
    using k(1) by (intro exI [of _ L]) (simp add: execute_with_resilience_def case_prod_beta)
qed

definition sample_key :: engine_key where
  "sample_key = \<lparr>ek_environment = ''dev'', ek_database = ''app'', ek_shard_id = ''default'', ek_role = ''primary'', ek_driver = ''psycopg''\<rparr>"

definition sample_info :: "query option \<Rightarrow> call_info" where
  "sample_info q =
     \<lparr>ci_scope = \<lparr>si_is_postgres = True, si_key = sample_key, si_labels = [], si_query_name = ''w'', si_timeout = None,
        si_slow_query_ms = 500\<rparr>,
      ci_query = q, ci_limiter = [(''database'', 1)], ci_config = sample_config None, ci_commit = True,
      ci_timeout = None, ci_deadline = None\<rparr>"

lemma unsafe_write_commits_once_witness:
  "\<exists>L. life (fst (snd (execute_with_resilience (sample_env True [(DConnCommit, net_down)]) (sample_info (Some sample_write))
      (\<lambda>_. io_return (1 :: nat)) real (\<lambda>_. 1) None []))) = life [] @ L \<and> count_list L DConnCommit \<le> 1"
  by (rule unsafe_write_commits_once)
    (auto simp: tag_safe_def sample_info_def sample_write_def query_is_write_def is_write_def sample_config_def
      default_defaults_def default_retry_def intro!: quiet_intros)

text \<open>An attempt uses at most one connection and gives it back: it opens none when a slot is refused;
  otherwise the connection it opens is closed exactly once, as the last call on it, and at most one
  COMMIT is issued, none for a read.\<close>

theorem attempt_one_connection:
  assumes "tag_safe w" "\<forall>cs. quiet (op cs)"
  shows "\<exists>L. life (snd (attempt w ci op tr)) = life tr @ L
    \<and> (L = [] \<or> closed_once L \<or> (L = [DConnect] \<and> (\<exists>tr x. env_answer w tr DConnect = Inl x)))
    \<and> count_list L DConnCommit \<le> (if ci_commit ci then 1 else 0)"
proof -
  have "at_most_scope w (ci_commit ci) (attempt w ci op)"
    using assms by (intro at_most_scope_attempt) auto
  then obtain L where "life (snd (attempt w ci op tr)) = life tr @ L" "L = [] \<or> scope_trace w (ci_commit ci) L"
    unfolding at_most_scope_def by blast
  then show ?thesis by (intro exI [of _ L]) (auto simp: scope_trace_def)
qed

lemma attempt_one_connection_witness:
  "\<exists>L. life (snd (attempt (sample_env True []) (sample_info None) (\<lambda>cs. execute (sample_env True []) cs (AStatement (TextClause ''SELECT 1'')) None) [])) = life [] @ L
    \<and> (L = [] \<or> closed_once L \<or> (L = [DConnect] \<and> (\<exists>tr x. env_answer (sample_env True []) tr DConnect = Inl x)))
    \<and> count_list L DConnCommit \<le> (if ci_commit (sample_info None) then 1 else 0)"
  by (rule attempt_one_connection) (simp_all add: tag_safe_def quiet_execute)

text \<open>C17. No limiter slot leaks: after an attempt, and after a whole call with its retries, the slots held
  are those held before it, whatever failed and wherever, including a refused or interrupted wait for a
  slot.\<close>

theorem slots_released:
  assumes "\<forall>cs. keeps (held w) (op cs)"
  shows "held w (snd (attempt w ci op tr)) = held w tr
    \<and> held w (fst (snd (execute_with_resilience w ci op clock rnd b tr))) = held w tr"
proof -
  have "keeps (held w) (attempt w ci op)" using assms by (intro keeps_attempt_slots) auto
  then show ?thesis
    using keeps_trace_after by (auto simp: execute_with_resilience_def case_prod_beta keeps_def)
qed

lemma slots_released_witness:
  "held (sample_env True []) (snd (attempt (sample_env True []) (sample_info None) (\<lambda>_. io_return (1 :: nat)) [])) = held (sample_env True []) []"
  using slots_released [of "sample_env True []" "\<lambda>_. io_return (1 :: nat)" "sample_info None" "[]"]
  by (simp add: keeps_return)

text \<open>An auto-commit scope that returns was committed: its body returned, and with \<open>commit\<close> the driver
  acknowledged the COMMIT issued right after it.\<close>

theorem scope_success_committed:
  assumes "quiet (body (scope_of_info si))" "fst (scope w si commit body tr) = Inr x"
  shows "\<exists>t1 t2. body (scope_of_info si) t1 = (Inr x, t2) \<and> (commit \<longrightarrow> (\<exists>v. env_answer w t2 DConnCommit = Inr v))"
proof -
  obtain tr1 where a: "acquire w si (tr @ [DClock]) = (Inr (), tr1)"
    using assms(2) by (auto simp: scope_unfold split: prod.splits sum.splits)
  define tr2 where "tr2 = tr1 @ [DClock, MObserve ''db_pool_wait_seconds'' (env_clock w tr1 - env_clock w tr) (si_labels si), DClock]"
  have "fst (scope_body w si commit body tr2) = Inr x"
    using assms(2) a by (auto simp: scope_unfold tr2_def Let_def try_finally_def split: prod.splits sum.splits)
  with scope_body_life [of body si w commit tr2, OF assms(1)] show ?thesis by blast
qed

text \<open>A statement passed without a \<open>Query\<close> is treated as a read, whatever its text: it takes the reads
  tier, and with the default configuration a retryable failure of it is retried although retrying
  writes is off.\<close>

theorem adhoc_statement_is_read:
  "tier_of (snd (snd (query_meta (AStatement st)))) = ''reads''
   \<and> \<not> retry_writes default_retry
   \<and> should_retry (new_error DatabaseConnectionError msg no_kwargs) (snd (snd (query_meta (AStatement st)))) default_retry 1 None"
  by (simp add: query_meta_def tier_of_def query_is_write_def default_retry_def should_retry_iff
      new_error_state_unknown class_retryable_def)

text \<open>Forgetting a database drops exactly its breakers: for keys without colons, the breaker of a key is
  gone when the key belongs to the database and untouched otherwise.\<close>

theorem forget_database_exact:
  assumes "plain (environment (ex_config ex))" "plain database" "plain (ek_database k)"
    and "ek_environment k = environment (ex_config ex)"
  shows "dict_get (ex_breakers (forget_database database ex)) (key_text k) =
    (if ek_database k = database then None else dict_get (ex_breakers ex) (key_text k))"
proof -
  let ?prefix = "environment (ex_config ex) @ '':'' @ database @ '':''"
  have pre: "take (length ?prefix) (key_text k) = ?prefix \<longleftrightarrow> ek_database k = database"
  proof
    assume t: "take (length ?prefix) (key_text k) = ?prefix"
    then obtain rest where "key_text k = ?prefix @ rest" by (metis append_take_drop_id)
    then have "ek_database k @ '':'' @ (ek_shard_id k @ '':'' @ ek_role k @ '':'' @ ek_driver k) = database @ '':'' @ rest"
      using assms(4) by (simp add: key_text_def)
    from plain_split [OF assms(3,2) this] show "ek_database k = database" by simp
  qed (simp add: key_text_def assms(4))
  have get: "dict_get (filter (\<lambda>(k, b). P k) d) x = (if P x then dict_get d x else None)"
    for d :: "(string, breaker) dict" and P x
    by (induction d) auto
  show ?thesis
    unfolding forget_database_def Let_def using pre by (simp add: get)
qed

lemma forget_database_exact_witness:
  "dict_get (ex_breakers (forget_database ''other'' \<lparr>ex_config = (sample_config None)\<lparr>environment := ''dev''\<rparr>,
      ex_breakers = [(key_text sample_key, new_breaker 1 1 1 1)], ex_limiters = []\<rparr>)) (key_text sample_key)
    = Some (new_breaker 1 1 1 1)"
  by (subst forget_database_exact) (simp_all add: plain_def sample_key_def)

lemma sample_scope_ok:
  "fst (scope (sample_env False []) (ci_scope (sample_info None)) True (\<lambda>_. io_return (1 :: nat)) []) = Inr 1"
  by (simp add: scope_def acquire_def scope_epilogue_def scope_commit_def error_metric_def io_defs on_raise_def
      Let_def sample_info_def)

lemma scope_success_committed_witness:
  "\<exists>t1 t2. io_return (1 :: nat) t1 = (Inr 1, t2)
    \<and> (True \<longrightarrow> (\<exists>v. env_answer (sample_env False []) t2 DConnCommit = Inr v))"
  by (rule scope_success_committed [OF _ sample_scope_ok]) (rule keeps_return)

end
