(* ===== verification/Database.thy ===== *)
theory Database
  imports Executor
begin

text \<open>
  The facade (\<^verbatim>\<open>_async/database.py\<close> and its twin): resolving a target to a route over the
  shard-resolver and replica-selector protocols, and registering, replacing, evicting and unregistering
  databases at runtime. The critical sections of the registration lock are atomic; each operation
  yields the engines it disposes beside its result.
\<close>

subsection \<open>Resolving a target\<close>

text \<open>The resolver and the selector are the facade's collaborators, with their states.\<close>

type_synonym 'r shard_fn = "'r \<Rightarrow> string \<times> shard_key option \<Rightarrow> string py \<times> 'r"
type_synonym 's select_fn = "'s \<Rightarrow> string \<Rightarrow> string option \<times> 's"

definition primary_route :: "string \<Rightarrow> string \<Rightarrow> route" where
  "primary_route database shard_id =
     \<lparr>rt_database = database, rt_shard_id = shard_id, rt_role = Primary, rt_replica_name = None\<rparr>"

definition resolve_shard :: "'r shard_fn \<Rightarrow> target \<Rightarrow> 'r \<Rightarrow> string py \<times> 'r" where
  "resolve_shard shards t r =
     (if tg_shard_key t \<noteq> None then shards r (tg_database t, tg_shard_key t) else (Inr ''default'', r))"

definition resolve ::
  "'r shard_fn \<Rightarrow> 's select_fn \<Rightarrow> bool \<Rightarrow> dbkit_config \<Rightarrow> target \<Rightarrow> 'r \<times> 's \<Rightarrow> route py \<times> ('r \<times> 's)" where
  "resolve shards select read_your_writes cfg t st =
     (case dict_get (databases cfg) (tg_database t) of
        None \<Rightarrow> (raise_db DatabaseRoutingError (''unknown database '' @ quoted (tg_database t)), st)
      | Some db \<Rightarrow>
          (case resolve_shard shards t (fst st) of
             (Inl e, r) \<Rightarrow> (Inl e, (r, snd st))
           | (Inr shard_id, r) \<Rightarrow>
               if wants_replica t \<and> db_replicas db \<noteq> [] \<and> \<not> read_your_writes then
                 (case select (snd st) (tg_database t) of
                    (Some name, s) \<Rightarrow>
                      (Inr \<lparr>rt_database = tg_database t, rt_shard_id = shard_id, rt_role = Replica,
                            rt_replica_name = Some name\<rparr>, (r, s))
                  | (None, s) \<Rightarrow> (Inr (primary_route (tg_database t) shard_id), (r, s)))
               else (Inr (primary_route (tg_database t) shard_id), (r, snd st))))"

subsection \<open>The facade's state\<close>

record 's facade =
  fd_registry :: engine_registry
  fd_executor :: executor
  fd_selector :: 's
  fd_static :: "string list"
  fd_dynamic_lru :: "string list"
  fd_started :: bool

text \<open>The configuration object is shared: the registry and the executor see every swap of its database
  map.\<close>

definition fd_config :: "'s facade \<Rightarrow> dbkit_config" where
  "fd_config f = rg_config (fd_registry f)"

definition swap_databases :: "(string, database_config) dict \<Rightarrow> 's facade \<Rightarrow> 's facade" where
  "swap_databases dbs f =
     (let cfg = (fd_config f)\<lparr>databases := dbs\<rparr> in
      f\<lparr>fd_registry := (fd_registry f)\<lparr>rg_config := cfg\<rparr>,
        fd_executor := (fd_executor f)\<lparr>ex_config := cfg\<rparr>\<rparr>)"

definition new_facade :: "dbkit_config \<Rightarrow> 's \<Rightarrow> 's facade" where
  "new_facade cfg s =
     \<lparr>fd_registry = new_registry cfg (max_engines cfg) (evict_lru_engines cfg),
      fd_executor = \<lparr>ex_config = cfg, ex_breakers = [], ex_limiters = []\<rparr>,
      fd_selector = s, fd_static = dict_keys (databases cfg), fd_dynamic_lru = [], fd_started = False\<rparr>"

definition touch_dynamic :: "string \<Rightarrow> 's facade \<Rightarrow> 's facade" where
  "touch_dynamic name f =
     (if name \<in> set (fd_static f) then f
      else f\<lparr>fd_dynamic_lru := removeAll name (fd_dynamic_lru f) @ [name]\<rparr>)"

definition purge_database_state :: "string \<Rightarrow> 's facade \<Rightarrow> nat list \<times> 's facade" where
  "purge_database_state name f =
     (case dispose_database name (fd_registry f) of
        (_, ds, r) \<Rightarrow> (ds, f\<lparr>fd_registry := r, fd_executor := forget_database name (fd_executor f)\<rparr>))"

text \<open>Unregistering the least recently used dynamic databases beyond the limit. A negative limit empties
  the list and then fails on it.\<close>

fun evict_loop ::
  "(string \<Rightarrow> 's \<Rightarrow> 's) \<Rightarrow> int \<Rightarrow> string list \<Rightarrow> 's facade \<Rightarrow> unit py \<times> nat list \<times> 's facade" where
  "evict_loop clear limit [] f =
     ((if 0 > limit then Inl (Foreign (plain_exn [CException, CRuntimeError] ''coroutine raised StopIteration''))
       else Inr ()), [], f\<lparr>fd_dynamic_lru := []\<rparr>)"
| "evict_loop clear limit (victim # rest) f =
     (if int (length (victim # rest)) > limit then
        (case purge_database_state victim (f\<lparr>fd_dynamic_lru := rest\<rparr>) of
           (ds, f1) \<Rightarrow>
             (let f2 = swap_databases (dict_pop victim (databases (fd_config f1))) f1;
                  f3 = f2\<lparr>fd_selector := clear victim (fd_selector f2)\<rparr>
              in case evict_loop clear limit rest f3 of (x, ds', f') \<Rightarrow> (x, ds @ ds', f')))
      else (Inr (), [], f\<lparr>fd_dynamic_lru := victim # rest\<rparr>))"

definition evict_lru_databases :: "(string \<Rightarrow> 's \<Rightarrow> 's) \<Rightarrow> 's facade \<Rightarrow> unit py \<times> nat list \<times> 's facade" where
  "evict_lru_databases clear f =
     (case max_databases (fd_config f) of
        None \<Rightarrow> (Inr (), [], f)
      | Some limit \<Rightarrow> evict_loop clear limit (fd_dynamic_lru f) f)"

text \<open>The selector as the facade uses it: \<open>set_replicas\<close> with a database's replicas (by name), and with
  none to clear it.\<close>

definition replica_names :: "database_config \<Rightarrow> string list" where
  "replica_names db = map t_name (db_replicas db)"

definition admit_database :: "string \<Rightarrow> database_config \<Rightarrow> 's facade \<Rightarrow> unit py" where
  "admit_database name db f =
     sum_bind (database_validate db) (\<lambda>_.
     sum_bind (database_enforce_connection_budget db (defaults (fd_config f)) name) (\<lambda>_.
       enforce_connection_budget ((fd_config f)\<lparr>databases := dict_set name db (databases (fd_config f))\<rparr>)))"

definition register_database ::
  "creator \<Rightarrow> (string \<Rightarrow> string list \<Rightarrow> 's \<Rightarrow> 's) \<Rightarrow> real \<Rightarrow> string \<Rightarrow> database_config \<Rightarrow> bool option
     \<Rightarrow> 's facade \<Rightarrow> bool py \<times> nat list \<times> 's facade" where
  "register_database create set_replicas t name db connect f =
     (case admit_database name db f of
        Inl e \<Rightarrow> (Inl e, [], f)
      | Inr _ \<Rightarrow>
          (let replaced = dict_get (databases (fd_config f)) name \<noteq> None in
           case (if replaced then purge_database_state name f else ([], f)) of (ds1, f1) \<Rightarrow>
             (let f2 = swap_databases (dict_set name db (databases (fd_config f1))) f1;
                  f3 = f2\<lparr>fd_selector := set_replicas name (replica_names db) (fd_selector f2)\<rparr>
              in case evict_lru_databases (\<lambda>n. set_replicas n []) (touch_dynamic name f3) of
                (Inl e, ds2, f4) \<Rightarrow> (Inl e, ds1 @ ds2, f4)
              | (Inr _, ds2, f4) \<Rightarrow>
                  if (case connect of Some c \<Rightarrow> c | None \<Rightarrow> fd_started f4 \<and> t_required (db_primary db)) then
                    (case registry_get_engine create t (primary_route name ''default'') (fd_registry f4) of
                       (Inl e, ds3, r) \<Rightarrow> (Inl e, ds1 @ ds2 @ ds3, f4\<lparr>fd_registry := r\<rparr>)
                     | (Inr _, ds3, r) \<Rightarrow> (Inr replaced, ds1 @ ds2 @ ds3, f4\<lparr>fd_registry := r\<rparr>))
                  else (Inr replaced, ds1 @ ds2, f4))))"

definition ensure_database ::
  "creator \<Rightarrow> (string \<Rightarrow> string list \<Rightarrow> 's \<Rightarrow> 's) \<Rightarrow> real \<Rightarrow> string \<Rightarrow> database_config \<Rightarrow> bool option
     \<Rightarrow> 's facade \<Rightarrow> bool py \<times> nat list \<times> 's facade" where
  "ensure_database create set_replicas t name db connect f =
     (if dict_get (databases (fd_config f)) name = Some db then (Inr False, [], touch_dynamic name f)
      else
        (case register_database create set_replicas t name db connect f of
           (Inl e, ds, f') \<Rightarrow> (Inl e, ds, f')
         | (Inr _, ds, f') \<Rightarrow> (Inr True, ds, f')))"

definition unregister_database ::
  "(string \<Rightarrow> string list \<Rightarrow> 's \<Rightarrow> 's) \<Rightarrow> string \<Rightarrow> 's facade \<Rightarrow> bool py \<times> nat list \<times> 's facade" where
  "unregister_database set_replicas name f =
     (if dict_get (databases (fd_config f)) name = None then (Inr False, [], f)
      else
        (case purge_database_state name f of (ds, f1) \<Rightarrow>
           (let f2 = swap_databases (dict_pop name (databases (fd_config f1))) f1 in
            (Inr True, ds,
             f2\<lparr>fd_selector := set_replicas name [] (fd_selector f2),
                fd_dynamic_lru := removeAll name (fd_dynamic_lru f2)\<rparr>))))"

text \<open>Starting: every required primary gets its engine.\<close>

fun start_engines ::
  "creator \<Rightarrow> real \<Rightarrow> (string \<times> database_config) list \<Rightarrow> engine_registry \<Rightarrow> unit py \<times> nat list \<times> engine_registry" where
  "start_engines create t [] r = (Inr (), [], r)"
| "start_engines create t ((name, db) # dbs) r =
     (if t_required (db_primary db) then
        (case registry_get_engine create t (primary_route name ''default'') r of
           (Inl e, ds, r1) \<Rightarrow> (Inl e, ds, r1)
         | (Inr _, ds, r1) \<Rightarrow> (case start_engines create t dbs r1 of (x, ds', r2) \<Rightarrow> (x, ds @ ds', r2)))
      else start_engines create t dbs r)"

definition start :: "creator \<Rightarrow> real \<Rightarrow> 's facade \<Rightarrow> unit py \<times> nat list \<times> 's facade" where
  "start create t f =
     (if fd_started f then (Inr (), [], f)
      else
        (case validate (fd_config f) of
           Inl e \<Rightarrow> (Inl e, [], f)
         | Inr _ \<Rightarrow>
             (case start_engines create t (databases (fd_config f)) (fd_registry f) of
                (Inl e, ds, r) \<Rightarrow> (Inl e, ds, f\<lparr>fd_registry := r\<rparr>)
              | (Inr _, ds, r) \<Rightarrow> (Inr (), ds, f\<lparr>fd_registry := r, fd_started := True\<rparr>))))"

definition close :: "'s facade \<Rightarrow> nat list \<times> 's facade" where
  "close f = (case dispose_all (fd_registry f) of (ds, r) \<Rightarrow> (ds, f\<lparr>fd_registry := r, fd_started := False\<rparr>))"

subsection \<open>The facade's invariant\<close>

lemma swap_simps [simp]:
  "fd_config (swap_databases dbs f) = (fd_config f)\<lparr>databases := dbs\<rparr>"
  "fd_selector (swap_databases dbs f) = fd_selector f"
  "fd_static (swap_databases dbs f) = fd_static f"
  "fd_dynamic_lru (swap_databases dbs f) = fd_dynamic_lru f"
  by (simp_all add: swap_databases_def fd_config_def Let_def)

lemma fd_config_update [simp]:
  "fd_config (f\<lparr>fd_selector := s\<rparr>) = fd_config f" "fd_config (f\<lparr>fd_dynamic_lru := l\<rparr>) = fd_config f"
  "fd_config (f\<lparr>fd_started := b\<rparr>) = fd_config f" "fd_config (f\<lparr>fd_registry := r\<rparr>) = rg_config r"
  "fd_config (f\<lparr>fd_executor := e\<rparr>) = fd_config f"
  by (simp_all add: fd_config_def)

lemma purge_frame:
  "case purge_database_state n f of (ds, f') \<Rightarrow> fd_config f' = fd_config f \<and> fd_selector f' = fd_selector f
     \<and> fd_static f' = fd_static f \<and> fd_dynamic_lru f' = fd_dynamic_lru f"
  by (simp add: purge_database_state_def dispose_database_def fd_config_def Let_def)

lemma touch_dynamic_frame [simp]:
  "fd_config (touch_dynamic n f) = fd_config f" "fd_selector (touch_dynamic n f) = fd_selector f"
  "fd_static (touch_dynamic n f) = fd_static f"
  by (simp_all add: touch_dynamic_def)

lemma registry_get_config: "rg_config (snd (snd (registry_get_engine create t rt r))) = rg_config r"
  by (auto simp: registry_get_engine_def insert_engine_def pop_lru_def Let_def split: sum.split prod.split option.split)

lemma start_engines_config: "rg_config (snd (snd (start_engines create t dbs r))) = rg_config r"
proof (induction create t dbs r rule: start_engines.induct)
  case (2 create t name db dbs r)
  then show ?case
    using registry_get_config [of create t "primary_route name ''default''" r]
    by (auto split: prod.splits sum.splits)
qed simp

text \<open>The dynamic databases: every registered database that is not static is in the list, once.\<close>

definition lru_ok :: "'s facade \<Rightarrow> bool" where
  "lru_ok f \<longleftrightarrow> distinct (fd_dynamic_lru f) \<and> set (fd_dynamic_lru f) \<inter> set (fd_static f) = {}
     \<and> (\<forall>n. dict_get (databases (fd_config f)) n \<noteq> None \<longrightarrow> n \<in> set (fd_static f) \<union> set (fd_dynamic_lru f))"

definition synced :: "('s \<Rightarrow> string \<Rightarrow> string list) \<Rightarrow> 's facade \<Rightarrow> bool" where
  "synced replicas_of f \<longleftrightarrow>
     (\<forall>n db. dict_get (databases (fd_config f)) n = Some db \<longrightarrow> replicas_of (fd_selector f) n = replica_names db)"

definition bounded_lru :: "'s facade \<Rightarrow> bool" where
  "bounded_lru f \<longleftrightarrow> (\<forall>m. max_databases (fd_config f) = Some m \<longrightarrow> length (fd_dynamic_lru f) \<le> nat m)"

definition facade_ok :: "('s \<Rightarrow> string \<Rightarrow> string list) \<Rightarrow> 's facade \<Rightarrow> bool" where
  "facade_ok replicas_of f \<longleftrightarrow> synced replicas_of f \<and> lru_ok f \<and> bounded_lru f"

text \<open>What the facade relies on of its two collaborators.\<close>

locale facade_routing =
  sh: shard_resolver shard_fn assignment good rinv + sel: replica_selector select set_replicas replicas_of
  for shard_fn :: "'r shard_fn" and assignment good rinv
    and select :: "'s select_fn" and set_replicas replicas_of
begin

lemma swap_synced:
  assumes "synced replicas_of f"
  shows "synced replicas_of ((swap_databases (dict_set n db (databases (fd_config f))) f)
    \<lparr>fd_selector := set_replicas n (replica_names db) (fd_selector f)\<rparr>)"
  using assms by (auto simp: synced_def dict_get_set sel.set_replicas_of)

lemma clear_synced:
  assumes "synced replicas_of f"
  shows "synced replicas_of ((swap_databases (dict_pop n (databases (fd_config f))) f)
    \<lparr>fd_selector := set_replicas n [] (fd_selector f)\<rparr>)"
  using assms by (auto simp: synced_def dict_get_pop sel.set_replicas_of split: if_splits)

lemma evict_loop_ok:
  assumes "synced replicas_of f" "distinct lru" "set lru \<inter> set (fd_static f) = {}"
    and "\<forall>n. dict_get (databases (fd_config f)) n \<noteq> None \<longrightarrow> n \<in> set (fd_static f) \<union> set lru"
  shows "case evict_loop (\<lambda>n. set_replicas n []) limit lru f of (x, ds, f') \<Rightarrow>
    synced replicas_of f' \<and> lru_ok f' \<and> length (fd_dynamic_lru f') \<le> nat limit
    \<and> fd_static f' = fd_static f \<and> max_databases (fd_config f') = max_databases (fd_config f)
    \<and> set (fd_dynamic_lru f') \<subseteq> set lru"
  using assms
proof (induction lru arbitrary: f)
  case Nil
  then show ?case by (simp add: lru_ok_def synced_def)
next
  case (Cons victim rest)
  show ?case
  proof (cases "int (length (victim # rest)) > limit")
    case False
    then have "length (victim # rest) \<le> nat limit" by linarith
    with False Cons.prems show ?thesis by (auto simp: lru_ok_def synced_def)
  next
    case True
    obtain ds f1 where p: "purge_database_state victim (f\<lparr>fd_dynamic_lru := rest\<rparr>) = (ds, f1)"
      by (cases "purge_database_state victim (f\<lparr>fd_dynamic_lru := rest\<rparr>)")
    from purge_frame [where n = victim and f = "f\<lparr>fd_dynamic_lru := rest\<rparr>"] p
    have f1: "fd_config f1 = fd_config f" "fd_selector f1 = fd_selector f" "fd_static f1 = fd_static f" by simp_all
    let ?f3 = "(swap_databases (dict_pop victim (databases (fd_config f1))) f1)
        \<lparr>fd_selector := set_replicas victim [] (fd_selector (swap_databases (dict_pop victim (databases (fd_config f1))) f1))\<rparr>"
    have "synced replicas_of f1" using Cons.prems(1) f1 by (simp add: synced_def)
    then have "synced replicas_of ?f3" using clear_synced [of f1 victim] by simp
    moreover have "\<forall>n. dict_get (databases (fd_config ?f3)) n \<noteq> None \<longrightarrow> n \<in> set (fd_static ?f3) \<union> set rest"
      using Cons.prems(4) f1 by (auto simp: dict_get_pop split: if_splits)
    ultimately have "case evict_loop (\<lambda>n. set_replicas n []) limit rest ?f3 of (x, ds, f') \<Rightarrow>
        synced replicas_of f' \<and> lru_ok f' \<and> length (fd_dynamic_lru f') \<le> nat limit
        \<and> fd_static f' = fd_static ?f3 \<and> max_databases (fd_config f') = max_databases (fd_config ?f3)
        \<and> set (fd_dynamic_lru f') \<subseteq> set rest"
      using Cons.prems(2,3) f1 by (intro Cons.IH) auto
    with True p f1 show ?thesis by (auto simp: Let_def split: prod.splits)
  qed
qed

lemma touch_lru_ok:
  assumes "\<forall>n. dict_get (databases (fd_config f)) n \<noteq> None \<longrightarrow> n \<in> set (fd_static f) \<union> insert name (set (fd_dynamic_lru f))"
    and "distinct (fd_dynamic_lru f)" "set (fd_dynamic_lru f) \<inter> set (fd_static f) = {}"
  shows "lru_ok (touch_dynamic name f)"
  using assms by (auto simp: lru_ok_def touch_dynamic_def distinct_removeAll)

lemma register_ok:
  assumes ok: "facade_ok replicas_of f"
  shows "facade_ok replicas_of (snd (snd (register_database create set_replicas t n db connect f)))"
proof (cases "admit_database n db f")
  case (Inl e)
  with ok show ?thesis by (simp add: register_database_def)
next
  case (Inr u)
  let ?rep = "dict_get (databases (fd_config f)) n \<noteq> None"
  obtain ds1 f1 where p: "(if ?rep then purge_database_state n f else ([], f)) = (ds1, f1)"
    by (cases "if ?rep then purge_database_state n f else ([], f)")
  have f1: "fd_config f1 = fd_config f" "fd_selector f1 = fd_selector f" "fd_static f1 = fd_static f"
    "fd_dynamic_lru f1 = fd_dynamic_lru f"
    using p purge_frame [where n = n and f = f] by (auto split: if_splits)
  let ?f2 = "swap_databases (dict_set n db (databases (fd_config f1))) f1"
  let ?f3 = "?f2\<lparr>fd_selector := set_replicas n (replica_names db) (fd_selector ?f2)\<rparr>"
  let ?f4 = "touch_dynamic n ?f3"
  have sy: "synced replicas_of ?f4"
    using swap_synced [of f1 n db] ok f1 by (simp add: facade_ok_def synced_def)
  have lru: "lru_ok ?f4"
    using ok f1 by (intro touch_lru_ok) (auto simp: facade_ok_def lru_ok_def dict_get_set split: if_splits)
  have ev: "facade_ok replicas_of (snd (snd (evict_lru_databases (\<lambda>n. set_replicas n []) ?f4)))"
  proof (cases "max_databases (fd_config ?f4)")
    case None
    with sy lru show ?thesis by (simp add: evict_lru_databases_def facade_ok_def bounded_lru_def)
  next
    case (Some limit)
    have "case evict_loop (\<lambda>n. set_replicas n []) limit (fd_dynamic_lru ?f4) ?f4 of (x, ds, f') \<Rightarrow>
        synced replicas_of f' \<and> lru_ok f' \<and> length (fd_dynamic_lru f') \<le> nat limit
        \<and> fd_static f' = fd_static ?f4 \<and> max_databases (fd_config f') = max_databases (fd_config ?f4)
        \<and> set (fd_dynamic_lru f') \<subseteq> set (fd_dynamic_lru ?f4)"
      using sy lru by (intro evict_loop_ok) (auto simp: lru_ok_def)
    with Some show ?thesis
      by (auto simp: evict_lru_databases_def facade_ok_def bounded_lru_def split: prod.splits)
  qed
  obtain x ds2 f5 where e: "evict_lru_databases (\<lambda>n. set_replicas n []) ?f4 = (x, ds2, f5)"
    by (cases "evict_lru_databases (\<lambda>n. set_replicas n []) ?f4") auto
  have f5: "facade_ok replicas_of f5" using ev e by simp
  have keep: "facade_ok replicas_of (f5\<lparr>fd_registry := r\<rparr>)" if "rg_config r = rg_config (fd_registry f5)" for r
    using f5 that by (simp add: facade_ok_def synced_def lru_ok_def bounded_lru_def fd_config_def)
  have got: "facade_ok replicas_of (f5\<lparr>fd_registry := snd (snd (registry_get_engine create t (primary_route n ''default'') (fd_registry f5)))\<rparr>)"
    by (rule keep) (rule registry_get_config)
  have eq: "register_database create set_replicas t n db connect f =
      (case x of Inl er \<Rightarrow> (Inl er, ds1 @ ds2, f5)
       | Inr _ \<Rightarrow>
           if (case connect of Some c \<Rightarrow> c | None \<Rightarrow> fd_started f5 \<and> t_required (db_primary db)) then
             (case registry_get_engine create t (primary_route n ''default'') (fd_registry f5) of
                (Inl er, ds3, r) \<Rightarrow> (Inl er, ds1 @ ds2 @ ds3, f5\<lparr>fd_registry := r\<rparr>)
              | (Inr _, ds3, r) \<Rightarrow> (Inr ?rep, ds1 @ ds2 @ ds3, f5\<lparr>fd_registry := r\<rparr>))
           else (Inr ?rep, ds1 @ ds2, f5))"
    unfolding register_database_def Inr sum.case Let_def p prod.case e by (cases x) simp_all
  show ?thesis
  proof (cases x)
    case (Inl er)
    with f5 show ?thesis by (simp add: eq)
  next
    case (Inr u)
    obtain y ds3 r where g: "registry_get_engine create t (primary_route n ''default'') (fd_registry f5) = (y, ds3, r)"
      by (cases "registry_get_engine create t (primary_route n ''default'') (fd_registry f5)") auto
    show ?thesis unfolding eq Inr sum.case g prod.case using f5 got g by (cases y) simp_all
  qed
qed

lemma unregister_ok:
  assumes ok: "facade_ok replicas_of f"
  shows "facade_ok replicas_of (snd (snd (unregister_database set_replicas n f)))"
proof (cases "dict_get (databases (fd_config f)) n = None")
  case True
  with ok show ?thesis by (simp add: unregister_database_def)
next
  case False
  obtain ds f1 where p: "purge_database_state n f = (ds, f1)" by (cases "purge_database_state n f")
  from purge_frame [where n = n and f = f] p
  have f1: "fd_config f1 = fd_config f" "fd_selector f1 = fd_selector f" "fd_static f1 = fd_static f"
    "fd_dynamic_lru f1 = fd_dynamic_lru f" by simp_all
  let ?f2 = "swap_databases (dict_pop n (databases (fd_config f1))) f1"
  let ?f3 = "?f2\<lparr>fd_selector := set_replicas n [] (fd_selector ?f2), fd_dynamic_lru := removeAll n (fd_dynamic_lru ?f2)\<rparr>"
  have "synced replicas_of f1" using ok f1 by (simp add: facade_ok_def synced_def)
  then have "synced replicas_of ?f3" using clear_synced [of f1 n] by (simp add: synced_def)
  moreover have "lru_ok ?f3"
    using ok f1 by (auto simp: facade_ok_def lru_ok_def distinct_removeAll dict_get_pop split: if_splits)
  moreover have "bounded_lru ?f3"
    using ok f1 by (fastforce simp: facade_ok_def bounded_lru_def removeAll_filter_not_eq intro: order_trans [OF length_filter_le])
  ultimately have "facade_ok replicas_of ?f3" by (simp add: facade_ok_def)
  with False p show ?thesis by (auto simp: unregister_database_def Let_def)
qed

lemma ensure_ok:
  assumes ok: "facade_ok replicas_of f"
  shows "facade_ok replicas_of (snd (snd (ensure_database create set_replicas t n db connect f)))"
proof (cases "dict_get (databases (fd_config f)) n = Some db")
  case True
  have known: "n \<in> set (fd_static f) \<union> set (fd_dynamic_lru f)"
    using ok True by (auto simp: facade_ok_def lru_ok_def)
  have "lru_ok (touch_dynamic n f)"
    using ok by (intro touch_lru_ok) (auto simp: facade_ok_def lru_ok_def)
  moreover have "bounded_lru (touch_dynamic n f)"
  proof (cases "n \<in> set (fd_static f)")
    case False
    with known have "length (removeAll n (fd_dynamic_lru f)) < length (fd_dynamic_lru f)"
      by (intro length_removeAll_less) auto
    with ok False show ?thesis
      by (fastforce simp: facade_ok_def bounded_lru_def touch_dynamic_def)
  qed (use ok in \<open>simp add: facade_ok_def touch_dynamic_def\<close>)
  ultimately show ?thesis using ok True by (simp add: ensure_database_def facade_ok_def synced_def)
next
  case False
  then show ?thesis
    using register_ok [OF ok, of create t n db connect]
    by (auto simp: ensure_database_def split: prod.splits sum.splits)
qed

end

interpretation rr_single: facade_routing single_resolve "\<lambda>_. Inr ''default''" "\<lambda>_. True" "\<lambda>_. True"
    rr_select rr_set_replicas rr_replicas_of
  by unfold_locales

interpretation rr_hash: facade_routing "hash_resolve digest" "hash_assignment digest n prefix"
    "prints_canonically pr" "hash_inv digest n prefix pr" rr_select rr_set_replicas rr_replicas_of
  for digest n prefix pr
  by unfold_locales

subsection \<open>Routes\<close>

context facade_routing
begin

lemma resolve_keeps:
  assumes "rinv r" "tg_shard_key t = None \<or> good (tg_shard_key t)"
    and "resolve shard_fn select ryw cfg t (r, s) = (x, (r', s'))"
  shows "rinv r' \<and> replicas_of s' = replicas_of s"
proof -
  have r: "rinv (snd (resolve_shard shard_fn t r))"
    using assms(1,2) sh.resolve_assignment [of r "(tg_database t, tg_shard_key t)"]
    by (auto simp: resolve_shard_def)
  have s: "replicas_of (snd (select s d)) = replicas_of s" for d
    by (rule sel.select_frame)
  show ?thesis
  proof (cases "dict_get (databases cfg) (tg_database t)")
    case None
    with assms show ?thesis by (auto simp: resolve_def)
  next
    case (Some db)
    obtain y r1 where y: "resolve_shard shard_fn t r = (y, r1)" by (cases "resolve_shard shard_fn t r")
    obtain z s1 where z: "select s (tg_database t) = (z, s1)" by (cases "select s (tg_database t)")
    from assms(3) Some y z r s [of "tg_database t"] show ?thesis
      by (auto simp: resolve_def split: sum.splits if_splits option.splits)
  qed
qed

lemma route_ok:
  assumes sy: "synced replicas_of f" and r: "rinv r" and g: "tg_shard_key t = None \<or> good (tg_shard_key t)"
    and res: "fst (resolve shard_fn select ryw (fd_config f) t (r, fd_selector f)) = Inr rt"
  shows "\<exists>db tgt. dict_get (databases (fd_config f)) (tg_database t) = Some db
    \<and> target_for (fd_config f) rt = Inr tgt
    \<and> (if rt_role rt = Replica then wants_replica t \<and> \<not> ryw \<and> tgt \<in> set (db_replicas db) else tgt = db_primary db)
    \<and> rt_database rt = tg_database t
    \<and> Inr (rt_shard_id rt) = (if tg_shard_key t = None then Inr ''default''
        else assignment (tg_database t, tg_shard_key t))"
proof -
  obtain db where db: "dict_get (databases (fd_config f)) (tg_database t) = Some db"
    using res by (cases "dict_get (databases (fd_config f)) (tg_database t)") (auto simp: resolve_def raise_db_def)
  have shard: "fst (resolve_shard shard_fn t r) =
      (if tg_shard_key t = None then Inr ''default'' else assignment (tg_database t, tg_shard_key t))"
    using r g sh.resolve_assignment [of r "(tg_database t, tg_shard_key t)"] by (auto simp: resolve_shard_def)
  obtain y r1 where y: "resolve_shard shard_fn t r = (y, r1)" by (cases "resolve_shard shard_fn t r")
  obtain sid where sid: "y = Inr sid" using res db y by (cases y) (auto simp: resolve_def)
  let ?replica = "wants_replica t \<and> db_replicas db \<noteq> [] \<and> \<not> ryw"
  obtain z s1 where z: "select (fd_selector f) (tg_database t) = (z, s1)"
    by (cases "select (fd_selector f) (tg_database t)")
  have prim: ?thesis if "rt = primary_route (tg_database t) sid"
    using that db shard y sid by (auto simp: target_for_def primary_route_def)
  show ?thesis
  proof (cases "?replica \<and> z \<noteq> None")
    case False
    with res db y sid z have "rt = primary_route (tg_database t) sid"
      by (auto simp: resolve_def split: if_splits option.splits)
    then show ?thesis by (rule prim)
  next
    case True
    then obtain n where n: "z = Some n" by auto
    with True res db y sid z have rt: "rt = \<lparr>rt_database = tg_database t, rt_shard_id = sid, rt_role = Replica, rt_replica_name = Some n\<rparr>"
      by (simp add: resolve_def)
    have "n \<in> set (replica_names db)"
      using sel.select_member [of "fd_selector f" "tg_database t" n] z n sy db by (auto simp: synced_def)
    then obtain tgt where tgt: "find (\<lambda>u. Some (t_name u) = Some n) (db_replicas db) = Some tgt"
      by (cases "find (\<lambda>u. Some (t_name u) = Some n) (db_replicas db)") (auto simp: find_None_iff replica_names_def)
    then have "tgt \<in> set (db_replicas db)" by (auto simp: find_Some_iff)
    with tgt rt True db shard y sid show ?thesis by (auto simp: target_for_def)
  qed
qed

end

subsection \<open>The facade as a machine\<close>

datatype facade_event =
    FvRegister string database_config "bool option" real
  | FvEnsure string database_config "bool option" real
  | FvUnregister string
  | FvStart real
  | FvClose
  | FvResolve target bool

datatype facade_answer = FaBool "bool py" | FaUnit "unit py" | FaRoute "route py"

fun facade_step ::
  "creator \<Rightarrow> 'r shard_fn \<Rightarrow> 's select_fn \<Rightarrow> (string \<Rightarrow> string list \<Rightarrow> 's \<Rightarrow> 's)
     \<Rightarrow> 'r \<times> 's facade \<Rightarrow> facade_event \<Rightarrow> facade_answer \<times> ('r \<times> 's facade)" where
  "facade_step create shards select set_replicas (r, f) (FvRegister n db connect t) =
     (case register_database create set_replicas t n db connect f of (x, _, f') \<Rightarrow> (FaBool x, (r, f')))"
| "facade_step create shards select set_replicas (r, f) (FvEnsure n db connect t) =
     (case ensure_database create set_replicas t n db connect f of (x, _, f') \<Rightarrow> (FaBool x, (r, f')))"
| "facade_step create shards select set_replicas (r, f) (FvUnregister n) =
     (case unregister_database set_replicas n f of (x, _, f') \<Rightarrow> (FaBool x, (r, f')))"
| "facade_step create shards select set_replicas (r, f) (FvStart t) =
     (case start create t f of (x, _, f') \<Rightarrow> (FaUnit x, (r, f')))"
| "facade_step create shards select set_replicas (r, f) FvClose =
     (case close f of (_, f') \<Rightarrow> (FaUnit (Inr ()), (r, f')))"
| "facade_step create shards select set_replicas (r, f) (FvResolve t ryw) =
     (case resolve shards select ryw (fd_config f) t (r, fd_selector f) of
        (x, (r', s')) \<Rightarrow> (FaRoute x, (r', f\<lparr>fd_selector := s'\<rparr>)))"

text \<open>The static names and the limit never change.\<close>

definition fd_const :: "'s facade \<Rightarrow> string list \<times> int option" where
  "fd_const f = (fd_static f, max_databases (fd_config f))"

lemma fd_const_simps [simp]:
  "fd_const (swap_databases dbs f) = fd_const f" "fd_const (f\<lparr>fd_selector := s\<rparr>) = fd_const f"
  "fd_const (f\<lparr>fd_dynamic_lru := l\<rparr>) = fd_const f" "fd_const (f\<lparr>fd_started := b\<rparr>) = fd_const f"
  "fd_const (touch_dynamic n f) = fd_const f"
  by (simp_all add: fd_const_def)

lemma purge_const: "fd_const (snd (purge_database_state n f)) = fd_const f"
  using purge_frame [where n = n and f = f] by (auto simp: fd_const_def split: prod.splits)

lemma evict_loop_const: "fd_const (snd (snd (evict_loop clear limit lru f))) = fd_const f"
proof (induction lru arbitrary: f)
  case (Cons victim rest)
  obtain ds f1 where p: "purge_database_state victim (f\<lparr>fd_dynamic_lru := rest\<rparr>) = (ds, f1)"
    by (cases "purge_database_state victim (f\<lparr>fd_dynamic_lru := rest\<rparr>)")
  then have f1: "fd_const f1 = fd_const f"
    using purge_const [where n = victim and f = "f\<lparr>fd_dynamic_lru := rest\<rparr>"] by simp
  let ?f2 = "swap_databases (dict_pop victim (databases (fd_config f1))) f1"
  have "fd_const (snd (snd (evict_loop clear limit rest (?f2\<lparr>fd_selector := clear victim (fd_selector ?f2)\<rparr>)))) = fd_const f"
    by (simp only: Cons.IH fd_const_simps f1)
  then show ?case by (auto simp: p Let_def split: prod.split)
qed simp

lemma registry_const: "rg_config r = rg_config (fd_registry f) \<Longrightarrow> fd_const (f\<lparr>fd_registry := r\<rparr>) = fd_const f"
  by (simp add: fd_const_def fd_config_def)

text \<open>The registration, step by step.\<close>

definition purged :: "string \<Rightarrow> 's facade \<Rightarrow> nat list \<times> 's facade" where
  "purged n f = (if dict_get (databases (fd_config f)) n \<noteq> None then purge_database_state n f else ([], f))"

definition admitted :: "(string \<Rightarrow> string list \<Rightarrow> 's \<Rightarrow> 's) \<Rightarrow> string \<Rightarrow> database_config \<Rightarrow> 's facade \<Rightarrow> 's facade" where
  "admitted set_replicas n db f =
     (let f1 = snd (purged n f); f2 = swap_databases (dict_set n db (databases (fd_config f1))) f1
      in touch_dynamic n (f2\<lparr>fd_selector := set_replicas n (replica_names db) (fd_selector f2)\<rparr>))"

lemma purged_frame:
  "fd_config (snd (purged n f)) = fd_config f" "fd_selector (snd (purged n f)) = fd_selector f"
  "fd_static (snd (purged n f)) = fd_static f" "fd_dynamic_lru (snd (purged n f)) = fd_dynamic_lru f"
  using purge_frame [where n = n and f = f] by (auto simp: purged_def split: prod.splits)

lemma admitted_simps:
  "fd_config (admitted set_replicas n db f) = (fd_config f)\<lparr>databases := dict_set n db (databases (fd_config f))\<rparr>"
  "fd_static (admitted set_replicas n db f) = fd_static f"
  "fd_selector (admitted set_replicas n db f) = set_replicas n (replica_names db) (fd_selector f)"
  "fd_dynamic_lru (admitted set_replicas n db f) =
     (if n \<in> set (fd_static f) then fd_dynamic_lru f else removeAll n (fd_dynamic_lru f) @ [n])"
  by (simp_all add: admitted_def Let_def purged_frame) (simp_all add: touch_dynamic_def purged_frame)

lemma register_unfold:
  assumes "admit_database n db f = Inr u"
    and e: "evict_lru_databases (\<lambda>n. set_replicas n []) (admitted set_replicas n db f) = (x, ds2, f5)"
    and g: "registry_get_engine create t (primary_route n ''default'') (fd_registry f5) = (y, ds3, r)"
  shows "register_database create set_replicas t n db connect f =
      (case x of Inl er \<Rightarrow> (Inl er, fst (purged n f) @ ds2, f5)
       | Inr _ \<Rightarrow>
           if (case connect of Some c \<Rightarrow> c | None \<Rightarrow> fd_started f5 \<and> t_required (db_primary db)) then
             (case y of
                Inl er \<Rightarrow> (Inl er, fst (purged n f) @ ds2 @ ds3, f5\<lparr>fd_registry := r\<rparr>)
              | Inr _ \<Rightarrow> (Inr (dict_get (databases (fd_config f)) n \<noteq> None), fst (purged n f) @ ds2 @ ds3, f5\<lparr>fd_registry := r\<rparr>))
           else (Inr (dict_get (databases (fd_config f)) n \<noteq> None), fst (purged n f) @ ds2, f5))"
proof -
  have p: "purged n f = (fst (purged n f), snd (purged n f))" by simp
  show ?thesis
    unfolding register_database_def assms(1) sum.case Let_def purged_def [symmetric]
    by (subst p) (unfold prod.case, use e in \<open>simp add: admitted_def Let_def g split: sum.split option.split\<close>)
qed

lemma register_cases:
  obtains (refused) e where "admit_database n db f = Inl e" "register_database create set_replicas t n db connect f = (Inl e, [], f)"
  | (failed) e ds f' r where "admit_database n db f = Inr ()"
      "register_database create set_replicas t n db connect f = (Inl e, ds, f'\<lparr>fd_registry := r\<rparr>)"
      "rg_config r = rg_config (fd_registry f')"
      "f' = snd (snd (evict_lru_databases (\<lambda>n. set_replicas n []) (admitted set_replicas n db f)))"
  | (ok) ds f' r where "admit_database n db f = Inr ()"
      "register_database create set_replicas t n db connect f =
         (Inr (dict_get (databases (fd_config f)) n \<noteq> None), ds, f'\<lparr>fd_registry := r\<rparr>)"
      "rg_config r = rg_config (fd_registry f')"
      "f' = snd (snd (evict_lru_databases (\<lambda>n. set_replicas n []) (admitted set_replicas n db f)))"
proof (cases "admit_database n db f")
  case (Inl e)
  then show ?thesis by (intro refused) (simp_all add: register_database_def)
next
  case (Inr u)
  obtain x ds2 f5 where e: "evict_lru_databases (\<lambda>n. set_replicas n []) (admitted set_replicas n db f) = (x, ds2, f5)"
    by (cases "evict_lru_databases (\<lambda>n. set_replicas n []) (admitted set_replicas n db f)") auto
  obtain y ds3 r where g: "registry_get_engine create t (primary_route n ''default'') (fd_registry f5) = (y, ds3, r)"
    by (cases "registry_get_engine create t (primary_route n ''default'') (fd_registry f5)") auto
  let ?rep = "dict_get (databases (fd_config f)) n \<noteq> None"
  have rg: "rg_config r = rg_config (fd_registry f5)"
    using registry_get_config [of create t "primary_route n ''default''" "fd_registry f5"] g by simp
  note eq = register_unfold [OF Inr e g, of connect]
  have same: "f5 = f5\<lparr>fd_registry := fd_registry f5\<rparr>" by simp
  consider (a) er where "x = Inl er" | (b) "x = Inr ()" by (cases x) auto
  then show ?thesis
  proof cases
    case a
    show ?thesis by (rule failed [where e = er and f' = f5 and r = "fd_registry f5"]) (use Inr e eq a in simp_all)
  next
    case b
    show ?thesis
    proof (cases "case connect of Some c \<Rightarrow> c | None \<Rightarrow> fd_started f5 \<and> t_required (db_primary db)")
      case False
      show ?thesis by (rule ok [where f' = f5 and r = "fd_registry f5"]) (use Inr e eq b False in \<open>simp_all split del: if_split\<close>)
    next
      case True
      show ?thesis
      proof (cases y)
        case (Inl er)
        show ?thesis by (rule failed [where e = er and f' = f5 and r = r]) (use Inr e eq b True Inl rg in \<open>simp_all split del: if_split\<close>)
      next
        case (Inr v)
        show ?thesis by (rule ok [where f' = f5 and r = r])
          (use \<open>admit_database n db f = Inr u\<close> e eq b True Inr rg in \<open>simp_all split del: if_split\<close>)
      qed
    qed
  qed
qed

lemma evict_const: "fd_const (snd (snd (evict_lru_databases clear f))) = fd_const f"
  by (simp add: evict_lru_databases_def evict_loop_const split: option.split)

lemma admitted_const: "fd_const (admitted set_replicas n db f) = fd_const f"
  by (simp add: fd_const_def admitted_simps)

lemma register_const: "fd_const (snd (snd (register_database create set_replicas t n db connect f))) = fd_const f"
  by (rule register_cases [of n db f create set_replicas t connect])
    (simp_all add: registry_const evict_const admitted_const)

lemma ensure_const: "fd_const (snd (snd (ensure_database create set_replicas t n db connect f))) = fd_const f"
  using register_const [of create set_replicas t n db connect f]
  by (auto simp: ensure_database_def split: prod.split sum.split)

lemma unregister_const: "fd_const (snd (snd (unregister_database set_replicas n f))) = fd_const f"
  using purge_const [of n f] by (auto simp: unregister_database_def Let_def split: prod.split)

lemma start_cases:
  "snd (snd (start create t f)) = f \<or>
   (\<exists>r b. rg_config r = rg_config (fd_registry f) \<and> snd (snd (start create t f)) = f\<lparr>fd_registry := r, fd_started := b\<rparr>)"
proof -
  obtain x ds r where s: "start_engines create t (databases (fd_config f)) (fd_registry f) = (x, ds, r)"
    by (cases "start_engines create t (databases (fd_config f)) (fd_registry f)") auto
  then have "rg_config r = rg_config (fd_registry f)"
    using start_engines_config [of create t "databases (fd_config f)" "fd_registry f"] by simp
  moreover have "f\<lparr>fd_registry := r\<rparr> = f\<lparr>fd_registry := r, fd_started := fd_started f\<rparr>" by simp
  moreover have "snd (snd (start create t f)) \<in>
      {f, f\<lparr>fd_registry := r\<rparr>, f\<lparr>fd_registry := r, fd_started := True\<rparr>}"
    by (cases x) (auto simp: start_def s split: sum.split)
  ultimately show ?thesis by (metis insert_iff singletonD)
qed

lemma close_cases: "\<exists>r. rg_config r = rg_config (fd_registry f) \<and> snd (close f) = f\<lparr>fd_registry := r, fd_started := False\<rparr>"
  by (rule exI [of _ "(fd_registry f)\<lparr>rg_entries := []\<rparr>"]) (simp add: close_def dispose_all_def)

lemma facade_step_const: "fd_const (snd (snd (facade_step create shards select set_replicas rf ev))) = fd_const (snd rf)"
proof (cases rf)
  case (Pair r f)
  show ?thesis
  proof (cases ev)
    case (FvRegister n db connect t)
    then show ?thesis using register_const [of create set_replicas t n db connect f] by (auto simp: Pair split: prod.split)
  next
    case (FvEnsure n db connect t)
    then show ?thesis using ensure_const [of create set_replicas t n db connect f] by (auto simp: Pair split: prod.split)
  next
    case (FvUnregister n)
    then show ?thesis using unregister_const [of set_replicas n f] by (auto simp: Pair split: prod.split)
  next
    case (FvStart t)
    then show ?thesis using start_cases [of create t f] registry_const [where f = f] by (auto simp: Pair split: prod.split)
  next
    case FvClose
    then show ?thesis using close_cases [of f] registry_const [where f = f] by (auto simp: Pair split: prod.split)
  qed (simp add: Pair split: prod.split)
qed

text \<open>A facade whose resolver accepts every key.\<close>

locale facade_machine = facade_routing shard_fn assignment "\<lambda>_. True" rinv select set_replicas replicas_of
  for shard_fn :: "'r shard_fn" and assignment rinv
    and select :: "'s select_fn" and set_replicas replicas_of +
  fixes create :: creator
begin

abbreviation minv :: "'r \<times> 's facade \<Rightarrow> bool" where
  "minv rf \<equiv> rinv (fst rf) \<and> facade_ok replicas_of (snd rf)"

lemma same_config_ok: "facade_ok replicas_of f \<Longrightarrow> rg_config r = rg_config (fd_registry f) \<Longrightarrow>
    facade_ok replicas_of (f\<lparr>fd_registry := r, fd_started := b\<rparr>)"
  by (simp add: facade_ok_def synced_def lru_ok_def bounded_lru_def fd_config_def)

lemma select_ok: "facade_ok replicas_of f \<Longrightarrow> replicas_of s = replicas_of (fd_selector f) \<Longrightarrow>
    facade_ok replicas_of (f\<lparr>fd_selector := s\<rparr>)"
  by (simp add: facade_ok_def synced_def lru_ok_def bounded_lru_def)

lemma machine_inv: "minv rf \<Longrightarrow> minv (snd (facade_step create shard_fn select set_replicas rf ev))"
proof (cases rf)
  case (Pair r f)
  assume inv: "minv rf"
  then have ok: "facade_ok replicas_of f" and ri: "rinv r" by (simp_all add: Pair)
  show ?thesis
  proof (cases ev)
    case (FvRegister n db connect t)
    then show ?thesis using register_ok [OF ok, of create t n db connect] ri by (auto simp: Pair split: prod.split)
  next
    case (FvEnsure n db connect t)
    then show ?thesis using ensure_ok [OF ok, of create t n db connect] ri by (auto simp: Pair split: prod.split)
  next
    case (FvUnregister n)
    then show ?thesis using unregister_ok [OF ok, of n] ri by (auto simp: Pair split: prod.split)
  next
    case (FvStart t)
    then show ?thesis using start_cases [of create t f] same_config_ok [OF ok] ok ri by (auto simp: Pair split: prod.split)
  next
    case FvClose
    then show ?thesis using close_cases [of f] same_config_ok [OF ok] ri by (auto simp: Pair split: prod.split)
  next
    case (FvResolve t ryw)
    obtain x r' s' where "resolve shard_fn select ryw (fd_config f) t (r, fd_selector f) = (x, (r', s'))"
      by (cases "resolve shard_fn select ryw (fd_config f) t (r, fd_selector f)") auto
    with FvResolve show ?thesis
      using resolve_keeps [OF ri] select_ok [OF ok, of s'] by (auto simp: Pair)
  qed
qed

sublocale machine: invariant_machine "facade_step create shard_fn select set_replicas" minv
  by unfold_locales (rule machine_inv)

sublocale store: bounded_store "facade_step create shard_fn select set_replicas"
    "\<lambda>rf. minv rf \<and> max_databases (fd_config (snd rf)) \<noteq> None"
    "\<lambda>rf. length (fd_dynamic_lru (snd rf))"
    "\<lambda>rf. case max_databases (fd_config (snd rf)) of None \<Rightarrow> 0 | Some m \<Rightarrow> nat m"
proof (unfold_locales, goal_cases)
  case (1 rf ev)
  then show ?case using machine_inv [of rf ev] facade_step_const [of create shard_fn select set_replicas rf ev]
    by (auto simp: fd_const_def)
next
  case (2 rf)
  then show ?case by (auto simp: facade_ok_def bounded_lru_def)
next
  case (3 rf ev)
  then show ?case using facade_step_const [of create shard_fn select set_replicas rf ev] by (auto simp: fd_const_def)
qed

end

interpretation default_facade: facade_machine single_resolve "\<lambda>_. Inr ''default''" "\<lambda>_. True"
    rr_select rr_set_replicas rr_replicas_of create
  for create
  by unfold_locales

interpretation weighted_facade: facade_machine single_resolve "\<lambda>_. Inr ''default''" "\<lambda>_. True"
    "weighted_select rand" "\<lambda>db ns. weighted_set_replicas db (map (\<lambda>n. (n, weight n)) ns)" weighted_replicas_of create
  for rand weight create
  by unfold_locales

subsection \<open>Properties\<close>

lemma get_or_names: "get_or [] (map (\<lambda>(n, db). (n, replica_names db)) d) n = (case dict_get d n of None \<Rightarrow> [] | Some db \<Rightarrow> replica_names db)"
  by (induction d) (auto simp: get_or_def)

text \<open>The selector the constructor builds: every configured database with its replicas.\<close>

definition default_selector :: "dbkit_config \<Rightarrow> round_robin" where
  "default_selector cfg = new_round_robin (map (\<lambda>(n, db). (n, replica_names db)) (databases cfg))"

lemma new_facade_ok: "facade_ok rr_replicas_of (new_facade cfg (default_selector cfg))"
  by (auto simp: facade_ok_def synced_def lru_ok_def bounded_lru_def new_facade_def fd_config_def new_registry_def
      default_selector_def new_round_robin_def rr_replicas_of_def get_or_names dict_get_None_iff)

abbreviation default_step :: "creator \<Rightarrow> unit \<times> round_robin facade \<Rightarrow> facade_event \<Rightarrow> facade_answer \<times> (unit \<times> round_robin facade)" where
  "default_step create \<equiv> facade_step create single_resolve rr_select rr_set_replicas"

text \<open>C1. Routing is safe after any history: whatever databases were registered, replaced, evicted or
  unregistered before, and whatever was routed, a route that the facade resolves leads to a configured
  target of the named database: a replica only for a target that allows one and outside a
  read-your-writes scope, and the primary otherwise.\<close>

theorem routes_lead_to_targets:
  assumes "(u, f) = snd (run_steps (default_step create) ((), new_facade cfg (default_selector cfg)) evs)"
    and "fst (resolve single_resolve rr_select ryw (fd_config f) t (u, fd_selector f)) = Inr rt"
  shows "\<exists>db tgt. dict_get (databases (fd_config f)) (tg_database t) = Some db
    \<and> target_for (fd_config f) rt = Inr tgt
    \<and> (if rt_role rt = Replica then wants_replica t \<and> \<not> ryw \<and> tgt \<in> set (db_replicas db) else tgt = db_primary db)
    \<and> rt_database rt = tg_database t \<and> rt_shard_id rt = ''default''"
proof -
  have "facade_ok rr_replicas_of (snd (snd (run_steps (default_step create) ((), new_facade cfg (default_selector cfg)) evs)))"
    using default_facade.machine.run_inv [of "((), new_facade cfg (default_selector cfg))" create evs] new_facade_ok by simp
  then have "synced rr_replicas_of f" by (simp add: assms(1) [symmetric] facade_ok_def)
  from rr_single.route_ok [OF this _ _ assms(2)] show ?thesis by (auto split: if_splits)
qed

lemma card_dynamic:
  assumes "lru_ok f"
  shows "card {n. dict_get (databases (fd_config f)) n \<noteq> None \<and> n \<notin> set (fd_static f)} \<le> length (fd_dynamic_lru f)"
proof -
  have "{n. dict_get (databases (fd_config f)) n \<noteq> None \<and> n \<notin> set (fd_static f)} \<subseteq> set (fd_dynamic_lru f)"
    using assms by (auto simp: lru_ok_def)
  then show ?thesis by (meson List.finite_set card_length card_mono order_trans)
qed


text \<open>What one eviction round does: it drops the oldest names beyond the limit, and unregisters exactly
  those.\<close>

lemma evict_loop_spec:
  assumes "0 \<le> limit" "evict_loop clear limit lru f = (x, ds, f')"
  shows "x = Inr () \<and> fd_dynamic_lru f' = drop (length lru - nat limit) lru
    \<and> (\<forall>n. dict_get (databases (fd_config f')) n =
          (if n \<in> set (take (length lru - nat limit) lru) then None else dict_get (databases (fd_config f)) n))"
  using assms(2)
proof (induction lru arbitrary: f x ds f')
  case Nil
  with assms(1) show ?case by auto
next
  case (Cons victim rest)
  show ?case
  proof (cases "int (length (victim # rest)) > limit")
    case False
    with Cons.prems have "length (victim # rest) - nat limit = 0" by linarith
    with False Cons.prems show ?thesis by auto
  next
    case True
    with assms(1) have k: "length (victim # rest) - nat limit = Suc (length rest - nat limit)" by simp
    obtain ds1 f1 where p: "purge_database_state victim (f\<lparr>fd_dynamic_lru := rest\<rparr>) = (ds1, f1)"
      by (cases "purge_database_state victim (f\<lparr>fd_dynamic_lru := rest\<rparr>)")
    with purge_frame [where n = victim and f = "f\<lparr>fd_dynamic_lru := rest\<rparr>"] have f1: "fd_config f1 = fd_config f" by simp
    let ?f2 = "swap_databases (dict_pop victim (databases (fd_config f1))) f1"
    let ?f3 = "?f2\<lparr>fd_selector := clear victim (fd_selector ?f2)\<rparr>"
    obtain ds2 where e: "evict_loop clear limit rest ?f3 = (x, ds2, f')"
      using Cons.prems True p by (auto simp: Let_def split: prod.splits)
    from Cons.IH [OF this] show ?thesis
      unfolding k by (simp add: f1 dict_get_pop)
  qed
qed

text \<open>A registration that succeeds takes effect: the name then has the new configuration, it is reported
  as replaced exactly when it was known, and the only databases that disappear are the least recently used
  dynamic ones beyond the limit.\<close>

theorem register_takes_effect:
  assumes "lru_ok f" "max_databases (fd_config f) = Some m" "0 < m"
    and "register_database create set_replicas t n db connect f = (Inr b, ds, f')"
  shows "dict_get (databases (fd_config f')) n = Some db
    \<and> b = (dict_get (databases (fd_config f)) n \<noteq> None)
    \<and> (\<forall>k. k \<noteq> n \<longrightarrow> dict_get (databases (fd_config f')) k =
          (let lru = fd_dynamic_lru (touch_dynamic n f) in
           if k \<in> set (take (length lru - nat m) lru) then None else dict_get (databases (fd_config f)) k))"
proof -
  let ?a = "admitted set_replicas n db f"
  let ?lru = "fd_dynamic_lru (touch_dynamic n f)"
  obtain f1 r where f1: "b = (dict_get (databases (fd_config f)) n \<noteq> None)" "f' = f1\<lparr>fd_registry := r\<rparr>"
    "rg_config r = rg_config (fd_registry f1)" "f1 = snd (snd (evict_lru_databases (\<lambda>n. set_replicas n []) ?a))"
    by (rule register_cases [of n db f create set_replicas t connect]) (use assms(4) in auto)
  obtain x ds' where ev: "evict_loop (\<lambda>n. set_replicas n []) m (fd_dynamic_lru ?a) ?a = (x, ds', f1)"
    using f1(4) assms(2) by (cases "evict_loop (\<lambda>n. set_replicas n []) m (fd_dynamic_lru ?a) ?a")
      (auto simp: evict_lru_databases_def admitted_simps)
  have lru: "fd_dynamic_lru ?a = ?lru" by (simp add: admitted_simps touch_dynamic_def)
  have "n \<notin> set (take (length ?lru - nat m) ?lru)"
  proof (cases "n \<in> set (fd_static f)")
    case True
    with assms(1) have "n \<notin> set ?lru" by (auto simp: lru_ok_def touch_dynamic_def)
    then show ?thesis by (meson in_set_takeD)
  next
    case False
    then have "?lru = removeAll n (fd_dynamic_lru f) @ [n]" by (simp add: touch_dynamic_def)
    moreover have "length (removeAll n (fd_dynamic_lru f) @ [n]) - nat m \<le> length (removeAll n (fd_dynamic_lru f))"
      using assms(3) by simp
    ultimately show ?thesis by (auto dest: in_set_takeD)
  qed
  moreover have "fd_config f' = fd_config f1" using f1(2,3) by (simp add: fd_config_def)
  ultimately show ?thesis
    using evict_loop_spec [OF _ ev] assms(3) f1(1) lru
    by (auto simp: admitted_simps dict_get_set Let_def)
qed

text \<open>With a limit of zero a registration reports success for a database that is not there: the eviction
  that ends it takes the database just registered.\<close>

theorem register_zero_limit_loses:
  assumes "facade_ok rr_replicas_of f" "max_databases (fd_config f) = Some 0" "n \<notin> set (fd_static f)"
    and "register_database create rr_set_replicas t n db connect f = (Inr b, ds, f')"
  shows "dict_get (databases (fd_config f')) n = None"
proof -
  have "facade_ok rr_replicas_of f'"
    using rr_single.register_ok [OF assms(1), of create t n db connect] assms(4) by simp
  moreover have "fd_const f' = fd_const f"
    using register_const [of create rr_set_replicas t n db connect f] assms(4) by simp
  ultimately show ?thesis
    using assms(2,3) by (auto simp: facade_ok_def lru_ok_def bounded_lru_def fd_const_def)
qed

lemma unregister_databases:
  assumes "unregister_database set_replicas n f = (x, ds, f')"
  shows "dict_get (databases (fd_config f')) k = (if k = n then None else dict_get (databases (fd_config f)) k)"
proof -
  obtain ds1 f1 where p: "purge_database_state n f = (ds1, f1)" by (cases "purge_database_state n f")
  with purge_frame [where n = n and f = f] have "fd_config f1 = fd_config f" by simp
  then show ?thesis
    using assms by (auto simp: unregister_database_def p Let_def dict_get_pop split: if_splits)
qed

text \<open>Unregistering forgets the database and nothing else: the answer says whether it was known, it is
  unknown afterwards, resolving it fails with a routing error, and every other database keeps its
  configuration.\<close>

theorem unregister_forgets:
  assumes "unregister_database set_replicas n f = (x, ds, f')"
  shows "x = Inr (dict_get (databases (fd_config f)) n \<noteq> None)
    \<and> (\<forall>k. dict_get (databases (fd_config f')) k = (if k = n then None else dict_get (databases (fd_config f)) k))
    \<and> (\<forall>t st. tg_database t = n \<longrightarrow>
          fst (resolve shards select ryw (fd_config f') t st) = raise_db DatabaseRoutingError (''unknown database '' @ quoted n))"
proof -
  obtain ds1 f1 where p: "purge_database_state n f = (ds1, f1)" by (cases "purge_database_state n f")
  with purge_frame [where n = n and f = f] have "fd_config f1 = fd_config f" by simp
  then show ?thesis
    using assms by (auto simp: unregister_database_def resolve_def p Let_def dict_get_pop split: if_splits)
qed

text \<open>Concrete facades: no budget, and room for \<open>m\<close> dynamic databases.\<close>

definition sample_database :: database_config where
  "sample_database =
     \<lparr>db_primary = (sample_target ''postgresql://h/db'')\<lparr>t_pool := None\<rparr>, db_replicas = [],
      db_concurrency = \<lparr>cc_database = None, cc_reads = None, cc_writes = None, cc_bulk_writes = None,
        cc_expensive_queries = None\<rparr>, db_connection_budget = no_budget\<rparr>"

definition sample_facade :: "int \<Rightarrow> round_robin facade" where
  "sample_facade m =
     (let cfg = (sample_config None)\<lparr>connection_budget := no_budget, max_databases := Some m\<rparr>
      in new_facade cfg (default_selector cfg))"

lemma sample_facade_ok: "facade_ok rr_replicas_of (sample_facade m)"
  by (simp add: sample_facade_def Let_def new_facade_ok)

lemma sample_facade_simps:
  "max_databases (fd_config (sample_facade m)) = Some m" "fd_static (sample_facade m) = [''app'']"
  "databases (fd_config (sample_facade m)) = databases (sample_config None)"
  "connection_budget (fd_config (sample_facade m)) = no_budget"
  "fd_started (sample_facade m) = False" "fd_dynamic_lru (sample_facade m) = []"
  by (simp_all add: sample_facade_def Let_def new_facade_def fd_config_def new_registry_def sample_config_def)

lemma sample_admits: "admit_database ''t'' sample_database (sample_facade m) = Inr ()"
  by (simp add: admit_database_def database_validate_def sample_database_def sample_target_valid
      database_enforce_connection_budget_def enforce_connection_budget_def budget_check_def no_budget_def
      sample_facade_simps)

lemma evict_loop_total: "0 \<le> limit \<Longrightarrow> \<exists>ds f'. evict_loop clear limit lru f = (Inr (), ds, f')"
  using evict_loop_spec [of limit clear lru f] by (metis prod.exhaust)

lemma sample_registers:
  assumes "0 \<le> m"
  shows "\<exists>ds f'. register_database create rr_set_replicas t ''t'' sample_database (Some False) (sample_facade m) = (Inr False, ds, f')"
proof -
  have new: "dict_get (databases (fd_config (sample_facade m))) ''t'' = None"
    by (simp add: sample_facade_simps sample_config_def)
  let ?a = "admitted rr_set_replicas ''t'' sample_database (sample_facade m)"
  obtain ds f' where "evict_lru_databases (\<lambda>n. rr_set_replicas n []) ?a = (Inr (), ds, f')"
    using evict_loop_total [OF assms, of "\<lambda>n. rr_set_replicas n []" "fd_dynamic_lru ?a" ?a]
    by (auto simp: evict_lru_databases_def admitted_simps sample_facade_simps)
  then show ?thesis
    by (simp add: register_database_def sample_admits new admitted_def purged_def Let_def)
qed

lemma register_takes_effect_witness:
  "\<exists>ds f'. register_database (\<lambda>_ _. Inr 1) rr_set_replicas 1 ''t'' sample_database (Some False) (sample_facade 1) = (Inr False, ds, f')
     \<and> dict_get (databases (fd_config f')) ''t'' = Some sample_database"
proof -
  obtain ds f' where r: "register_database (\<lambda>_ _. Inr 1) rr_set_replicas 1 ''t'' sample_database (Some False) (sample_facade 1) = (Inr False, ds, f')"
    using sample_registers [where m = 1 and t = 1 and create = "\<lambda>_ _. Inr 1"] by auto
  have "dict_get (databases (fd_config f')) ''t'' = Some sample_database"
    using register_takes_effect [OF _ _ _ r, of 1] sample_facade_ok [of 1] by (simp add: facade_ok_def sample_facade_simps)
  with r show ?thesis by blast
qed

lemma register_zero_limit_loses_witness:
  "\<exists>ds f'. register_database (\<lambda>_ _. Inr 1) rr_set_replicas 1 ''t'' sample_database (Some False) (sample_facade 0) = (Inr False, ds, f')
     \<and> dict_get (databases (fd_config f')) ''t'' = None"
proof -
  obtain ds f' where r: "register_database (\<lambda>_ _. Inr 1) rr_set_replicas 1 ''t'' sample_database (Some False) (sample_facade 0) = (Inr False, ds, f')"
    using sample_registers [where m = 0 and t = 1 and create = "\<lambda>_ _. Inr 1"] by auto
  have "dict_get (databases (fd_config f')) ''t'' = None"
    using register_zero_limit_loses [OF _ _ _ r] sample_facade_ok [of 0] by (simp add: sample_facade_simps)
  with r show ?thesis by blast
qed

lemma unregister_forgets_witness:
  "dict_get (databases (fd_config (snd (snd (unregister_database rr_set_replicas ''app'' (sample_facade 1)))))) ''app'' = None"
proof -
  obtain x ds f' where u: "unregister_database rr_set_replicas ''app'' (sample_facade 1) = (x, ds, f')"
    by (cases "unregister_database rr_set_replicas ''app'' (sample_facade 1)") auto
  from unregister_forgets [OF u, of single_resolve rr_select False] u show ?thesis by simp
qed


lemma routes_lead_to_targets_witness:
  "\<exists>db tgt. dict_get (databases (sample_config None)) ''app'' = Some db
     \<and> target_for (sample_config None) (primary_route ''app'' ''default'') = Inr tgt \<and> tgt = db_primary db"
proof -
  let ?cfg = "sample_config None"
  let ?t = "\<lparr>tg_database = ''app'', tg_role = RoleWrite, tg_shard_key = None\<rparr>"
  have "fst (resolve single_resolve rr_select False (fd_config (new_facade ?cfg (default_selector ?cfg))) ?t
      ((), fd_selector (new_facade ?cfg (default_selector ?cfg)))) = Inr (primary_route ''app'' ''default'')"
    by (simp add: resolve_def resolve_shard_def wants_replica_def new_facade_def fd_config_def new_registry_def sample_config_def)
  from routes_lead_to_targets [of "()" "new_facade ?cfg (default_selector ?cfg)" "\<lambda>_ _. Inr 1" ?cfg "[]", OF _ this]
  show ?thesis by (simp add: primary_route_def new_facade_def fd_config_def new_registry_def)
qed

end
