(* ===== verification/Sizing.thy ===== *)
theory Sizing
  imports Config Effects
begin

text \<open>
  The pure part of bulk writes: batch sizing and slicing (\<^verbatim>\<open>_core/bulk.py\<close>) and the array
  parameters of the \<^verbatim>\<open>unnest\<close> strategy (\<^verbatim>\<open>postgres/unnest.py\<close>). A row is a dictionary from
  columns to values in column order.
\<close>

type_synonym row = "(string, pyval) dict"

definition PG_MAX_BIND_PARAMS :: int where
  "PG_MAX_BIND_PARAMS = 65535"

record bulk_limits =
  bl_max_rows :: int
  bl_max_params :: int
  bl_max_payload_bytes :: "int option"

definition default_bulk_limits :: bulk_limits where
  "default_bulk_limits = \<lparr>bl_max_rows = 1000, bl_max_params = PG_MAX_BIND_PARAMS, bl_max_payload_bytes = None\<rparr>"

text \<open>The length of \<^verbatim>\<open>str(value).encode()\<close> is the value's own business: \<open>str_bytes\<close>.\<close>

definition value_bytes :: "(pyval \<Rightarrow> nat) \<Rightarrow> pyval \<Rightarrow> int" where
  "value_bytes str_bytes v =
     (case v of PNone \<Rightarrow> 0 | PBytes bs \<Rightarrow> int (length bs) | _ \<Rightarrow> int (str_bytes v))"

definition estimate_row_bytes :: "(pyval \<Rightarrow> nat) \<Rightarrow> row \<Rightarrow> int" where
  "estimate_row_bytes str_bytes row = sum_list (map (\<lambda>(_, v). value_bytes str_bytes v) row)"

text \<open>\<^verbatim>\<open>x or d\<close> for an optional number.\<close>

definition int_or :: "int option \<Rightarrow> int \<Rightarrow> int" where
  "int_or x d = (case x of None \<Rightarrow> d | Some i \<Rightarrow> if i = 0 then d else i)"

definition resolve_batch_rows :: "(pyval \<Rightarrow> nat) \<Rightarrow> int \<Rightarrow> int option \<Rightarrow> bulk_limits \<Rightarrow> row option \<Rightarrow> int" where
  "resolve_batch_rows str_bytes n_columns requested limits sample_row =
     (if n_columns \<le> 0 then max (int_or requested (bl_max_rows limits)) 1
      else
        (let by_params = max (bl_max_params limits div n_columns) 1;
             ceiling = min (min (int_or requested (bl_max_rows limits)) (bl_max_rows limits)) by_params;
             ceiling = (case (bl_max_payload_bytes limits, sample_row) of
                 (Some payload, Some r) \<Rightarrow>
                   (let row_bytes = estimate_row_bytes str_bytes r in
                    if row_bytes > 0 then min ceiling (max (payload div row_bytes) 1) else ceiling)
               | _ \<Rightarrow> ceiling)
         in max ceiling 1))"

text \<open>The slices from \<open>start\<close> on, a step at a time.\<close>

function slices :: "nat \<Rightarrow> nat \<Rightarrow> 'a list \<Rightarrow> 'a list list" where
  "slices step start rows =
     (if step = 0 \<or> length rows \<le> start then []
      else take step (drop start rows) # slices step (start + step) rows)"
  by pat_completeness auto

termination by (relation "measure (\<lambda>(step, start, rows). length rows - start)") auto

declare slices.simps [simp del]

definition iter_batches :: "'a list \<Rightarrow> int \<Rightarrow> 'a list list" where
  "iter_batches rows batch_size = slices (if batch_size \<le> 0 then 1 else nat batch_size) 0 rows"

definition column_names :: "row list \<Rightarrow> string list" where
  "column_names rows = (case rows of [] \<Rightarrow> [] | first # _ \<Rightarrow> dict_keys first)"

subsection \<open>The unnest strategy\<close>

definition ident :: "string \<Rightarrow> string" where
  "ident c = ''\"'' @ c @ ''\"''"

definition comma_sep :: "string list \<Rightarrow> string" where
  "comma_sep xs = join_with '', '' xs"

definition cast_arg :: "(string, string) dict \<Rightarrow> string \<Rightarrow> string py" where
  "cast_arg column_types c =
     (case dict_get column_types c of
        None \<Rightarrow> Inl (Foreign (plain_exn [CException, CKeyError] c))
      | Some t \<Rightarrow> Inr (''CAST(:'' @ c @ '' AS '' @ t @ ''[])''))"

definition conflict_clause :: "string list option \<Rightarrow> string list option \<Rightarrow> string" where
  "conflict_clause conflict_index_elements update_columns =
     (case conflict_index_elements of
        None \<Rightarrow> ''''
      | Some idx \<Rightarrow>
          (case update_columns of
             None \<Rightarrow> '' ON CONFLICT ('' @ comma_sep (map ident idx) @ '') DO NOTHING''
           | Some cols \<Rightarrow> '' ON CONFLICT ('' @ comma_sep (map ident idx) @ '') DO UPDATE SET ''
               @ comma_sep (map (\<lambda>c. ident c @ '' = EXCLUDED.'' @ ident c) cols)))"

definition unnest_insert_sql ::
  "string \<Rightarrow> string list \<Rightarrow> (string, string) dict \<Rightarrow> string list option \<Rightarrow> string list option \<Rightarrow> statement_obj py" where
  "unnest_insert_sql table columns column_types conflict_index_elements update_columns =
     sum_bind (map_sum (cast_arg column_types) columns) (\<lambda>args. Inr (TextClause
       (''INSERT INTO '' @ ident table @ '' ('' @ comma_sep (map ident columns) @ '') SELECT * FROM unnest(''
        @ comma_sep args @ '') AS _dbkit_unnest('' @ comma_sep (map ident columns) @ '')''
        @ conflict_clause conflict_index_elements update_columns)))"

definition row_value :: "string \<Rightarrow> row \<Rightarrow> pyval py" where
  "row_value c row =
     (case dict_get row c of
        None \<Rightarrow> Inl (Foreign (plain_exn [CException, CKeyError] c))
      | Some v \<Rightarrow> Inr v)"

definition columnar_params :: "row list \<Rightarrow> string list \<Rightarrow> (string, pyval list) dict py" where
  "columnar_params rows columns =
     map_sum (\<lambda>c. sum_bind (map_sum (row_value c) rows) (\<lambda>vs. Inr (c, vs))) columns"

subsection \<open>The plan of a bulk write\<close>

record bulk_plan =
  bp_statement :: statement_obj
  bp_columns :: "string list option"

definition for_batch :: "bulk_plan \<Rightarrow> row list \<Rightarrow> (statement_obj \<times> pyval) py" where
  "for_batch plan batch =
     (case bp_columns plan of
        Some columns \<Rightarrow>
          sum_bind (columnar_params batch columns) (\<lambda>cols.
            Inr (bp_statement plan, PDict (map (\<lambda>(c, vs). (c, PList vs)) cols)))
      | None \<Rightarrow> Inr (bp_statement plan, PList (map PDict batch)))"

subsection \<open>Slicing\<close>

lemma slices_concat: "0 < step \<Longrightarrow> concat (slices step start rows) = drop start rows"
proof (induction step start rows rule: slices.induct)
  case (1 step start rows)
  have "take step (drop start rows) @ drop (start + step) rows = drop start rows"
    by (metis add.commute append_take_drop_id drop_drop)
  with 1 show ?case by (subst slices.simps) auto
qed

lemma slices_sizes:
  "0 < step \<Longrightarrow> b \<in> set (slices step start rows) \<Longrightarrow> b \<noteq> [] \<and> length b \<le> step"
proof (induction step start rows rule: slices.induct)
  case (1 step start rows)
  then show ?case by (subst (asm) (2) slices.simps) (auto split: if_splits)
qed

lemma slices_length: "0 < step \<Longrightarrow> length (slices step start rows) = (length rows - start + step - 1) div step"
proof (induction step start rows rule: slices.induct)
  case (1 step start rows)
  show ?case
  proof (cases "length rows \<le> start")
    case True
    with 1 show ?thesis by (simp add: slices.simps [of step start])
  next
    case False
    with 1 have "length (slices step (start + step) rows) = (length rows - (start + step) + step - 1) div step" by simp
    moreover have "(length rows - start + step - 1) div step = Suc ((length rows - (start + step) + step - 1) div step)"
    proof (cases "length rows \<le> start + step")
      case True
      with False 1(2) have "length rows - start + step - 1 = (length rows - start - 1) + step" "length rows - start - 1 < step"
        "length rows - (start + step) + step - 1 < step" by linarith+
      then show ?thesis using 1(2) by (metis Suc_eq_plus1 div_add_self2 div_less less_nat_zero_code)
    next
      case f2: False
      then have "length rows - start + step - 1 = (length rows - (start + step) + step - 1) + step" by linarith
      then show ?thesis using 1(2) by (metis Suc_eq_plus1 div_add_self2 less_nat_zero_code)
    qed
    ultimately show ?thesis using 1(2) False by (subst slices.simps) simp
  qed
qed

lemma slices_full:
  "0 < step \<Longrightarrow> i + 1 < length (slices step start rows) \<Longrightarrow> length (slices step start rows ! i) = step"
proof (induction step start rows arbitrary: i rule: slices.induct)
  case (1 step start rows)
  have more: "\<not> length rows \<le> start"
  proof
    assume "length rows \<le> start"
    then have "slices step start rows = []" by (subst slices.simps) simp
    with 1(3) show False by simp
  qed
  then have eq: "slices step start rows = take step (drop start rows) # slices step (start + step) rows"
    using 1(2) by (subst slices.simps) simp
  show ?case
  proof (cases i)
    case 0
    with 1(3) eq have "slices step (start + step) rows \<noteq> []" by auto
    then have "\<not> length rows \<le> start + step" by (subst (asm) slices.simps) (auto split: if_splits)
    with 0 eq show ?thesis by simp
  next
    case (Suc j)
    with 1 more eq show ?thesis by simp
  qed
qed

subsection \<open>The batch size\<close>

lemma int_or_pos: "0 < d \<Longrightarrow> (\<forall>i. x = Some i \<longrightarrow> 0 \<le> i) \<Longrightarrow> 0 < int_or x d"
  by (auto simp: int_or_def split: option.split)

text \<open>What a batch of \<open>k\<close> rows must respect: the requested size, the row limit, the bind parameters and
  the payload estimated from the sample row.\<close>

definition batch_fits :: "(pyval \<Rightarrow> nat) \<Rightarrow> int \<Rightarrow> int option \<Rightarrow> bulk_limits \<Rightarrow> row option \<Rightarrow> int \<Rightarrow> bool" where
  "batch_fits str_bytes n_columns requested limits sample_row k \<longleftrightarrow>
     k \<le> int_or requested (bl_max_rows limits) \<and> k \<le> bl_max_rows limits
     \<and> k * n_columns \<le> bl_max_params limits
     \<and> (case (bl_max_payload_bytes limits, sample_row) of
          (Some payload, Some r) \<Rightarrow> k * estimate_row_bytes str_bytes r \<le> payload | _ \<Rightarrow> True)"

lemma le_div_iff: "0 < n \<Longrightarrow> k \<le> p div n \<longleftrightarrow> k * n \<le> (p :: int)"
proof
  assume n: "0 < n" and k: "k \<le> p div n"
  then have "k * n \<le> p div n * n" by simp
  also have "\<dots> \<le> p" using n pos_mod_sign [of n p] div_mult_mod_eq [of p n] by linarith
  finally show "k * n \<le> p" .
next
  assume "0 < n" "k * n \<le> p"
  then show "k \<le> p div n" by (metis zdiv_mono1 nonzero_mult_div_cancel_right less_irrefl)
qed

lemma largest_upto:
  "b = m \<Longrightarrow> (\<And>k. P k = (k \<le> m)) \<Longrightarrow> 1 \<le> m \<Longrightarrow> P b \<and> (\<forall>k. P k \<longrightarrow> k \<le> b) \<and> 1 \<le> (b :: int)"
  by simp

lemma estimate_nonneg: "0 \<le> estimate_row_bytes str_bytes r"
  by (auto simp: estimate_row_bytes_def value_bytes_def intro!: sum_list_nonneg split: pyval.split)

text \<open>The batch size is the largest that fits: whenever one row fits, a batch of the resolved size
  respects every limit, and every size that does is at most the resolved one. It is never below one.\<close>

theorem batch_size_largest:
  assumes "0 < n_columns" "batch_fits str_bytes n_columns requested limits sample 1"
  defines "b \<equiv> resolve_batch_rows str_bytes n_columns requested limits sample"
  shows "batch_fits str_bytes n_columns requested limits sample b
    \<and> (\<forall>k. batch_fits str_bytes n_columns requested limits sample k \<longrightarrow> k \<le> b) \<and> 1 \<le> b"
proof -
  have one: "1 \<le> int_or requested (bl_max_rows limits)" "1 \<le> bl_max_rows limits" "n_columns \<le> bl_max_params limits"
    using assms(2) by (auto simp: batch_fits_def)
  then have params: "1 \<le> bl_max_params limits div n_columns" using le_div_iff [OF assms(1), of 1] by simp
  let ?ceiling = "min (min (int_or requested (bl_max_rows limits)) (bl_max_rows limits)) (bl_max_params limits div n_columns)"
  show ?thesis
  proof (cases "\<exists>payload r. bl_max_payload_bytes limits = Some payload \<and> sample = Some r \<and> 0 < estimate_row_bytes str_bytes r")
    case True
    then obtain payload r where pr: "bl_max_payload_bytes limits = Some payload" "sample = Some r"
      "0 < estimate_row_bytes str_bytes r" by blast
    let ?p = "payload div estimate_row_bytes str_bytes r"
    have p1: "1 \<le> ?p" using le_div_iff [OF pr(3), of 1 payload] assms(2) pr by (simp add: batch_fits_def)
    have "b = min ?ceiling ?p"
      using assms(1) one params p1 pr(3) by (simp add: b_def resolve_batch_rows_def Let_def pr(1,2))
    moreover have "batch_fits str_bytes n_columns requested limits sample k = (k \<le> min ?ceiling ?p)" for k
      using le_div_iff [OF assms(1)] le_div_iff [OF pr(3)] by (simp add: batch_fits_def pr(1,2))
    ultimately show ?thesis using one params p1 by (intro largest_upto [of b "min ?ceiling ?p"]) auto
  next
    case False
    have z: "estimate_row_bytes str_bytes r = 0" if "bl_max_payload_bytes limits = Some payload" "sample = Some r" for payload r
      using False that estimate_nonneg [of str_bytes r] by force
    have "b = ?ceiling"
      using assms(1) one params z unfolding b_def resolve_batch_rows_def Let_def
      by (cases "bl_max_payload_bytes limits"; cases sample) simp_all
    moreover have "batch_fits str_bytes n_columns requested limits sample k = (k \<le> ?ceiling)" for k
      using le_div_iff [OF assms(1)] assms(2) z unfolding batch_fits_def
      by (cases "bl_max_payload_bytes limits"; cases sample) simp_all
    ultimately show ?thesis using one params by (intro largest_upto [of b ?ceiling]) auto
  qed
qed

text \<open>Slicing loses and reorders nothing: the batches in order are the rows, each has between one row
  and the batch size, all but the last are full, and there are \<open>ceil (rows / size)\<close> of them. A size that is
  not positive counts as one, so the loop always ends.\<close>

theorem batches_partition:
  shows "concat (iter_batches rows n) = rows
    \<and> length (iter_batches rows n) = (length rows + nat (max n 1) - 1) div nat (max n 1)
    \<and> (\<forall>i < length (iter_batches rows n).
          1 \<le> length (iter_batches rows n ! i) \<and> int (length (iter_batches rows n ! i)) \<le> max n 1
          \<and> (i + 1 < length (iter_batches rows n) \<longrightarrow> int (length (iter_batches rows n ! i)) = max n 1))"
proof -
  let ?s = "if n \<le> 0 then 1 else nat n"
  have s: "0 < ?s" "nat (max n 1) = ?s" "int ?s = max n 1" by auto
  have "iter_batches rows n ! i \<noteq> [] \<and> length (iter_batches rows n ! i) \<le> ?s" if "i < length (iter_batches rows n)" for i
    using slices_sizes [OF s(1), of "iter_batches rows n ! i" 0 rows] that by (simp add: iter_batches_def)
  moreover have "length (iter_batches rows n ! i) = ?s" if "i + 1 < length (iter_batches rows n)" for i
    using slices_full [OF s(1), of i 0 rows] that by (simp add: iter_batches_def)
  moreover have "concat (iter_batches rows n) = rows"
    using slices_concat [OF s(1), of 0 rows] by (simp add: iter_batches_def)
  moreover have "length (iter_batches rows n) = (length rows + ?s - 1) div ?s"
    using slices_length [OF s(1), of 0 rows] by (simp add: iter_batches_def)
  ultimately show ?thesis unfolding s(2) s(3) [symmetric] by (simp add: Suc_le_eq)
qed

lemma batches_partition_witness:
  "length (iter_batches [1, 2, 3 :: nat] 2 ! 0) = 2 \<and> length (iter_batches [1, 2, 3 :: nat] 2) = 2"
  using batches_partition [of "[1, 2, 3 :: nat]" 2] by (auto simp: iter_batches_def slices.simps)

lemma batch_size_largest_witness:
  "1 \<le> resolve_batch_rows (\<lambda>_. 4) 2 (Some 100000) (default_bulk_limits\<lparr>bl_max_rows := 50000\<rparr>) (Some [(''a'', PInt 1), (''b'', PNone)])"
  using batch_size_largest [of 2 "\<lambda>_. 4" "Some 100000" "default_bulk_limits\<lparr>bl_max_rows := 50000\<rparr>" "Some [(''a'', PInt 1), (''b'', PNone)]"]
  by (simp add: batch_fits_def default_bulk_limits_def PG_MAX_BIND_PARAMS_def int_or_def)

subsection \<open>The array parameters\<close>

text \<open>Reading the arrays back: row \<open>i\<close> takes the \<open>i\<close>-th element of every column, which is what the
  server's \<^verbatim>\<open>unnest\<close> does.\<close>

definition unnest_rows :: "(string, pyval list) dict \<Rightarrow> nat \<Rightarrow> row list" where
  "unnest_rows cols n = map (\<lambda>i. map (\<lambda>(c, vs). (c, vs ! i)) cols) [0..<n]"

definition same_columns :: "string list \<Rightarrow> row list \<Rightarrow> bool" where
  "same_columns columns rows \<longleftrightarrow> distinct columns \<and> (\<forall>r \<in> set rows. dict_wf r \<and> set (dict_keys r) = set columns)"

lemma map_sum_total: "(\<And>x. x \<in> set xs \<Longrightarrow> f x = Inr (g x)) \<Longrightarrow> map_sum f xs = Inr (map g xs)"
  by (induction xs) auto

lemma columnar_params_total:
  assumes "\<forall>r \<in> set rows. set columns \<subseteq> set (dict_keys r)"
  shows "columnar_params rows columns = Inr (map (\<lambda>c. (c, map (\<lambda>r. the (dict_get r c)) rows)) columns)"
proof -
  have "row_value c r = Inr (the (dict_get r c))" if "c \<in> set columns" "r \<in> set rows" for c r
  proof -
    from assms that have "dict_get r c \<noteq> None" by (metis dict_get_None_iff subsetD)
    then show ?thesis by (auto simp: row_value_def)
  qed
  then have "map_sum (row_value c) rows = Inr (map (\<lambda>r. the (dict_get r c)) rows)" if "c \<in> set columns" for c
    using that by (intro map_sum_total) auto
  then show ?thesis unfolding columnar_params_def by (intro map_sum_total) auto
qed

text \<open>The array parameters lose nothing: for rows with the same columns, reading the arrays back gives
  the rows (as mappings, and in order), every column is bound once, and every array has one element per
  row. A row without one of the columns is a key error and nothing is sent.\<close>

theorem columnar_roundtrip:
  assumes "same_columns columns rows"
  shows "\<exists>cols. columnar_params rows columns = Inr cols \<and> dict_keys cols = columns
    \<and> (\<forall>(c, vs) \<in> set cols. length vs = length rows)
    \<and> map map_of (unnest_rows cols (length rows)) = map map_of rows"
proof -
  let ?cols = "map (\<lambda>c. (c, map (\<lambda>r. the (dict_get r c)) rows)) columns"
  have "columnar_params rows columns = Inr ?cols"
    using assms by (intro columnar_params_total) (auto simp: same_columns_def)
  moreover have "map_of (map (\<lambda>(c, vs). (c, vs ! i)) ?cols) = map_of (rows ! i)" if i: "i < length rows" for i
  proof
    fix k
    have "set (dict_keys (rows ! i)) = set columns" using assms i by (auto simp: same_columns_def)
    then show "map_of (map (\<lambda>(c, vs). (c, vs ! i)) ?cols) k = map_of (rows ! i) k"
      using i dict_get_None_iff [of "rows ! i" k]
      by (cases "k \<in> set columns") (auto simp: comp_def map_of_map_restrict restrict_map_def)
  qed
  then have "map map_of (unnest_rows ?cols (length rows)) = map map_of rows"
    by (intro nth_equalityI) (simp_all add: unnest_rows_def)
  ultimately show ?thesis by (intro exI [of _ ?cols]) (auto simp: comp_def)
qed

lemma columnar_roundtrip_witness:
  "\<exists>cols. columnar_params [[(''a'', PInt 1), (''b'', PNone)], [(''b'', PInt 2), (''a'', PInt 3)]] [''a'', ''b''] = Inr cols
    \<and> dict_keys cols = [''a'', ''b'']"
  using columnar_roundtrip [of "[''a'', ''b'']" "[[(''a'', PInt 1), (''b'', PNone)], [(''b'', PInt 2), (''a'', PInt 3)]]"]
  by (fastforce simp: same_columns_def dict_wf_def)

end
