(* ===== verification/Bulk.thy ===== *)
theory Bulk
  imports Sizing Executor
begin

text \<open>
  Bulk writes of the facade (\<^verbatim>\<open>_async/database.py\<close>, \<^verbatim>\<open>_bulk_write\<close> and
  \<^verbatim>\<open>_bulk_best_effort\<close>) and COPY (\<^verbatim>\<open>postgres/copy.py\<close>). What the facade looked up for
  the target beforehand is the record \<open>bulk_env\<close>; the type names SQLAlchemy compiles for a table's columns
  are a parameter. The local counter \<^verbatim>\<open>written\<close> of the best-effort loop is updated inside
  the connection scope, so each update is an event of the trace (\<open>LCount\<close>).
\<close>

datatype failure_mode = Atomic | BestEffort | SplitOnFailure

datatype insert_strategy = ExecuteMany | Unnest

record bulk_call =
  bc_table :: string
  bc_statement :: statement_obj
  bc_rows :: "row list"
  bc_mode :: failure_mode
  bc_strategy :: insert_strategy
  bc_batch_size :: "int option"
  bc_timeout :: "real option"
  bc_query_name :: string
  bc_target_database :: string
  bc_conflict :: "string list option"
  bc_update :: "string list option"

text \<open>The resolved entry: its dialect, labels and limiter; the manager of \<^verbatim>\<open>self.transaction(target)\<close>
  and, for best effort, the scope of \<^verbatim>\<open>DatabaseTarget(database, role="write")\<close>.\<close>

record bulk_env =
  be_is_postgres :: bool
  be_database :: string
  be_labels :: "(string, string) dict"
  be_limiter :: "(string, int) dict"
  be_config :: dbkit_config
  be_tx :: tx_manager
  be_write_scope :: scope_info

definition real_or :: "real option \<Rightarrow> real \<Rightarrow> real" where
  "real_or x d = (case x of None \<Rightarrow> d | Some r \<Rightarrow> if r = 0 then d else r)"

definition type_of_column :: "(string \<Rightarrow> string option) \<Rightarrow> string \<Rightarrow> (string \<times> string) py" where
  "type_of_column column_type c =
     (case column_type c of
        None \<Rightarrow> Inl (Foreign (plain_exn [CException, CKeyError] c))
      | Some t \<Rightarrow> Inr (c, t))"

definition plan_of :: "(string \<Rightarrow> string option) \<Rightarrow> bool \<Rightarrow> bulk_call \<Rightarrow> bulk_plan py" where
  "plan_of column_type is_pg c =
     (case bc_strategy c of
        Unnest \<Rightarrow>
          if \<not> is_pg then
            raise_db DatabaseUnsupportedOperationError
              ''strategy='unnest' requires PostgreSQL; this target uses a different dialect''
          else
            (let columns = column_names (bc_rows c) in
             sum_bind (map_sum (type_of_column column_type) columns) (\<lambda>column_types.
             sum_bind (unnest_insert_sql (bc_table c) columns column_types (bc_conflict c) (bc_update c)) (\<lambda>stmt.
               Inr \<lparr>bp_statement = stmt, bp_columns = Some columns\<rparr>)))
      | ExecuteMany \<Rightarrow> Inr \<lparr>bp_statement = bc_statement c, bp_columns = None\<rparr>)"

definition batch_rows_of :: "(pyval \<Rightarrow> nat) \<Rightarrow> bulk_config \<Rightarrow> bulk_call \<Rightarrow> int" where
  "batch_rows_of str_bytes cfg c =
     resolve_batch_rows str_bytes (int (length (column_names (bc_rows c))))
       (Some (int_or (bc_batch_size c) (default_batch_rows cfg)))
       (default_bulk_limits\<lparr>bl_max_rows := max_batch_rows cfg, bl_max_payload_bytes := max_payload_bytes cfg\<rparr>)
       (case bc_rows c of [] \<Rightarrow> None | r # _ \<Rightarrow> Some r)"

text \<open>\<^verbatim>\<open>cursor.rowcount if cursor.rowcount and cursor.rowcount > 0 else len(batch)\<close>\<close>

definition affected :: "pyval \<Rightarrow> nat \<Rightarrow> int" where
  "affected rowcount n = (case rowcount of PInt k \<Rightarrow> if k > 0 then k else int n | _ \<Rightarrow> int n)"

definition run_plan :: "env \<Rightarrow> real \<Rightarrow> bool \<Rightarrow> statement_obj \<times> pyval \<Rightarrow> pyval io" where
  "run_plan w timeout is_pg p = run_execute w (fst p) (Some (snd p)) (Some timeout) is_pg"

subsection \<open>Atomic\<close>

definition bulk_context :: "bulk_call \<Rightarrow> err_context" where
  "bulk_context c = \<lparr>ctx_query_name = Some (bc_query_name c), ctx_database_name = Some (bc_target_database c),
     ctx_shard_id = None, ctx_role = None\<rparr>"

definition atomic_batch :: "env \<Rightarrow> bulk_plan \<Rightarrow> real \<Rightarrow> bool \<Rightarrow> err_context \<Rightarrow> row list \<Rightarrow> int io" where
  "atomic_batch w plan timeout is_pg ctx batch =
     io_bind (io_of (for_batch plan batch)) (\<lambda>p.
       io_then
         (except_exception (run_plan w timeout is_pg p) (\<lambda>exc. io_raise (DbErr (classify exc ctx))))
         (io_bind (perform w (DCursor ''rowcount'')) (\<lambda>k. io_return (affected k (length batch)))))"

fun atomic_batches :: "env \<Rightarrow> bulk_plan \<Rightarrow> real \<Rightarrow> bool \<Rightarrow> err_context \<Rightarrow> row list list \<Rightarrow> int \<Rightarrow> int io" where
  "atomic_batches w plan timeout is_pg ctx [] written = io_return written"
| "atomic_batches w plan timeout is_pg ctx (batch # batches) written =
     io_bind (atomic_batch w plan timeout is_pg ctx batch) (\<lambda>k.
       atomic_batches w plan timeout is_pg ctx batches (written + k))"

subsection \<open>Best effort\<close>

definition write_call :: "bulk_env \<Rightarrow> real \<Rightarrow> call_info" where
  "write_call be timeout =
     \<lparr>ci_scope = be_write_scope be, ci_query = None, ci_limiter = be_limiter be, ci_config = be_config be,
      ci_commit = True, ci_timeout = Some timeout, ci_deadline = None\<rparr>"

definition batch_attempt :: "env \<Rightarrow> bulk_env \<Rightarrow> bulk_plan \<Rightarrow> real \<Rightarrow> row list \<Rightarrow> unit io" where
  "batch_attempt w be plan timeout batch =
     io_bind (io_of (for_batch plan batch)) (\<lambda>p.
       timed_scope w (write_call be timeout) (\<lambda>cs.
         io_then (run_plan w timeout (be_is_postgres be) p)
           (io_bind (perform w (DCursor ''rowcount'')) (\<lambda>k. emit (LCount (affected k (length batch)))))))"

definition row_attempt :: "env \<Rightarrow> bulk_env \<Rightarrow> bulk_plan \<Rightarrow> real \<Rightarrow> row \<Rightarrow> unit io" where
  "row_attempt w be plan timeout row =
     io_bind (io_of (for_batch plan [row])) (\<lambda>p.
       timed_scope w (write_call be timeout) (\<lambda>cs.
         io_then (run_plan w timeout (be_is_postgres be) p) (emit (LCount 1))))"

definition dropped :: "string \<Rightarrow> string \<Rightarrow> nat \<Rightarrow> unit io" where
  "dropped database query_name n =
     io_then (emit (LRowsDropped query_name (int n)))
       (emit (MIncr ''db_bulk_rows_dropped_total'' (real n)
          [(''database'', database), (''query_name'', query_name)]))"

definition best_effort_batch ::
  "env \<Rightarrow> bulk_env \<Rightarrow> bulk_plan \<Rightarrow> failure_mode \<Rightarrow> real \<Rightarrow> string \<Rightarrow> row list \<Rightarrow> unit io" where
  "best_effort_batch w be plan mode timeout query_name batch =
     except_exception (batch_attempt w be plan timeout batch) (\<lambda>exc.
       if mode \<noteq> SplitOnFailure then dropped (be_database be) query_name (length batch)
       else io_each (\<lambda>row. except_exception (row_attempt w be plan timeout row) (\<lambda>row_exc. dropped (be_database be) query_name 1)) batch)"

definition count_of :: "effect list \<Rightarrow> int" where
  "count_of tr = sum_list (map (\<lambda>e. case e of LCount k \<Rightarrow> k | _ \<Rightarrow> 0) tr)"

text \<open>The value of the local counter when the loop has ended.\<close>

definition counted :: "unit io \<Rightarrow> int io" where
  "counted m tr =
     (case m tr of
        (Inl e, tr') \<Rightarrow> (Inl e, tr')
      | (Inr _, tr') \<Rightarrow> (Inr (count_of tr' - count_of tr), tr'))"

definition bulk_best_effort ::
  "env \<Rightarrow> bulk_env \<Rightarrow> bulk_plan \<Rightarrow> row list list \<Rightarrow> failure_mode \<Rightarrow> real \<Rightarrow> string \<Rightarrow> int io" where
  "bulk_best_effort w be plan batches mode timeout query_name =
     counted (io_each (best_effort_batch w be plan mode timeout query_name) batches)"

subsection \<open>The bulk write\<close>

definition bulk_write ::
  "env \<Rightarrow> (string \<Rightarrow> string option) \<Rightarrow> (pyval \<Rightarrow> nat) \<Rightarrow> bulk_env py \<Rightarrow> bulk_call \<Rightarrow> int io" where
  "bulk_write w column_type str_bytes entry c =
     (if bc_rows c = [] then io_return 0
      else
        io_bind (io_of entry) (\<lambda>be.
        io_bind (io_of (plan_of column_type (be_is_postgres be) c)) (\<lambda>plan.
          let batch_rows = batch_rows_of str_bytes (d_bulk (defaults (be_config be))) c;
              batches = iter_batches (bc_rows c) batch_rows;
              timeout = real_or (bc_timeout c) (d_transaction_timeout_seconds (defaults (be_config be)))
          in io_then (emit (MObserve ''db_bulk_batch_size'' (of_int batch_rows) (be_labels be)))
            (io_bind
              (limiter_acquire w (be_limiter be) ''database'' None
                (limiter_acquire w (be_limiter be) ''bulk'' None
                  (if bc_mode c = Atomic then
                     with_transaction w ((be_tx be)\<lparr>tm_timeout := Some timeout\<rparr>)
                       (\<lambda>cs. atomic_batches w plan timeout (be_is_postgres be) (bulk_context c) batches 0)
                   else bulk_best_effort w be plan batches (bc_mode c) timeout (bc_query_name c))))
              (\<lambda>written. io_then (emit (MIncr ''db_bulk_rows_total'' (of_int written) (be_labels be)))
                 (io_return written))))))"

subsection \<open>COPY\<close>

definition copy_sql :: "string \<Rightarrow> string list \<Rightarrow> string" where
  "copy_sql table columns = ''COPY '' @ ident table @ '' ('' @ comma_sep (map ident columns) @ '') FROM STDIN''"

fun copy_rows :: "env \<Rightarrow> pyval list \<Rightarrow> int \<Rightarrow> int io" where
  "copy_rows w [] written = io_return written"
| "copy_rows w (r # rows) written =
     io_then (perform w (DCall ''copy.write_row'' r)) (copy_rows w rows (written + 1))"

definition copy_from_records :: "env \<Rightarrow> string \<Rightarrow> string list \<Rightarrow> pyval list \<Rightarrow> int io" where
  "copy_from_records w table columns records =
     io_bind (perform w (DDriverConn ''pipeline'')) (\<lambda>has.
       if has \<noteq> PBool True then
         io_of (raise_db DatabaseUnsupportedOperationError
           ''COPY requires the psycopg driver; this target uses a different driver'')
       else
         io_then (perform w (DCall ''copy.enter'' (PStr (copy_sql table columns))))
           (on_raise (copy_rows w records 0)
             (\<lambda>n. io_then (perform w (DCall ''copy.exit'' PNone)) (io_return n))
             (\<lambda>e. io_then (perform w (DCall ''copy.abort'' PNone)) (io_raise e))))"

definition copy_records :: "env \<Rightarrow> bulk_env py \<Rightarrow> string \<Rightarrow> string list \<Rightarrow> pyval list \<Rightarrow> string \<Rightarrow> real option \<Rightarrow> int io" where
  "copy_records w entry table columns records target_database timeout =
     io_bind (io_of entry) (\<lambda>be.
       if \<not> be_is_postgres be then
         io_of (raise_db DatabaseUnsupportedOperationError ''COPY is only supported on PostgreSQL'')
       else
         (let eff = real_or timeout (d_transaction_timeout_seconds (defaults (be_config be)));
              ctx = \<lparr>ctx_query_name = Some (table @ ''.copy''), ctx_database_name = Some target_database,
                     ctx_shard_id = None, ctx_role = None\<rparr>
          in io_bind
              (limiter_acquire w (be_limiter be) ''database'' None
                (limiter_acquire w (be_limiter be) ''bulk'' None
                  (with_transaction w ((be_tx be)\<lparr>tm_timeout := Some eff\<rparr>)
                    (\<lambda>cs. except_exception (copy_from_records w table columns records)
                       (\<lambda>exc. io_raise (DbErr (classify exc ctx)))))))
              (\<lambda>written. io_then (emit (MIncr ''db_bulk_rows_total'' (of_int written) (be_labels be)))
                 (io_return written))))"

subsection \<open>A batch leaves the life cycle alone\<close>

lemma quiet_run_plan [quiet_intros]: "quiet (run_plan w t pg p)"
  by (simp add: run_plan_def quiet_run_execute)

lemma quiet_atomic_batch: "quiet (atomic_batch w plan t pg ctx b)"
  unfolding atomic_batch_def by (auto intro!: quiet_intros)

lemma quiet_atomic_batches: "quiet (atomic_batches w plan t pg ctx bs k)"
  by (induction bs arbitrary: k) (auto intro!: quiet_intros quiet_atomic_batch)

interpretation bulk_body: transaction_body "\<lambda>cs. atomic_batches w plan t pg ctx bs k" for w plan t pg ctx bs k
  by unfold_locales (rule quiet_atomic_batches)

lemma quiet_copy_rows: "quiet (copy_rows w rs k)"
  by (induction rs arbitrary: k) (auto intro!: quiet_intros)

lemma quiet_copy: "quiet (copy_from_records w table columns records)"
  unfolding copy_from_records_def by (auto intro!: quiet_intros quiet_copy_rows)

subsection \<open>What a successful batch has sent\<close>

definition batch_effect :: "statement_obj \<times> pyval \<Rightarrow> effect" where
  "batch_effect p = DExecute (fst p) (snd p)"

lemma for_batch_params:
  assumes "for_batch plan b = Inr p" "b \<noteq> []" "bp_columns plan \<noteq> Some []"
  shows "snd p \<noteq> PDict [] \<and> snd p \<noteq> PList []"
proof (cases "bp_columns plan")
  case None
  with assms show ?thesis by (auto simp: for_batch_def)
next
  case (Some cs)
  then obtain cols where "columnar_params b cs = Inr cols" "p = (bp_statement plan, PDict (map (\<lambda>(c, vs). (c, PList vs)) cols))"
    using assms(1) by (auto simp: for_batch_def sum_bind_Inr_iff)
  moreover from this have "length cols = length cs" unfolding columnar_params_def by (intro map_sum_length)
  ultimately show ?thesis using Some assms(3) by auto
qed

text \<open>Observations of a trace that show the statements that carry rows, in order, and nothing of the timeouts,
  settings and row counts around them.\<close>

locale row_observation =
  fixes obs :: "effect list \<Rightarrow> effect list"
  assumes shows_rows: "ps \<noteq> PDict [] \<Longrightarrow> obs (tr @ [DExecute st ps]) = obs tr @ [DExecute st ps]"
    and hides_settings: "obs (tr @ [DExecute st (PDict [])]) = obs tr"
    and hides_other: "obs (tr @ [DCursor s]) = obs tr" "obs (tr @ [DEnterTimeout d]) = obs tr" "obs (tr @ [DExitTimeout]) = obs tr"
begin

lemma keeps_set_timeout: "keeps obs (maybe_set_timeout w s pg)"
  by (auto simp: maybe_set_timeout_def hides_settings intro!: quiet_intros split: option.split)

lemma timeout_scope_ok:
  "timeout_scope w s m tr = (Inr v, tr') \<Longrightarrow>
     \<exists>tr0. obs tr0 = obs tr \<and> m tr0 = (Inr v, tr')"
proof -
  assume t: "timeout_scope w s m tr = (Inr v, tr')"
  show ?thesis
  proof (cases "\<exists>d. s = Some d \<and> env_async w \<and> 0 < d")
    case False
    then have "timeout_scope w s m = m" by (auto simp: timeout_scope_def split: option.split)
    with t show ?thesis by auto
  next
    case True
    then obtain d where d: "s = Some d" "env_async w" "0 < d" by blast
    let ?tr = "tr @ [DEnterTimeout d]"
    obtain r t1 where m: "m ?tr = (r, t1)" by (cases "m ?tr")
    have "r = Inr v \<and> t1 = tr'"
    proof (cases r)
      case (Inr u)
      with t d m show ?thesis by (simp add: timeout_scope_def io_then_def io_bind_def emit_def try_except_def)
    next
      case (Inl e)
      with t d m have "(if raised_isa e CCancelledError then
            io_bind (perform w DExitTimeout) (\<lambda>expired. if expired = PBool True
              then io_raise (Foreign (plain_exn [CException, CTimeoutError, COSError] '''')) else io_raise e)
          else io_raise e) t1 = (Inr v, tr')"
        by (simp add: timeout_scope_def io_then_def io_bind_def [of "emit _"] emit_def try_except_def)
      then show ?thesis
        by (simp add: io_bind_def perform_def io_raise_def split: if_splits sum.splits)
    qed
    with m show ?thesis by (intro exI [of _ ?tr]) (simp add: hides_other)
  qed
qed

lemma run_execute_ok:
  assumes "run_execute w st (Some ps) t pg tr = (Inr v, tr')" "ps \<noteq> PDict []" "ps \<noteq> PList []"
  shows "obs tr' = obs tr @ [DExecute st ps]"
proof -
  obtain tr0 where tr0: "obs tr0 = obs tr" "run_statement w st (Some ps) t pg tr0 = (Inr v, tr')"
    using timeout_scope_ok [OF assms(1) [unfolded run_execute_def]] by auto
  obtain r tr1 where s: "maybe_set_timeout w t pg tr0 = (r, tr1)" by (cases "maybe_set_timeout w t pg tr0")
  then have "obs tr1 = obs tr0" using keepsD [OF keeps_set_timeout, of w t pg tr0] by simp
  with s tr0 assms(2,3) show ?thesis
    by (cases r) (auto simp: run_statement_def io_then_def io_bind_def perform_def params_or_empty_def shows_rows)
qed

lemma atomic_batch_ok:
  assumes "atomic_batch w plan t pg ctx b tr = (Inr k, tr')" "b \<noteq> []" "bp_columns plan \<noteq> Some []"
  shows "\<exists>p. for_batch plan b = Inr p \<and> obs tr' = obs tr @ [batch_effect p]"
proof -
  obtain p where p: "for_batch plan b = Inr p"
    using assms(1) by (cases "for_batch plan b") (auto simp: atomic_batch_def io_bind_def io_of_def io_raise_def)
  obtain r tr1 where r: "run_plan w t pg p tr = (r, tr1)" by (cases "run_plan w t pg p tr")
  have run: "io_then (except_exception (run_plan w t pg p) (\<lambda>exc. io_raise (DbErr (classify exc ctx))))
      (io_bind (perform w (DCursor ''rowcount'')) (\<lambda>k. io_return (affected k (length b)))) tr = (Inr k, tr')"
    using assms(1) by (simp add: atomic_batch_def p io_bind_def [of "io_of _"] io_of_def)
  obtain v where v: "run_plan w t pg p tr = (Inr v, tr1)" "tr' = tr1 @ [DCursor ''rowcount'']"
  proof (cases r)
    case (Inl e)
    with run r show ?thesis
      by (simp add: io_then_def io_bind_def except_exception_def try_except_def io_raise_def split: if_splits)
  next
    case (Inr v)
    with run r have "tr' = tr1 @ [DCursor ''rowcount'']"
      by (simp add: io_then_def io_bind_def except_exception_def try_except_def perform_def io_return_def split: sum.splits)
    with r Inr that show ?thesis by blast
  qed
  then have "obs tr1 = obs tr @ [DExecute (fst p) (snd p)]"
    using for_batch_params [OF p assms(2,3)] by (intro run_execute_ok) (simp_all add: run_plan_def)
  with p v(2) show ?thesis by (simp add: batch_effect_def hides_other)
qed

lemma atomic_batches_ok:
  "atomic_batches w plan t pg ctx bs k tr = (Inr n, tr') \<Longrightarrow> [] \<notin> set bs \<Longrightarrow> bp_columns plan \<noteq> Some [] \<Longrightarrow>
     \<exists>ps. map_sum (for_batch plan) bs = Inr ps \<and> obs tr' = obs tr @ map batch_effect ps"
proof (induction bs arbitrary: k tr)
  case Nil
  then show ?case by (simp add: io_return_def)
next
  case (Cons b bs)
  obtain j tr1 where b: "atomic_batch w plan t pg ctx b tr = (Inr j, tr1)"
    "atomic_batches w plan t pg ctx bs (k + j) tr1 = (Inr n, tr')"
    using Cons.prems(1) by (auto simp: io_bind_def split: prod.splits sum.splits)
  from atomic_batch_ok [OF b(1)] Cons.prems obtain p where
    p: "for_batch plan b = Inr p" "obs tr1 = obs tr @ [batch_effect p]" by auto
  from Cons.IH [OF b(2)] Cons.prems obtain ps where
    "map_sum (for_batch plan) bs = Inr ps" "obs tr' = obs tr1 @ map batch_effect ps" by auto
  with p show ?case by (intro exI [of _ "p # ps"]) simp
qed

end

text \<open>The statements that carry rows; and those together with the rows of COPY and the acknowledged COMMITs of
  transactions, in order.\<close>

definition data_sent :: "effect list \<Rightarrow> effect list" where
  "data_sent tr = filter (\<lambda>e. case e of DExecute st ps \<Rightarrow> ps \<noteq> PDict [] | _ \<Rightarrow> False) tr"

fun written_rev :: "env \<Rightarrow> effect list \<Rightarrow> effect list" where
  "written_rev w [] = []"
| "written_rev w (DExecute st ps # past) =
     (if ps = PDict [] then written_rev w past else DExecute st ps # written_rev w past)"
| "written_rev w (DCall call arg # past) =
     (if call = ''copy.write_row'' then DCall call arg # written_rev w past else written_rev w past)"
| "written_rev w (DTransCommit # past) =
     (case env_answer w (rev past) DTransCommit of Inl e \<Rightarrow> written_rev w past | Inr v \<Rightarrow> DTransCommit # written_rev w past)"
| "written_rev w (_ # past) = written_rev w past"

definition written :: "env \<Rightarrow> effect list \<Rightarrow> effect list" where
  "written w tr = rev (written_rev w (rev tr))"

interpretation rows_sent: row_observation data_sent
  by unfold_locales (simp_all add: data_sent_def)

interpretation rows_written: row_observation "written w" for w
  by unfold_locales (simp_all add: written_def)

lemma limiter_inner:
  assumes "limiter_acquire w sems tier t body tr = (Inr x, tr')"
  shows "\<exists>tr0 tr1. body tr0 = (Inr x, tr1)"
proof (cases "dict_get sems tier")
  case None
  with assms show ?thesis by (auto simp: limiter_acquire_def)
next
  case (Some n)
  with assms show ?thesis
    by (auto simp: limiter_acquire_def io_bind_def semaphore_slots try_finally_def emit_def io_of_def raise_db_def
        split: sum.splits if_splits prod.splits)
qed

subsection \<open>The connections of best effort\<close>

text \<open>A program that uses at most \<open>n\<close> auto-commit scopes, one after the other.\<close>

definition scopes_upto :: "env \<Rightarrow> nat \<Rightarrow> 'a io \<Rightarrow> bool" where
  "scopes_upto w n m \<longleftrightarrow>
     (\<forall>tr. \<exists>Ls. length Ls \<le> n \<and> (\<forall>L \<in> set Ls. scope_trace w True L) \<and> life (snd (m tr)) = life tr @ concat Ls)"

lemma scopes_upto_quiet: "quiet m \<Longrightarrow> scopes_upto w n m"
  unfolding scopes_upto_def by (intro allI exI [of _ "[]"]) (simp add: keeps_def)

lemma scopes_upto_one: "at_most_scope w True m \<Longrightarrow> scopes_upto w 1 m"
  unfolding scopes_upto_def
proof (intro allI)
  fix tr assume "at_most_scope w True m"
  then obtain L where L: "life (snd (m tr)) = life tr @ L" "L = [] \<or> scope_trace w True L"
    unfolding at_most_scope_def by blast
  show "\<exists>Ls. length Ls \<le> 1 \<and> (\<forall>L \<in> set Ls. scope_trace w True L) \<and> life (snd (m tr)) = life tr @ concat Ls"
  proof (cases "L = []")
    case True
    with L show ?thesis by (intro exI [of _ "[]"]) simp
  next
    case False
    with L show ?thesis by (intro exI [of _ "[L]"]) simp
  qed
qed

lemma scopes_upto_seq:
  assumes "scopes_upto w a m"
    and "\<And>tr r t1. m tr = (r, t1) \<Longrightarrow> snd (k tr) = t1 \<or> (\<exists>f. scopes_upto w b f \<and> k tr = f t1)"
  shows "scopes_upto w (a + b) k"
  unfolding scopes_upto_def
proof (intro allI)
  fix tr
  obtain r t1 where m: "m tr = (r, t1)" by (cases "m tr")
  from assms(1) m obtain Ls where Ls: "length Ls \<le> a" "\<forall>L \<in> set Ls. scope_trace w True L" "life t1 = life tr @ concat Ls"
    unfolding scopes_upto_def by (metis snd_conv)
  show "\<exists>Ls. length Ls \<le> a + b \<and> (\<forall>L \<in> set Ls. scope_trace w True L) \<and> life (snd (k tr)) = life tr @ concat Ls"
    using assms(2) [OF m]
  proof
    assume "snd (k tr) = t1"
    with Ls show ?thesis by (intro exI [of _ Ls]) simp
  next
    assume "\<exists>f. scopes_upto w b f \<and> k tr = f t1"
    then obtain Ks where "length Ks \<le> b" "\<forall>L \<in> set Ks. scope_trace w True L" "life (snd (k tr)) = life t1 @ concat Ks"
      unfolding scopes_upto_def by metis
    with Ls show ?thesis by (intro exI [of _ "Ls @ Ks"]) auto
  qed
qed

lemma scopes_upto_except:
  fixes m :: "'a io"
  assumes "scopes_upto w a m" "\<And>e. scopes_upto w b (h e)"
  shows "scopes_upto w (a + b) (except_exception m h)"
proof (rule scopes_upto_seq [OF assms(1)])
  fix tr r t1 assume m: "m tr = (r, t1)"
  show "snd (except_exception m h tr) = t1 \<or> (\<exists>f. scopes_upto w b f \<and> except_exception m h tr = f t1)"
    using m assms(2) by (cases r) (auto simp: except_exception_def try_except_def io_raise_def)
qed

lemma scopes_upto_then:
  fixes k :: "'b io"
  assumes "scopes_upto w a m" "scopes_upto w b k"
  shows "scopes_upto w (a + b) (io_then m k)"
proof (rule scopes_upto_seq [OF assms(1)])
  fix tr r t1 assume m: "m tr = (r, t1)"
  show "snd (io_then m k tr) = t1 \<or> (\<exists>f. scopes_upto w b f \<and> io_then m k tr = f t1)"
    using m assms(2) by (cases r) (auto simp: io_then_def io_bind_def)
qed

lemma scopes_upto_each:
  assumes "\<And>x. x \<in> set xs \<Longrightarrow> scopes_upto w (n x) (f x)"
  shows "scopes_upto w (sum_list (map n xs)) (io_each f xs)"
  using assms
proof (induction xs)
  case Nil
  then show ?case by (simp add: scopes_upto_quiet keeps_return)
next
  case (Cons x xs)
  then show ?case by (simp add: scopes_upto_then)
qed

lemma scopes_batch_attempt:
  assumes "tag_safe w"
  shows "scopes_upto w 1 (batch_attempt w be plan t b)" "scopes_upto w 1 (row_attempt w be plan t r)"
proof -
  have one: "at_most_scope w True (timed_scope w (write_call be t) op)" if "\<And>cs. quiet (op cs)" for op :: "conn_scope \<Rightarrow> unit io"
    using at_most_scope_timed [of w op "write_call be t"] assms that by (simp add: write_call_def)
  show "scopes_upto w 1 (batch_attempt w be plan t b)"
    unfolding batch_attempt_def
    by (rule scopes_upto_one, rule at_most_scope_after [OF keeps_of], rule one) (auto intro!: quiet_intros)
  show "scopes_upto w 1 (row_attempt w be plan t r)"
    unfolding row_attempt_def
    by (rule scopes_upto_one, rule at_most_scope_after [OF keeps_of], rule one) (auto intro!: quiet_intros)
qed

lemma quiet_dropped: "quiet (dropped db q n)"
  unfolding dropped_def by (auto intro!: quiet_intros)

lemma scopes_best_effort_batch:
  assumes "tag_safe w"
  shows "scopes_upto w (1 + length b) (best_effort_batch w be plan mode t q b)"
  unfolding best_effort_batch_def
proof (intro scopes_upto_except scopes_batch_attempt assms)
  fix e
  have row: "scopes_upto w 1 (except_exception (row_attempt w be plan t r) (\<lambda>_. dropped (be_database be) q 1))" for r
    using scopes_upto_except [of w 1 _ 0, OF scopes_batch_attempt(2) [OF assms] scopes_upto_quiet [OF quiet_dropped]] by simp
  have "scopes_upto w (length b) (io_each (\<lambda>r. except_exception (row_attempt w be plan t r) (\<lambda>_. dropped (be_database be) q 1)) b)"
    using scopes_upto_each [of b w "\<lambda>_. 1" "\<lambda>r. except_exception (row_attempt w be plan t r) (\<lambda>_. dropped (be_database be) q 1)", OF row]
    by (simp add: sum_list_triv)
  then show "scopes_upto w (length b) (if mode \<noteq> SplitOnFailure then dropped (be_database be) q (length b)
      else io_each (\<lambda>r. except_exception (row_attempt w be plan t r) (\<lambda>_. dropped (be_database be) q 1)) b)"
    by (simp add: scopes_upto_quiet quiet_dropped)
qed

lemma life_counted: "life (snd (counted m tr)) = life (snd (m tr))"
  by (simp add: counted_def split: prod.split sum.split)

lemma iter_batches_no_empty: "[] \<notin> set (iter_batches rows n)"
proof
  assume "[] \<in> set (iter_batches rows n)"
  then show False using slices_sizes [of "if n \<le> 0 then 1 else nat n" "[]" 0 rows] by (auto simp: iter_batches_def split: if_splits)
qed

lemma succeeds_run_plan: "all_ok w \<Longrightarrow> succeeds (run_plan w t pg p)"
  unfolding run_plan_def run_execute_def run_statement_def maybe_set_timeout_def
  by (auto intro!: succeeds_timeout succeeds_then succeeds_basic split: option.split)

lemma succeeds_atomic:
  assumes "all_ok w" "bp_columns plan = None"
  shows "succeeds (atomic_batches w plan t pg ctx bs k)"
proof -
  have "succeeds (atomic_batch w plan t pg ctx b)" for b
    using assms by (auto simp: atomic_batch_def for_batch_def
        intro!: succeeds_then succeeds_bind succeeds_try(2) succeeds_run_plan succeeds_basic)
  then show ?thesis by (induction bs arbitrary: k) (auto intro: succeeds_bind succeeds_basic)
qed

subsection \<open>Properties\<close>

text \<open>An atomic bulk write that returns wrote everything: the batches partition the rows in order, every
  batch was sent once and in order inside one transaction, with the statement and the parameters of the
  strategy, and the COMMIT after the last of them was acknowledged.\<close>

theorem atomic_bulk_complete:
  assumes "bc_mode c = Atomic" "column_names (bc_rows c) \<noteq> []"
    and "fst (bulk_write w column_type str_bytes (Inr be) c tr) = Inr n"
  shows "\<exists>plan ps timeout t0 t1 t2 st v.
      timeout = real_or (bc_timeout c) (d_transaction_timeout_seconds (defaults (be_config be)))
    \<and> plan_of column_type (be_is_postgres be) c = Inr plan
    \<and> concat (iter_batches (bc_rows c) (batch_rows_of str_bytes (d_bulk (defaults (be_config be))) c)) = bc_rows c
    \<and> map_sum (for_batch plan) (iter_batches (bc_rows c) (batch_rows_of str_bytes (d_bulk (defaults (be_config be))) c)) = Inr ps
    \<and> tx_enter w ((be_tx be)\<lparr>tm_timeout := Some timeout\<rparr>) t0 = (Inr st, t1)
    \<and> data_sent t2 = data_sent t1 @ map batch_effect ps
    \<and> env_answer w t2 DTransCommit = Inr v"
proof -
  let ?bs = "iter_batches (bc_rows c) (batch_rows_of str_bytes (d_bulk (defaults (be_config be))) c)"
  let ?t = "real_or (bc_timeout c) (d_transaction_timeout_seconds (defaults (be_config be)))"
  let ?m = "(be_tx be)\<lparr>tm_timeout := Some ?t\<rparr>"
  have rows: "bc_rows c \<noteq> []" using assms(2) by (auto simp: column_names_def)
  obtain plan where plan: "plan_of column_type (be_is_postgres be) c = Inr plan"
    using assms(3) rows by (cases "plan_of column_type (be_is_postgres be) c") (auto simp: bulk_write_def io_bind_def io_of_def io_raise_def)
  let ?body = "\<lambda>cs :: conn_scope. atomic_batches w plan ?t (be_is_postgres be) (bulk_context c) ?bs 0"
  let ?tr = "tr @ [MObserve ''db_bulk_batch_size'' (of_int (batch_rows_of str_bytes (d_bulk (defaults (be_config be))) c)) (be_labels be)]"
  let ?lim = "limiter_acquire w (be_limiter be) ''database'' None
      (limiter_acquire w (be_limiter be) ''bulk'' None (with_transaction w ?m ?body))"
  obtain r tr' where lim: "?lim ?tr = (r, tr')" by (cases "?lim ?tr")
  have eq: "fst (bulk_write w column_type str_bytes (Inr be) c tr) =
      (case r of Inl e \<Rightarrow> Inl e | Inr k \<Rightarrow> Inr k)"
    using rows assms(1)
    by (simp add: bulk_write_def plan Let_def run_emit run_bind [where m = ?lim and tr = ?tr, OF lim] io_return_def split: sum.split)
  obtain k where "r = Inr k"
    using assms(3)
    by (cases r) (simp_all add: eq)
  with lim have "?lim ?tr = (Inr k, tr')" by simp
  from limiter_inner [where body = "limiter_acquire w (be_limiter be) ''bulk'' None (with_transaction w ?m ?body)" and tr = ?tr, OF this]
  obtain t3 t4 where "limiter_acquire w (be_limiter be) ''bulk'' None (with_transaction w ?m ?body) t3 = (Inr k, t4)" by blast
  from limiter_inner [where body = "with_transaction w ?m ?body" and tr = t3, OF this]
  obtain t0 t5 where "with_transaction w ?m ?body t0 = (Inr k, t5)" by blast
  then have inner: "fst (with_transaction w ?m ?body t0) = Inr k" by simp
  obtain st t1 t2 v where tx: "tx_enter w ?m t0 = (Inr st, t1)" "?body (tx_scope ?m) t1 = (Inr k, t2)" "env_answer w t2 DTransCommit = Inr v"
    using with_transaction_committed [OF inner] by blast
  have ne: "[] \<notin> set ?bs"
    by (simp add: iter_batches_no_empty)
  have cols: "bp_columns plan \<noteq> Some []"
    using plan assms(2) by (auto simp: plan_of_def Let_def sum_bind_Inr_iff raise_db_def split: insert_strategy.splits if_splits)
  obtain ps where "map_sum (for_batch plan) ?bs = Inr ps" "data_sent t2 = data_sent t1 @ map batch_effect ps"
    using rows_sent.atomic_batches_ok [OF tx(2) ne cols] by blast
  moreover have "concat ?bs = bc_rows c" by (simp add: iter_batches_def slices_concat)
  ultimately show ?thesis using plan tx by blast
qed

definition sample_bulk :: bulk_call where
  "sample_bulk =
     \<lparr>bc_table = ''t'', bc_statement = TextClause ''INSERT INTO t VALUES (:a)'', bc_rows = [[(''a'', PInt 1)], [(''a'', PInt 2)]],
      bc_mode = Atomic, bc_strategy = ExecuteMany, bc_batch_size = Some 1, bc_timeout = Some 2, bc_query_name = ''t.insert_many'',
      bc_target_database = ''app'', bc_conflict = None, bc_update = None\<rparr>"

definition sample_bulk_env :: bulk_env where
  "sample_bulk_env =
     \<lparr>be_is_postgres = True, be_database = ''app'', be_labels = [], be_limiter = [], be_config = sample_config None,
      be_tx = sample_tx, be_write_scope = ci_scope (sample_info None)\<rparr>"

lemma sample_batches:
  "iter_batches (bc_rows sample_bulk) (batch_rows_of (\<lambda>_. 1) (d_bulk (defaults (be_config sample_bulk_env))) sample_bulk)
     = [[[(''a'', PInt 1)]], [[(''a'', PInt 2)]]]"
proof -
  have "batch_rows_of (\<lambda>_. 1) (d_bulk (defaults (be_config sample_bulk_env))) sample_bulk = 1"
    by (simp add: batch_rows_of_def sample_bulk_def sample_bulk_env_def sample_config_def default_defaults_def default_bulk_def
        resolve_batch_rows_def int_or_def column_names_def default_bulk_limits_def PG_MAX_BIND_PARAMS_def)
  moreover have "iter_batches (bc_rows sample_bulk) 1 = [[[(''a'', PInt 1)]], [[(''a'', PInt 2)]]]"
    by (simp add: iter_batches_def sample_bulk_def slices.simps)
  ultimately show ?thesis by simp
qed

lemma sample_bulk_returns: "\<exists>n. fst (bulk_write (sample_env True []) (\<lambda>_. None) (\<lambda>_. 1) (Inr sample_bulk_env) sample_bulk []) = Inr n"
proof -
  have m: "(be_tx sample_bulk_env)\<lparr>tm_timeout := Some (real_or (bc_timeout sample_bulk) d)\<rparr> = sample_tx" for d
    by (simp add: sample_bulk_env_def sample_bulk_def sample_tx_def real_or_def)
  let ?plan = "\<lparr>bp_statement = TextClause ''INSERT INTO t VALUES (:a)'', bp_columns = None\<rparr>"
  have lim: "limiter_acquire w (be_limiter sample_bulk_env) t to b = b" "bc_rows sample_bulk \<noteq> []" "bc_mode sample_bulk = Atomic"
    "plan_of ct pg sample_bulk = Inr ?plan" for ct pg w t to and b :: "int io"
    by (simp_all add: sample_bulk_env_def sample_bulk_def plan_of_def limiter_acquire_def)
  have body: "succeeds (atomic_batches (sample_env True []) ?plan t pg ctx bs k)" for t pg ctx bs k
    by (rule succeeds_atomic [OF sample_env_ok]) simp
  have un: "uninterrupted (sample_env True [])" by (simp add: uninterrupted_def)
  have tx: "succeeds (with_transaction (sample_env True []) sample_tx (\<lambda>cs. atomic_batches (sample_env True []) ?plan t pg ctx bs k))" for t pg ctx bs k
    unfolding succeeds_def
  proof
    fix tr
    obtain st t1 where "tx_enter (sample_env True []) sample_tx tr = (Inr st, t1)" using sample_enters by blast
    from with_transaction_returns [OF sample_env_ok un this body]
    show "\<exists>x. fst (with_transaction (sample_env True []) sample_tx (\<lambda>cs. atomic_batches (sample_env True []) ?plan t pg ctx bs k) tr) = Inr x" .
  qed
  have "succeeds (bulk_write (sample_env True []) (\<lambda>_. None) (\<lambda>_. 1) (Inr sample_bulk_env) sample_bulk)"
    unfolding bulk_write_def Let_def m
    by (auto simp: lim m intro!: succeeds_then succeeds_bind succeeds_basic tx)
  then show ?thesis unfolding succeeds_def by blast
qed

lemma atomic_bulk_complete_witness:
  "\<exists>ps. map_sum (for_batch \<lparr>bp_statement = bc_statement sample_bulk, bp_columns = None\<rparr>)
       [[[(''a'', PInt 1)]], [[(''a'', PInt 2)]]] = Inr ps
    \<and> (\<exists>t1 t2. data_sent t2 = data_sent t1 @ map batch_effect ps)"
proof -
  obtain n where "fst (bulk_write (sample_env True []) (\<lambda>_. None) (\<lambda>_. 1) (Inr sample_bulk_env) sample_bulk []) = Inr n"
    using sample_bulk_returns by blast
  from atomic_bulk_complete [OF _ _ this] show ?thesis
    unfolding sample_batches by (auto simp: sample_bulk_def column_names_def plan_of_def)
qed

text \<open>A bulk write that is not atomic gives every connection back: it uses at most one per batch, and
  in split mode one more per row of a failed batch; each is closed exactly once and last, and commits at
  most once. This is so whatever fails.\<close>

theorem best_effort_connections:
  assumes "tag_safe w"
  shows "\<exists>Ls. length Ls \<le> length batches + length (concat batches)
    \<and> (\<forall>L \<in> set Ls. (closed_once L \<or> (L = [DConnect] \<and> (\<exists>tr x. env_answer w tr DConnect = Inl x)))
          \<and> count_list L DConnCommit \<le> 1)
    \<and> life (snd (bulk_best_effort w be plan batches mode timeout q tr)) = life tr @ concat Ls"
proof -
  let ?f = "best_effort_batch w be plan mode timeout q"
  have "scopes_upto w (sum_list (map (\<lambda>b. 1 + length b) batches)) (io_each ?f batches)"
    by (rule scopes_upto_each) (rule scopes_best_effort_batch [OF assms])
  moreover have "sum_list (map (\<lambda>b. 1 + length b) batches) = length batches + length (concat batches)"
    by (induction batches) simp_all
  ultimately obtain Ls where "length Ls \<le> length batches + length (concat batches)" "\<forall>L \<in> set Ls. scope_trace w True L"
    "life (snd (io_each ?f batches tr)) = life tr @ concat Ls"
    unfolding scopes_upto_def by metis
  then show ?thesis by (intro exI [of _ Ls]) (auto simp: bulk_best_effort_def life_counted scope_trace_def)
qed

lemma best_effort_connections_witness:
  "\<exists>Ls. length Ls \<le> 1 + 2 \<and> (\<forall>L \<in> set Ls. count_list L DConnCommit \<le> 1)
    \<and> life (snd (bulk_best_effort (sample_env True [(DConnCommit, net_down)]) be plan [[[(''a'', PInt 1)], [(''a'', PInt 2)]]] SplitOnFailure 1 ''q'' []))
      = concat Ls"
  using best_effort_connections [of "sample_env True [(DConnCommit, net_down)]" "[[[(''a'', PInt 1)], [(''a'', PInt 2)]]]" be plan SplitOnFailure 1 "''q''" "[]"]
  by (auto simp: tag_safe_def)

text \<open>The rows logged as dropped.\<close>

definition dropped_of :: "effect list \<Rightarrow> int" where
  "dropped_of tr = sum_list (map (\<lambda>e. case e of LRowsDropped _ k \<Rightarrow> k | _ \<Rightarrow> 0) tr)"

lemma count_of_simps [simp]:
  "count_of (xs @ ys) = count_of xs + count_of ys" "count_of [] = 0"
  "count_of (e # xs) = (case e of LCount k \<Rightarrow> k | _ \<Rightarrow> 0) + count_of xs"
  "dropped_of (xs @ ys) = dropped_of xs + dropped_of ys" "dropped_of [] = 0"
  "dropped_of (e # xs) = (case e of LRowsDropped _ k \<Rightarrow> k | _ \<Rightarrow> 0) + dropped_of xs"
  by (simp_all add: count_of_def dropped_of_def)

definition commit_fails :: env where
  "commit_fails = sample_env True [(DConnCommit, net_down)]"

lemma commit_fails_simps:
  "env_answer commit_fails tr e = (if e = DConnCommit then Inl net_down else Inr (PInt 1))" "env_async commit_fails"
  by (simp_all add: commit_fails_def)

lemma uncommitted_attempt:
  assumes "bp_columns plan = None"
  shows "\<exists>err tr'. batch_attempt commit_fails be plan t b tr = (Inl (DbErr err), tr')
    \<and> count_of tr' = count_of tr + 1 \<and> dropped_of tr' = dropped_of tr"
  using assms
  by (simp add: batch_attempt_def for_batch_def timed_scope_def scope_def acquire_def scope_commit_def scope_epilogue_def
      io_defs Let_def commit_fails_simps run_plan_def run_execute_def run_statement_def maybe_set_timeout_def timeout_scope_def
      error_metric_def on_raise_def is_connection_error_def net_down_def affected_def write_call_def)

lemma uncommitted_batch:
  assumes "bp_columns plan = None"
  shows "\<exists>tr'. best_effort_batch commit_fails be plan BestEffort t q b tr = (Inr (), tr')
    \<and> count_of tr' = count_of tr + 1 \<and> dropped_of tr' = dropped_of tr + int (length b)"
proof -
  obtain err t1 where "batch_attempt commit_fails be plan t b tr = (Inl (DbErr err), t1)"
    "count_of t1 = count_of tr + 1" "dropped_of t1 = dropped_of tr"
    using uncommitted_attempt [OF assms] by blast
  then show ?thesis
    by (simp add: best_effort_batch_def except_exception_def try_except_def dropped_def io_then_def io_bind_def emit_def is_exception_def)
qed

text \<open>A batch counts as written before it is committed: when the connection breaks at every COMMIT, so
  that no batch is known to be committed, a best-effort bulk write still returns the number of rows the
  statements reported (here one per batch), and logs every row as dropped.\<close>

theorem best_effort_counts_uncommitted:
  assumes "bp_columns plan = None"
  shows "fst (bulk_best_effort commit_fails be plan batches BestEffort t q tr) = Inr (int (length batches))
    \<and> dropped_of (snd (bulk_best_effort commit_fails be plan batches BestEffort t q tr)) = dropped_of tr + int (length (concat batches))"
proof -
  have "\<exists>tr'. io_each (best_effort_batch commit_fails be plan BestEffort t q) batches tr = (Inr (), tr')
    \<and> count_of tr' = count_of tr + int (length batches) \<and> dropped_of tr' = dropped_of tr + int (length (concat batches))"
  proof (induction batches arbitrary: tr)
    case Nil
    then show ?case by (simp add: io_return_def)
  next
    case (Cons b bs)
    obtain t1 where t1: "best_effort_batch commit_fails be plan BestEffort t q b tr = (Inr (), t1)"
      "count_of t1 = count_of tr + 1" "dropped_of t1 = dropped_of tr + int (length b)"
      using uncommitted_batch [OF assms] by blast
    with Cons [of t1] show ?case by (auto simp: io_then_def io_bind_def)
  qed
  then show ?thesis by (auto simp: bulk_best_effort_def counted_def)
qed

lemma best_effort_counts_uncommitted_witness:
  "fst (bulk_best_effort commit_fails sample_bulk_env \<lparr>bp_statement = TextClause ''INSERT'', bp_columns = None\<rparr>
     [[[(''a'', PInt 1)]], [[(''a'', PInt 2)]]] BestEffort 1 ''q'' []) = Inr 2"
  using best_effort_counts_uncommitted [of "\<lparr>bp_statement = TextClause ''INSERT'', bp_columns = None\<rparr>" sample_bulk_env "[[[(''a'', PInt 1)]], [[(''a'', PInt 2)]]]" 1 "''q''" "[]"]
  by simp

end
