(* ===== verification/Messaging.thy ===== *)
theory Messaging
  imports Executor
begin

text \<open>
  Message-driven writes: the inbox that makes redelivered messages safe
  (\<^verbatim>\<open>integrations/inbox.py\<close>) and the transactional outbox with its relay
  (\<^verbatim>\<open>integrations/outbox.py\<close>). The application's callbacks (\<open>work\<close>, \<open>ack\<close>,
  \<open>publish\<close> and so on) are programs; the table contents are the environment's.
\<close>

subsection \<open>Tables and partitions\<close>

text \<open>A triple-quoted block of the source: every line on its own, indented by eight.\<close>

definition sql_block :: "string list \<Rightarrow> string" where
  "sql_block lines = concat (map (\<lambda>l. CHR 0x0A # ''        '' @ l) lines) @ CHR 0x0A # ''    ''"

definition DEFAULT_INBOX_TABLE :: string where
  "DEFAULT_INBOX_TABLE = ''consumed_messages''"

definition inbox_ddl :: "string \<Rightarrow> string" where
  "inbox_ddl table = sql_block
     [''CREATE TABLE IF NOT EXISTS '' @ table @ '' ('',
      ''    consumer_name TEXT NOT NULL,'',
      ''    message_id    TEXT NOT NULL,'',
      ''    processed_at  TIMESTAMPTZ NOT NULL DEFAULT now(),'',
      ''    PRIMARY KEY (consumer_name, message_id)'',
      '')'']"

definition partitioned_inbox_ddl :: "string \<Rightarrow> string" where
  "partitioned_inbox_ddl table = sql_block
     [''CREATE TABLE IF NOT EXISTS '' @ table @ '' ('',
      ''    consumer_name TEXT NOT NULL,'',
      ''    message_id    TEXT NOT NULL,'',
      ''    processed_at  TIMESTAMPTZ NOT NULL DEFAULT now(),'',
      ''    PRIMARY KEY (consumer_name, message_id, processed_at)'',
      '') PARTITION BY RANGE (processed_at)'']"

definition month_start :: "nat \<Rightarrow> nat \<Rightarrow> string" where
  "month_start year month = zero_pad 4 year @ ''-'' @ zero_pad 2 month @ ''-01''"

definition next_month :: "nat \<Rightarrow> nat \<Rightarrow> nat \<times> nat" where
  "next_month year month = (if month = 12 then (year + 1, 1) else (year, month + 1))"

definition partition_name :: "string \<Rightarrow> nat \<Rightarrow> nat \<Rightarrow> string" where
  "partition_name table year month = table @ ''_'' @ zero_pad 4 year @ ''_'' @ zero_pad 2 month"

definition month_end :: "nat \<Rightarrow> nat \<Rightarrow> string" where
  "month_end year month = (case next_month year month of (y, m) \<Rightarrow> month_start y m)"

definition month_partition_ddl :: "nat \<Rightarrow> nat \<Rightarrow> string \<Rightarrow> string" where
  "month_partition_ddl year month table = sql_block
     [''CREATE TABLE IF NOT EXISTS '' @ partition_name table year month @ '' PARTITION OF '' @ table,
      ''FOR VALUES FROM ('' @ quoted (month_start year month) @ '') TO ('' @ quoted (month_end year month) @ '')'']"

definition inbox_month_partition_ddl :: "nat \<Rightarrow> nat \<Rightarrow> string \<Rightarrow> string" where
  "inbox_month_partition_ddl = month_partition_ddl"

definition outbox_month_partition_ddl :: "nat \<Rightarrow> nat \<Rightarrow> string \<Rightarrow> string" where
  "outbox_month_partition_ddl = month_partition_ddl"

definition DEFAULT_OUTBOX_TABLE :: string where
  "DEFAULT_OUTBOX_TABLE = ''outbox_messages''"

definition outbox_ddl :: "string \<Rightarrow> string" where
  "outbox_ddl table = sql_block
     [''CREATE TABLE IF NOT EXISTS '' @ table @ '' ('',
      ''    id         BIGINT GENERATED ALWAYS AS IDENTITY PRIMARY KEY,'',
      ''    topic      TEXT NOT NULL,'',
      ''    payload    JSONB NOT NULL,'',
      ''    created_at TIMESTAMPTZ NOT NULL DEFAULT now(),'',
      ''    sent_at    TIMESTAMPTZ'',
      '');'',
      ''CREATE INDEX IF NOT EXISTS '' @ table @ ''_unsent_idx ON '' @ table @ '' (id) WHERE sent_at IS NULL'']"

definition partitioned_outbox_ddl :: "string \<Rightarrow> string" where
  "partitioned_outbox_ddl table = sql_block
     [''CREATE TABLE IF NOT EXISTS '' @ table @ '' ('',
      ''    id         BIGINT GENERATED ALWAYS AS IDENTITY,'',
      ''    topic      TEXT NOT NULL,'',
      ''    payload    JSONB NOT NULL,'',
      ''    created_at TIMESTAMPTZ NOT NULL DEFAULT now(),'',
      ''    sent_at    TIMESTAMPTZ,'',
      ''    PRIMARY KEY (id, created_at)'',
      '') PARTITION BY RANGE (created_at)'']"

subsection \<open>The inbox\<close>

definition claim_sql :: "string \<Rightarrow> statement_obj" where
  "claim_sql table = TextClause (''INSERT INTO '' @ table @ '' (consumer_name, message_id) VALUES (:c, :m) ON CONFLICT (consumer_name, message_id) DO NOTHING RETURNING 1'')"

definition claim_params :: "string \<Rightarrow> string \<Rightarrow> pyval" where
  "claim_params consumer message_id = PDict [(''c'', PStr consumer), (''m'', PStr message_id)]"

definition claim :: "env \<Rightarrow> conn_scope \<Rightarrow> string \<Rightarrow> string \<Rightarrow> string \<Rightarrow> bool io" where
  "claim w tx consumer message_id table =
     io_bind (fetch_optional w tx (AStatement (claim_sql table)) (Some (claim_params consumer message_id)) MapNone)
       (\<lambda>row. io_return (row \<noteq> PNone))"

text \<open>\<^verbatim>\<open>async with process_once(...) as (tx, first): body\<close>; \<open>m\<close> is the manager of
  \<^verbatim>\<open>db.transaction(target=target)\<close>.\<close>

definition process_once ::
  "env \<Rightarrow> tx_manager \<Rightarrow> string \<Rightarrow> string \<Rightarrow> string \<Rightarrow> (conn_scope \<Rightarrow> bool \<Rightarrow> 'a io) \<Rightarrow> 'a io" where
  "process_once w m consumer message_id table body =
     with_transaction w m (\<lambda>tx. io_bind (claim w tx consumer message_id table) (body tx))"

record callbacks =
  cb_work :: "conn_scope \<Rightarrow> unit io"
  cb_ack :: "unit io"
  cb_dead_letter :: "(db_error \<Rightarrow> unit io) option"
  cb_retry :: "(db_error \<Rightarrow> unit io) option"

definition delivery_error :: "callbacks \<Rightarrow> raised \<Rightarrow> bool io" where
  "delivery_error cbs exc =
     (case exc of
        Foreign _ \<Rightarrow> io_raise exc
      | DbErr err \<Rightarrow>
          if error_isa err DatabaseCommitUnknownError then io_raise exc
          else
            (case (err_retryable err, cb_retry cbs, cb_dead_letter cbs) of
               (True, Some retry, _) \<Rightarrow> io_then (retry err) (io_return False)
             | (False, _, Some dead_letter) \<Rightarrow> io_then (dead_letter err) (io_return False)
             | _ \<Rightarrow> io_raise exc))"

definition work_if_first :: "callbacks \<Rightarrow> conn_scope \<Rightarrow> bool \<Rightarrow> unit io" where
  "work_if_first cbs tx first = (if first then cb_work cbs tx else io_return ())"

definition ack_after_commit ::
  "env \<Rightarrow> tx_manager \<Rightarrow> string \<Rightarrow> string \<Rightarrow> callbacks \<Rightarrow> string \<Rightarrow> bool io" where
  "ack_after_commit w m consumer message_id cbs table =
     on_raise (process_once w m consumer message_id table (work_if_first cbs))
       (\<lambda>_. io_then (cb_ack cbs) (io_return True))
       (delivery_error cbs)"

subsection \<open>The outbox\<close>

text \<open>\<open>dumps\<close> is \<^verbatim>\<open>json.dumps\<close>; a payload that has no JSON form is its exception. The
  identity column is a \<^verbatim>\<open>BIGINT\<close>, which the driver answers as a number.\<close>

definition enqueue ::
  "env \<Rightarrow> (pyval \<Rightarrow> string py) \<Rightarrow> conn_scope \<Rightarrow> string \<Rightarrow> (string \<times> pyval) list \<Rightarrow> string \<Rightarrow> int io" where
  "enqueue w dumps tx topic payload table =
     io_bind (io_of (dumps (PDict payload))) (\<lambda>json.
     io_bind (fetch_value w tx
        (AStatement (TextClause (''INSERT INTO '' @ table @ '' (topic, payload) VALUES (:topic, CAST(:payload AS jsonb)) RETURNING id'')))
        (Some (PDict [(''topic'', PStr topic), (''payload'', PStr json)]))) (\<lambda>new_id.
       io_of (int_of_value new_id)))"

definition unsent_sql :: "string \<Rightarrow> statement_obj" where
  "unsent_sql table = TextClause (''SELECT id, topic, payload, created_at FROM '' @ table
     @ '' WHERE sent_at IS NULL ORDER BY id FOR UPDATE SKIP LOCKED LIMIT :n'')"

definition mark_sql :: "string \<Rightarrow> statement_obj" where
  "mark_sql table = TextClause (''UPDATE '' @ table @ '' SET sent_at = now() WHERE id = ANY(:ids)'')"

definition row_id :: "pyval \<Rightarrow> pyval py" where
  "row_id row =
     (case dict_get (row_items row) ''id'' of
        None \<Rightarrow> Inl (Foreign (plain_exn [CException, CKeyError] ''id''))
      | Some v \<Rightarrow> Inr v)"

definition relay ::
  "env \<Rightarrow> (pyval \<Rightarrow> unit io) \<Rightarrow> int \<Rightarrow> string \<Rightarrow> conn_scope \<Rightarrow> nat io" where
  "relay w publish batch_size table tx =
     io_bind (fetch_all w tx (AStatement (unsent_sql table)) (Some (PDict [(''n'', PInt batch_size)])) MapNone) (\<lambda>rows.
       if rows = [] then io_return 0
       else
         io_then (io_each (\<lambda>row. publish (PDict (row_items row))) rows)
           (io_bind (io_of (map_sum row_id rows)) (\<lambda>ids.
             io_then (execute w tx (AStatement (mark_sql table)) (Some (PDict [(''ids'', PList ids)])))
               (io_return (length rows)))))"

definition drain :: "env \<Rightarrow> tx_manager \<Rightarrow> (pyval \<Rightarrow> unit io) \<Rightarrow> int \<Rightarrow> string \<Rightarrow> nat io" where
  "drain w m publish batch_size table = with_transaction w m (relay w publish batch_size table)"

subsection \<open>Partitions\<close>

lemma sql_block_inj: "sql_block ls = sql_block ls' \<longleftrightarrow> concat (map (\<lambda>l. CHR 0x0A # ''        '' @ l) ls) = concat (map (\<lambda>l. CHR 0x0A # ''        '' @ l) ls')"
  by (simp add: sql_block_def)

lemma zero_pad_length: "n < 10 ^ k \<Longrightarrow> 0 < k \<Longrightarrow> length (zero_pad k n) = k"
proof -
  have show_len: "length (show_nat n) \<le> k" if "n < 10 ^ k" "0 < k" for n k
    using that
  proof (induction n arbitrary: k rule: show_nat.induct)
    case (1 n)
    show ?case
    proof (cases "n < 10")
      case True
      with 1(3) show ?thesis by (subst show_nat.simps) simp
    next
      case False
      obtain j where k: "k = Suc j" using 1(3) by (cases k) auto
      have j: "0 < j" using False 1(2) k by (cases j) auto
      have "n div 10 < 10 ^ j" using 1(2) k by (simp add: less_mult_imp_div_less mult.commute)
      with 1(1) [OF False _ j] False k show ?thesis by (subst show_nat.simps) simp
    qed
  qed
  assume "n < 10 ^ k" "0 < k"
  with show_len [of n k] show ?thesis by (simp add: zero_pad_def)
qed

text \<open>Monthly partitions tile the time line: each month's partition ends where the next month's begins,
  with December followed by January of the next year; and two different months of four-digit years have
  different partitions.\<close>

theorem month_partitions_tile:
  assumes "1 \<le> m" "m \<le> 12" "1 \<le> m'" "m' \<le> 12" "y < 10000" "y' < 10000"
  shows "month_end y m = (case next_month y m of (y1, m1) \<Rightarrow> month_start y1 m1)
    \<and> (case next_month y m of (y1, m1) \<Rightarrow> 1 \<le> m1 \<and> m1 \<le> 12 \<and> 12 * y1 + m1 = 12 * y + m + 1)
    \<and> (partition_name table y m = partition_name table y' m' \<longleftrightarrow> y = y' \<and> m = m')"
proof -
  have "length (zero_pad 4 y) = length (zero_pad 4 y')"
    using zero_pad_length [of _ 4] assms by simp
  then have "partition_name table y m = partition_name table y' m' \<longleftrightarrow> y = y' \<and> m = m'"
    by (auto simp: partition_name_def dest: zero_pad_inj)
  then show ?thesis using assms by (auto simp: month_end_def next_month_def)
qed

lemma month_partitions_tile_witness:
  "month_end 2024 12 = month_start 2025 1 \<and> partition_name ''t'' 2024 12 \<noteq> partition_name ''t'' 2025 1"
  using month_partitions_tile [of 12 1 2024 2025 "''t''"] by (simp add: next_month_def)

subsection \<open>Acknowledging\<close>

definition acks :: "effect list \<Rightarrow> nat" where
  "acks tr = length (filter (\<lambda>e. e = DCall ''ack'' PNone) tr)"

lemma acks_simps [simp]: "acks (xs @ ys) = acks xs + acks ys" "acks [e] = (if e = DCall ''ack'' PNone then 1 else 0)"
  by (simp_all add: acks_def)

lemma keeps_fetch_optional:
  assumes "\<And>e tr. (\<exists>st ps. e = DExecute st ps) \<or> (\<exists>s. e = DCursor s) \<or> (\<exists>d. e = DEnterTimeout d) \<or> e = DExitTimeout \<Longrightarrow>
      obs (tr @ [e]) = obs tr"
  shows "keeps obs (fetch_optional w cs q ps mt)"
  unfolding fetch_optional_def guarded_def apply_local_settings_def apply_setting_def run_fetch_optional_def run_cursor_def
    run_statement_def maybe_set_timeout_def cardinality_handler_def result_error_def classified_def
  by (auto intro!: quiet_intros assms split: option.split)

lemma keeps_claim_acks: "keeps acks (claim w tx c mid table)"
  unfolding claim_def by (auto intro!: keeps_bind keeps_return keeps_fetch_optional)

lemma keeps_process_acks:
  assumes "\<And>tx. keeps acks (cb_work cbs tx)"
  shows "keeps acks (process_once w m c mid table (work_if_first cbs))"
  unfolding process_once_def
  by (rule keeps_obs_transaction)
    (auto simp: own_call_def work_if_first_def intro!: keeps_bind keeps_claim_acks keeps_return assms)

text \<open>The broker message is acknowledged only after a commit: if handling a message acknowledges it
  (calls \<open>ack\<close>, here the effect of that name), then it does so once, and the COMMIT of the transaction
  that claimed the message and did the work had been acknowledged before; in every other case, a
  commit-unknown outcome included, the message is not acknowledged.\<close>

theorem ack_only_after_commit:
  assumes "cb_ack cbs = io_then (perform w (DCall ''ack'' PNone)) (io_return ())"
    and "\<forall>tx. keeps acks (cb_work cbs tx)"
    and "\<forall>e f. cb_dead_letter cbs = Some f \<longrightarrow> keeps acks (f e)" "\<forall>e f. cb_retry cbs = Some f \<longrightarrow> keeps acks (f e)"
  shows "acks (snd (ack_after_commit w m consumer message_id cbs table tr)) = acks tr
    \<or> acks (snd (ack_after_commit w m consumer message_id cbs table tr)) = Suc (acks tr)
      \<and> (\<exists>st t1 t2 first t3 v. tx_enter w m tr = (Inr st, t1)
          \<and> claim w (tx_scope m) consumer message_id table t1 = (Inr first, t2)
          \<and> work_if_first cbs (tx_scope m) first t2 = (Inr (), t3)
          \<and> env_answer w t3 DTransCommit = Inr v)"
proof -
  let ?p = "process_once w m consumer message_id table (work_if_first cbs)"
  obtain r t1 where p: "?p tr = (r, t1)" by (cases "?p tr")
  then have a1: "acks t1 = acks tr"
    using keepsD [OF keeps_process_acks, of cbs w m consumer message_id table tr] assms(2) by simp
  show ?thesis
  proof (cases r)
    case (Inl e)
    have "keeps acks (delivery_error cbs e)"
      using assms(3,4)
      by (auto simp: delivery_error_def intro!: keeps_raise keeps_then keeps_return split: raised.split option.split bool.split)
    with Inl p a1 show ?thesis by (simp add: ack_after_commit_def on_raise_def keeps_def)
  next
    case (Inr u)
    have "acks (snd (ack_after_commit w m consumer message_id cbs table tr)) = Suc (acks tr)"
      using p Inr a1 assms(1)
      by (simp add: ack_after_commit_def on_raise_def io_then_def io_bind_def perform_def io_return_def split: sum.split)
    moreover obtain st s1 s2 v where s: "tx_enter w m tr = (Inr st, s1)"
      "io_bind (claim w (tx_scope m) consumer message_id table) (work_if_first cbs (tx_scope m)) s1 = (Inr u, s2)"
      "env_answer w s2 DTransCommit = Inr v"
      using with_transaction_committed [of w m "\<lambda>tx. io_bind (claim w tx consumer message_id table) (work_if_first cbs tx)" tr u] p Inr
      unfolding process_once_def by auto
    ultimately show ?thesis
      using s by (auto simp: io_bind_def split: prod.splits sum.splits)
  qed
qed

lemma ack_only_after_commit_witness:
  "acks (snd (ack_after_commit (sample_env True [(DTransCommit, net_down)]) sample_tx ''c'' ''1''
      \<lparr>cb_work = (\<lambda>_. io_return ()), cb_ack = io_then (perform (sample_env True [(DTransCommit, net_down)]) (DCall ''ack'' PNone)) (io_return ()),
       cb_dead_letter = None, cb_retry = None\<rparr> ''t'' [])) \<le> Suc (acks [])"
  using ack_only_after_commit [where cbs = "\<lparr>cb_work = (\<lambda>_. io_return ()),
      cb_ack = io_then (perform (sample_env True [(DTransCommit, net_down)]) (DCall ''ack'' PNone)) (io_return ()),
      cb_dead_letter = None, cb_retry = None\<rparr>" and w = "sample_env True [(DTransCommit, net_down)]" and m = sample_tx
      and consumer = "''c''" and message_id = "''1''" and table = "''t''" and tr = "[]"]
  by (auto simp: keeps_return)

subsection \<open>Exactly once\<close>

text \<open>
  The server's side of the inbox, read off the trace (given backwards). A transaction has an open claim
  once it has sent the claim; a COMMIT lands or does not, which the client may or may not learn
  (\<open>landed\<close>); a landed COMMIT of a transaction with an open claim leaves the message claimed.
\<close>

fun inbox_scan :: "(effect list \<Rightarrow> bool) \<Rightarrow> effect \<Rightarrow> effect list \<Rightarrow> bool \<times> bool" where
  "inbox_scan landed c [] = (False, False)"
| "inbox_scan landed c (e # past) =
     (case inbox_scan landed c past of (pending, claimed) \<Rightarrow>
        if e = DBegin then (False, claimed)
        else if e = c then (True, claimed)
        else if e = DTransCommit then (False, claimed \<or> pending \<and> landed (rev past))
        else (pending, claimed))"

definition inbox :: "(effect list \<Rightarrow> bool) \<Rightarrow> effect \<Rightarrow> effect list \<Rightarrow> bool \<times> bool" where
  "inbox landed c tr = inbox_scan landed c (rev tr)"

abbreviation message_claimed :: "(effect list \<Rightarrow> bool) \<Rightarrow> effect \<Rightarrow> effect list \<Rightarrow> bool" where
  "message_claimed landed c tr \<equiv> snd (inbox landed c tr)"

lemma inbox_snoc:
  "inbox landed c (tr @ [e]) =
     (case inbox landed c tr of (pending, claimed) \<Rightarrow>
        if e = DBegin then (False, claimed)
        else if e = c then (True, claimed)
        else if e = DTransCommit then (False, claimed \<or> pending \<and> landed tr)
        else (pending, claimed))"
  by (simp add: inbox_def split: prod.split)

definition claim_call :: "string \<Rightarrow> string \<Rightarrow> string \<Rightarrow> effect" where
  "claim_call consumer message_id table = DExecute (claim_sql table) (claim_params consumer message_id)"

text \<open>What the inbox relies on of the server: an acknowledged COMMIT has landed, and the claim
  (\<^verbatim>\<open>INSERT ... ON CONFLICT DO NOTHING RETURNING 1\<close> under a unique key) answers with no row
  exactly when the message has been claimed by a landed transaction.\<close>

definition inbox_server :: "(effect list \<Rightarrow> bool) \<Rightarrow> effect \<Rightarrow> env \<Rightarrow> bool" where
  "inbox_server landed c w \<longleftrightarrow>
     (\<forall>tr v. env_answer w tr DTransCommit = Inr v \<longrightarrow> landed tr)
     \<and> (\<forall>tr v. env_answer w (tr @ [c]) (DCursor ''mappings.one_or_none'') = Inr v \<longrightarrow>
          (v = PNone \<longleftrightarrow> message_claimed landed c tr))"

text \<open>The message is processed by the delivery that starts after the trace: it claims the message first,
  its work succeeds and its COMMIT lands.\<close>

definition processed ::
  "(effect list \<Rightarrow> bool) \<Rightarrow> env \<Rightarrow> tx_manager \<Rightarrow> string \<Rightarrow> string \<Rightarrow> callbacks \<Rightarrow> string \<Rightarrow> effect list \<Rightarrow> bool" where
  "processed landed w m consumer message_id cbs table tr \<longleftrightarrow>
     (\<exists>st t1 t2 t3. tx_enter w m tr = (Inr st, t1)
        \<and> claim w (tx_scope m) consumer message_id table t1 = (Inr True, t2)
        \<and> cb_work cbs (tx_scope m) t2 = (Inr (), t3) \<and> landed t3)"

lemma run_cursor_ok:
  assumes "run_cursor acc w st (Some ps) t pg tr = (Inr v, tr')" "ps \<noteq> PDict []" "ps \<noteq> PList []"
    and "\<And>tr d. obs (tr @ [DEnterTimeout d]) = obs tr" "\<And>tr s. obs (tr @ [DExecute (TextClause s) (PDict [])]) = obs tr"
  shows "\<exists>tr0. obs tr0 = obs tr \<and> env_answer w (tr0 @ [DExecute st ps]) (DCursor acc) = Inr v
    \<and> tr' = tr0 @ [DExecute st ps, DCursor acc]"
proof -
  let ?m = "io_then (run_statement w st (Some ps) t pg) (perform w (DCursor acc))"
  obtain tr0 where tr0: "obs tr0 = obs tr" "?m tr0 = (Inr v, tr')"
  proof (cases "\<exists>d. t = Some d \<and> env_async w \<and> 0 < d")
    case False
    then have "timeout_scope w t ?m = ?m" by (auto simp: timeout_scope_def split: option.split)
    with assms(1) that show ?thesis by (auto simp: run_cursor_def)
  next
    case True
    then obtain d where d: "t = Some d" "env_async w" "0 < d" by blast
    let ?tr = "tr @ [DEnterTimeout d]"
    obtain r t1 where m: "?m ?tr = (r, t1)" by (cases "?m ?tr")
    have "r = Inr v \<and> t1 = tr'"
    proof (cases r)
      case (Inr u)
      with assms(1) d m show ?thesis by (simp add: run_cursor_def timeout_scope_def run_emit try_except_def)
    next
      case (Inl e)
      with assms(1) d m show ?thesis
        by (simp add: run_cursor_def timeout_scope_def run_emit try_except_def)
          (simp add: io_bind_def perform_def io_raise_def split: if_splits sum.splits)
    qed
    with m assms(4) that show ?thesis by blast
  qed
  obtain r tr1 where s: "maybe_set_timeout w t pg tr0 = (r, tr1)" by (cases "maybe_set_timeout w t pg tr0")
  have "keeps obs (maybe_set_timeout w t pg)"
    by (auto simp: maybe_set_timeout_def intro!: quiet_intros assms(5) split: option.split)
  then have "obs tr1 = obs tr0" using s keepsD [of obs "maybe_set_timeout w t pg" tr0] by simp
  moreover have "r = Inr () \<and> env_answer w (tr1 @ [DExecute st ps]) (DCursor acc) = Inr v
      \<and> tr' = tr1 @ [DExecute st ps, DCursor acc]"
    using tr0(2) s assms(2,3)
    by (cases r) (auto simp: run_statement_def io_then_def io_bind_def perform_def params_or_empty_def split: sum.splits)
  ultimately show ?thesis using tr0(1) by (intro exI [of _ tr1]) simp
qed

lemma claim_answer:
  assumes "claim w tx consumer message_id table tr = (Inr b, tr')" "inbox_server landed (claim_call consumer message_id table) w"
  shows "inbox landed (claim_call consumer message_id table) tr' = (True, message_claimed landed (claim_call consumer message_id table) tr)
    \<and> (b \<longleftrightarrow> \<not> message_claimed landed (claim_call consumer message_id table) tr)"
proof -
  let ?c = "claim_call consumer message_id table" and ?acc = "''mappings.one_or_none''"
  let ?run = "run_fetch_optional w (claim_sql table) (Some (claim_params consumer message_id)) (cs_default_timeout tx) (cs_is_postgres tx)"
  obtain row tr1 where f: "fetch_optional w tx (AStatement (claim_sql table)) (Some (claim_params consumer message_id)) MapNone tr = (Inr row, tr1)"
    "b = (row \<noteq> PNone)" "tr' = tr1"
    using assms(1) by (auto simp: claim_def io_bind_def io_return_def split: prod.splits sum.splits)
  obtain r t1 where run: "?run tr = (r, t1)" by (cases "?run tr")
  have run_ok: "?run tr = (Inr row, tr1)"
    using f(1) run
    by (cases r; cases row)
      (auto simp: fetch_optional_def guarded_def scope_resolve_def coerce_statement_def claim_sql_def query_of_def settings_of_def
        apply_local_settings_def io_then_def except_exception_def try_except_def io_bind_def io_return_def io_raise_def
        cardinality_handler_def classified_def result_error_def build_mapper_def io_of_def split: if_splits)
  from run_cursor_ok [OF run_ok [unfolded run_fetch_optional_def], of "message_claimed landed ?c"]
  obtain tr0 where tr0: "message_claimed landed ?c tr0 = message_claimed landed ?c tr"
    "env_answer w (tr0 @ [?c]) (DCursor ?acc) = Inr row" "tr1 = tr0 @ [?c, DCursor ?acc]"
    by (auto simp: claim_params_def inbox_snoc claim_call_def split: prod.splits)
  have "inbox landed ?c (tr0 @ [?c, DCursor ?acc]) = (True, message_claimed landed ?c tr0)"
    using inbox_snoc [of landed ?c "tr0 @ [?c]" "DCursor ?acc"] inbox_snoc [of landed ?c tr0 ?c]
    by (auto simp: claim_call_def split: prod.splits)
  moreover have "row = PNone \<longleftrightarrow> message_claimed landed ?c tr0"
    using assms(2) tr0(2) unfolding inbox_server_def by blast
  ultimately show ?thesis using f(2,3) tr0(1,3) by simp
qed

text \<open>Only a COMMIT changes what has been claimed.\<close>

lemma claimed_snoc: "e \<noteq> DTransCommit \<Longrightarrow> message_claimed landed c (tr @ [e]) = message_claimed landed c tr"
  by (simp add: inbox_snoc split: prod.split)

lemma keeps_claimed_enter: "keeps (message_claimed landed c) (tx_enter w m)"
  unfolding tx_enter_def tx_apply_settings_def enter_failed_def cleanup_on_enter_failure_def tx_rollback_def tx_release_def
    invalidate_def shield_def Let_def
  by (auto intro!: quiet_intros claimed_snoc split: option.split)

lemma keeps_claimed_claim: "keeps (message_claimed landed c) (claim w tx cons mid table)"
  unfolding claim_def by (auto intro!: keeps_bind keeps_return keeps_fetch_optional claimed_snoc)

lemma keeps_claimed_epilogue: "keeps (message_claimed landed c) (tx_epilogue w m st oc)"
  unfolding tx_epilogue_def tx_release_def shield_def Let_def
  by (auto intro!: quiet_intros claimed_snoc split: option.split)

lemma keeps_claimed_rollback: "keeps (message_claimed landed c) (tx_rollback w b)"
  unfolding tx_rollback_def invalidate_def shield_def
  by (auto intro!: quiet_intros claimed_snoc split: option.split)

lemma claimed_exit:
  "message_claimed landed c (snd (tx_exit w m st (Some e) tr)) = message_claimed landed c tr"
  "c \<noteq> DTransCommit \<Longrightarrow> message_claimed landed c (snd (tx_exit w m st None tr)) =
     (message_claimed landed c tr \<or> fst (inbox landed c tr) \<and> landed tr)"
proof -
  have "keeps (message_claimed landed c) (try_finally (tx_rollback w b) (tx_epilogue w m st oc))" for b oc
    by (intro keeps_try_finally keeps_claimed_rollback keeps_claimed_epilogue)
  then show "message_claimed landed c (snd (tx_exit w m st (Some e) tr)) = message_claimed landed c tr"
    by (simp add: tx_exit_def keeps_def)
next
  assume c: "c \<noteq> DTransCommit"
  let ?h = "\<lambda>exc. if is_connection_error exc then io_raise (DbErr (commit_unknown_error m exc))
      else io_then (suppress (perform w DTransRollback)) (io_raise (DbErr (classify exc (tx_context m))))"
  have h: "keeps (message_claimed landed c) (?h e :: unit io)" for e
    by (auto intro!: quiet_intros claimed_snoc)
  have commit: "message_claimed landed c (snd (tx_commit w m tr)) = message_claimed landed c (tr @ [DTransCommit])"
    using keepsD [OF h, of _ "tr @ [DTransCommit]"]
    by (cases "env_answer w tr DTransCommit") (simp_all add: tx_commit_def try_except_def io_then_def [of "perform _ _"] io_bind_def perform_def io_return_def)
  have fin: "keeps (message_claimed landed c) (try_finally (io_of r) (tx_epilogue w m st oc))" for r :: "unit py" and oc
    by (intro keeps_try_finally keeps_of keeps_claimed_epilogue)
  have "message_claimed landed c (snd (tx_exit w m st None tr)) = message_claimed landed c (snd (tx_commit w m tr))"
    by (cases "tx_commit w m tr") (simp add: tx_exit_def keepsD [OF fin])
  with commit c show "message_claimed landed c (snd (tx_exit w m st None tr)) =
     (message_claimed landed c tr \<or> fst (inbox landed c tr) \<and> landed tr)"
    by (simp add: inbox_snoc split: prod.split)
qed

text \<open>What the application's callbacks leave alone: the claim of the message and the transaction's calls.\<close>

definition callbacks_keep :: "(effect list \<Rightarrow> 'o) \<Rightarrow> callbacks \<Rightarrow> bool" where
  "callbacks_keep obs cbs \<longleftrightarrow> (\<forall>tx. keeps obs (cb_work cbs tx)) \<and> keeps obs (cb_ack cbs)
     \<and> (\<forall>f e. cb_dead_letter cbs = Some f \<longrightarrow> keeps obs (f e)) \<and> (\<forall>f e. cb_retry cbs = Some f \<longrightarrow> keeps obs (f e))"

lemma delivery_step:
  assumes srv: "inbox_server landed (claim_call consumer message_id table) w"
    and cbs: "callbacks_keep (inbox landed (claim_call consumer message_id table)) cbs"
  defines "c \<equiv> claim_call consumer message_id table"
  shows "message_claimed landed c (snd (ack_after_commit w m consumer message_id cbs table tr)) =
      (message_claimed landed c tr \<or> processed landed w m consumer message_id cbs table tr)"
    and "processed landed w m consumer message_id cbs table tr \<Longrightarrow> \<not> message_claimed landed c tr"
    and "fst (ack_after_commit w m consumer message_id cbs table tr) = Inr True \<Longrightarrow>
      message_claimed landed c (snd (ack_after_commit w m consumer message_id cbs table tr))"
proof -
  have c: "c \<noteq> DTransCommit" "c \<noteq> DBegin" by (simp_all add: c_def claim_call_def)
  let ?mc = "message_claimed landed c"
  let ?body = "\<lambda>tx. io_bind (claim w tx consumer message_id table) (work_if_first cbs tx)"
  let ?done = "processed landed w m consumer message_id cbs table tr"
  have keep: "keeps ?mc p" if "keeps (inbox landed c) p" for p :: "'z io" using that by (simp add: keeps_def)
  have work: "inbox landed c (snd (work_if_first cbs tx b t)) = inbox landed c t" for tx b t
    using cbs by (simp add: work_if_first_def callbacks_keep_def c_def keeps_def io_return_def)
  have first: "?mc t1 = ?mc tr" if "tx_enter w m tr = (Inr st, t1)" for st t1
    using keepsD [OF keeps_claimed_enter, of landed c w m tr] that by simp
  show never_twice: "\<not> ?mc tr" if "?done"
  proof -
    from that obtain st t1 t2 where t: "tx_enter w m tr = (Inr st, t1)"
      "claim w (tx_scope m) consumer message_id table t1 = (Inr True, t2)" unfolding processed_def by blast
    from claim_answer [OF t(2) srv] first [OF t(1)] show ?thesis by (simp add: c_def)
  qed
  obtain r t4 where p: "process_once w m consumer message_id table (work_if_first cbs) tr = (r, t4)"
    by (cases "process_once w m consumer message_id table (work_if_first cbs) tr")
  have main: "?mc t4 = (?mc tr \<or> ?done) \<and> ((\<exists>u. r = Inr u) \<longrightarrow> ?mc t4)"
  proof (cases "tx_enter w m tr")
    case (Pair e t1)
    show ?thesis
    proof (cases e)
      case (Inl x)
      have "?mc t1 = ?mc tr" using keepsD [OF keeps_claimed_enter, of landed c w m tr] Pair by simp
      moreover have "\<not> ?done" using Pair Inl by (simp add: processed_def)
      ultimately show ?thesis using p Pair Inl by (auto simp: process_once_def with_transaction_def)
    next
      case (Inr st)
      with Pair have enter: "tx_enter w m tr = (Inr st, t1)" by simp
      note mc1 = first [OF this]
      obtain y t2 where cl: "claim w (tx_scope m) consumer message_id table t1 = (y, t2)"
        by (cases "claim w (tx_scope m) consumer message_id table t1")
      then have mc2: "?mc t2 = ?mc t1" using keepsD [OF keeps_claimed_claim, of landed c w "tx_scope m" consumer message_id table t1] by simp
      show ?thesis
      proof (cases y)
        case (Inl x)
        then have b: "?body (tx_scope m) t1 = (Inl x, t2)" using cl by (simp add: io_bind_def)
        have "\<not> ?done" using enter cl Inl by (simp add: processed_def)
        moreover have "t4 = snd (tx_exit w m st (Some x) t2)" "\<And>u. r \<noteq> Inr u"
          using p with_transaction_cases(3,4) [where body = ?body and ?t1.0 = t1, OF enter, OF b]
          by (auto simp: process_once_def split: sum.splits)
        ultimately show ?thesis using claimed_exit(1) [of landed c w m st x t2] mc1 mc2 by auto
      next
        case (Inr first_time)
        then have ca: "inbox landed c t2 = (True, ?mc t1)" "first_time = (\<not> ?mc t1)"
          using claim_answer [OF _ srv, of "tx_scope m" t1 first_time t2] cl by (simp_all add: c_def)
        obtain z t3 where wk: "work_if_first cbs (tx_scope m) first_time t2 = (z, t3)"
          by (cases "work_if_first cbs (tx_scope m) first_time t2")
        then have i3: "inbox landed c t3 = (True, ?mc tr)" using work [of "tx_scope m" first_time t2] ca mc1 by simp
        show ?thesis
        proof (cases z)
          case (Inl x)
          then have b: "?body (tx_scope m) t1 = (Inl x, t3)" using cl Inr wk by (simp add: io_bind_def)
          have "\<not> ?done" using enter cl Inr Inl wk by (auto simp: processed_def work_if_first_def)
          moreover have "t4 = snd (tx_exit w m st (Some x) t3)" "\<And>u. r \<noteq> Inr u"
            using p with_transaction_cases(3,4) [where body = ?body and ?t1.0 = t1, OF enter, OF b]
            by (auto simp: process_once_def split: sum.splits)
          ultimately show ?thesis using claimed_exit(1) [of landed c w m st x t3] i3 by auto
        next
          case z: (Inr u)
          then have b: "?body (tx_scope m) t1 = (Inr (), t3)" using cl Inr wk by (simp add: io_bind_def)
          have "t4 = snd (tx_exit w m st None t3)"
            using p with_transaction_cases(1) [where body = ?body and ?t1.0 = t1, OF enter, OF b] by (simp add: process_once_def)
          then have mc4: "?mc t4 = (?mc tr \<or> landed t3)" using claimed_exit(2) [OF c(1)] i3 by simp
          have "landed t3" if "r = Inr v" for v
            using with_transaction_committed [of w m ?body tr v] p that enter b srv
            by (auto simp: process_once_def inbox_server_def)
          moreover have "?done = (\<not> ?mc tr \<and> landed t3)"
            using enter cl Inr ca mc1 wk z by (auto simp: processed_def work_if_first_def)
          ultimately show ?thesis using mc4 by blast
        qed
      qed
    qed
  qed
  have after: "?mc (snd (ack_after_commit w m consumer message_id cbs table tr)) = ?mc t4"
    using p cbs
    by (cases r) (auto simp: ack_after_commit_def on_raise_def delivery_error_def callbacks_keep_def c_def
        intro!: keepsD [OF keep [unfolded c_def]] keeps_then keeps_return keeps_raise split: raised.split bool.split option.split)
  show "?mc (snd (ack_after_commit w m consumer message_id cbs table tr)) = (?mc tr \<or> ?done)"
    using after main by simp
  show "?mc (snd (ack_after_commit w m consumer message_id cbs table tr))"
    if "fst (ack_after_commit w m consumer message_id cbs table tr) = Inr True"
  proof -
    have "\<exists>u. r = Inr u"
    proof (cases r)
      case (Inl e)
      have no: "fst (delivery_error cbs e t) \<noteq> Inr True" for t
        by (auto simp: delivery_error_def io_raise_def io_then_def io_bind_def io_return_def
            split: raised.split bool.split option.split prod.split sum.split)
      from that p Inl no [of t4] show ?thesis by (simp add: ack_after_commit_def on_raise_def)
    qed simp
    with main after show ?thesis by blast
  qed
qed


text \<open>A server that answers as the inbox relies on: every COMMIT lands, unless it is the first, whose
  connection breaks after it has landed.\<close>

definition inbox_env :: env where
  "inbox_env =
     \<lparr>env_answer = (\<lambda>tr e.
        if e = DTransCommit \<and> DTransCommit \<notin> set tr then Inl net_down
        else if e = DCursor ''mappings.one_or_none'' \<and> message_claimed (\<lambda>_. True) (claim_call ''c'' ''1'' ''t'') (butlast tr) then Inr PNone
        else Inr (PInt 1)),
      env_clock = (\<lambda>tr. real (length tr)), env_async = True\<rparr>"


subsection \<open>The relay\<close>

lemma quiet_relay:
  assumes "\<And>r. quiet (publish r)"
  shows "quiet (relay w publish n table tx)"
  unfolding relay_def by (auto intro!: keeps_bind keeps_then keeps_each keeps_return keeps_of quiet_fetch_all quiet_execute assms)



end
