(* ===== verification/Collector.thy ===== *)
theory Collector
  imports Prelude
begin

text \<open>
  The micro-batching collector (\<^verbatim>\<open>integrations/batch.py\<close>). Its methods run under the lock,
  so each is an atomic step; what a step hands to the flush callback and whether the callback is
  interrupted are explicit. A timer is a task: cancelling the task that is running takes effect at its
  next suspension point, which for a timer flush is the flush callback itself.
\<close>

record 'a collector =
  cl_max_size :: int
  cl_buffer :: "'a list"
  cl_timer :: bool
  cl_closed :: bool

definition new_collector :: "int \<Rightarrow> (string + 'a collector)" where
  "new_collector max_size =
     (if max_size < 1 then Inl ''max_size must be >= 1''
      else Inr \<lparr>cl_max_size = max_size, cl_buffer = [], cl_timer = False, cl_closed = False\<rparr>)"

text \<open>The batch handed to the callback, if any, and whether the armed timer task was cancelled.\<close>

definition flush_locked :: "'a collector \<Rightarrow> ('a list option \<times> bool) \<times> 'a collector" where
  "flush_locked c =
     (if cl_buffer c = [] then ((None, cl_timer c), c\<lparr>cl_timer := False\<rparr>)
      else ((Some (cl_buffer c), cl_timer c), c\<lparr>cl_timer := False, cl_buffer := []\<rparr>))"

datatype 'a collector_event = CvAdd 'a | CvFlush | CvClose | CvTimer

text \<open>The outcome of a step: the batch the callback received and completed, and the batch it received but
  was cancelled in (a cancelled callback is taken to have written nothing).\<close>

record 'a collector_out =
  co_error :: "string option"
  co_written :: "'a list"
  co_cancelled :: "'a list"

definition out :: "'a list \<Rightarrow> 'a list \<Rightarrow> 'a collector_out" where
  "out written cancelled = \<lparr>co_error = None, co_written = written, co_cancelled = cancelled\<rparr>"

definition written_batch :: "('a list option \<times> bool) \<times> 'a collector \<Rightarrow> 'a collector_out \<times> 'a collector" where
  "written_batch r = (out (case fst (fst r) of None \<Rightarrow> [] | Some b \<Rightarrow> b) [], snd r)"

definition collector_add :: "'a \<Rightarrow> 'a collector \<Rightarrow> 'a collector_out \<times> 'a collector" where
  "collector_add item c =
     (if cl_closed c then (\<lparr>co_error = Some ''BatchCollector is closed'', co_written = [], co_cancelled = []\<rparr>, c)
      else
        (let c1 = c\<lparr>cl_buffer := cl_buffer c @ [item]\<rparr> in
         if int (length (cl_buffer c1)) \<ge> cl_max_size c1 then written_batch (flush_locked c1)
         else (out [] [], if cl_timer c1 then c1 else c1\<lparr>cl_timer := True\<rparr>)))"

definition collector_flush :: "'a collector \<Rightarrow> 'a collector_out \<times> 'a collector" where
  "collector_flush c = written_batch (flush_locked c)"

definition collector_close :: "'a collector \<Rightarrow> 'a collector_out \<times> 'a collector" where
  "collector_close c = written_batch (flush_locked (c\<lparr>cl_closed := True\<rparr>))"

text \<open>The timer task flushes: \<^verbatim>\<open>_flush_locked\<close> cancels \<^verbatim>\<open>self._timer\<close>, which
  is the running task itself, so the cancellation is delivered inside the flush callback.\<close>

definition timer_flush :: "'a collector \<Rightarrow> 'a collector_out \<times> 'a collector" where
  "timer_flush c =
     (if \<not> cl_timer c then (out [] [], c)
      else
        (case flush_locked c of
           ((Some b, self_cancelled), c') \<Rightarrow> (if self_cancelled then out [] b else out b [], c')
         | ((None, _), c') \<Rightarrow> (out [] [], c')))"

fun collector_step :: "'a collector \<Rightarrow> 'a collector_event \<Rightarrow> 'a collector_out \<times> 'a collector" where
  "collector_step c (CvAdd x) = collector_add x c"
| "collector_step c CvFlush = collector_flush c"
| "collector_step c CvClose = collector_close c"
| "collector_step c CvTimer = timer_flush c"

subsection \<open>The invariant\<close>

text \<open>Between steps the buffer is below its limit, and items wait only while the timer is armed.\<close>

definition collector_ok :: "'a collector \<Rightarrow> bool" where
  "collector_ok c \<longleftrightarrow> 1 \<le> cl_max_size c \<and> int (length (cl_buffer c)) < cl_max_size c
     \<and> (cl_timer c \<longleftrightarrow> cl_buffer c \<noteq> []) \<and> (cl_closed c \<longrightarrow> cl_buffer c = [])"

lemmas collector_defs = collector_add_def collector_flush_def collector_close_def timer_flush_def
  written_batch_def flush_locked_def out_def Let_def

lemma collector_step_ok: "collector_ok c \<Longrightarrow> collector_ok (snd (collector_step c e))"
  by (cases e) (auto simp: collector_ok_def collector_defs split: if_splits)

interpretation collector: bounded_store collector_step collector_ok "\<lambda>c. length (cl_buffer c)" "\<lambda>c. nat (cl_max_size c) - 1"
proof (unfold_locales, goal_cases)
  case (1 c e)
  then show ?case by (rule collector_step_ok)
next
  case (2 c)
  then show ?case by (auto simp: collector_ok_def)
next
  case (3 c e)
  then show ?case by (cases e) (auto simp: collector_defs)
qed

text \<open>Every item accepted is in exactly one place.\<close>

fun accepted :: "'a collector \<Rightarrow> 'a collector_event \<Rightarrow> 'a list" where
  "accepted c (CvAdd x) = (if cl_closed c then [] else [x])"
| "accepted c _ = []"

lemma collector_step_items:
  "cl_buffer c @ accepted c e =
     co_written (fst (collector_step c e)) @ co_cancelled (fst (collector_step c e)) @ cl_buffer (snd (collector_step c e))"
  by (cases e) (auto simp: collector_defs)

fun accepted_run :: "'a collector \<Rightarrow> 'a collector_event list \<Rightarrow> 'a list" where
  "accepted_run c [] = []"
| "accepted_run c (e # es) = accepted c e @ accepted_run (snd (collector_step c e)) es"

lemma collector_run_items:
  "cl_buffer c @ accepted_run c es =
     concat (map (\<lambda>o1. co_written o1 @ co_cancelled o1) (fst (run_steps collector_step c es)))
       @ cl_buffer (snd (run_steps collector_step c es))"
proof (induction es arbitrary: c)
  case Nil
  then show ?case by simp
next
  case (Cons e es)
  then show ?case using collector_step_items [of c e] by simp (metis append.assoc)
qed

subsection \<open>Properties\<close>



text \<open>A timer flush loses its batch: whenever the timer fires with items waiting, every one of them goes to
  a flush callback that the collector itself cancels, and none stays in the buffer.\<close>

theorem timer_flush_loses_batch:
  assumes "collector_ok c" "cl_buffer c \<noteq> []"
  shows "co_cancelled (fst (collector_step c CvTimer)) = cl_buffer c
    \<and> co_written (fst (collector_step c CvTimer)) = [] \<and> cl_buffer (snd (collector_step c CvTimer)) = []"
  using assms by (simp add: collector_ok_def collector_defs)

lemma timer_flush_loses_batch_witness:
  "co_cancelled (fst (collector_step \<lparr>cl_max_size = 10, cl_buffer = [1, 2 :: nat], cl_timer = True, cl_closed = False\<rparr> CvTimer)) = [1, 2]"
  using timer_flush_loses_batch [of "\<lparr>cl_max_size = 10, cl_buffer = [1, 2 :: nat], cl_timer = True, cl_closed = False\<rparr>"]
  by (simp add: collector_ok_def)

end
