(* ===== verification/Facade.thy ===== *)
theory Facade
  imports Database
begin

text \<open>
  The one-shot operations of the facade (\<^verbatim>\<open>_async/database.py\<close>): each resolves its target,
  finds the engine, the breaker and the limiter, and runs the scope operation of its name through the
  resilient executor. The facade's collaborators are the record \<open>world\<close>; an operation maps the trace and
  the state of the resolver and the facade to its outcome, the longer trace and the next state.
\<close>

record ('r, 's) world =
  wd_env :: env
  wd_create :: creator
  wd_shards :: "'r shard_fn"
  wd_select :: "'s select_fn"
  wd_clock :: "nat \<Rightarrow> real"
  wd_random :: "int \<Rightarrow> real"
  wd_read_your_writes :: bool

type_synonym ('r, 's) fstate = "'r \<times> 's facade"
type_synonym ('r, 's, 'a) facade_op = "effect list \<Rightarrow> ('r, 's) fstate \<Rightarrow> 'a py \<times> effect list \<times> ('r, 's) fstate"

text \<open>\<^verbatim>\<open>ResilientExecutor.entry\<close>\<close>

definition lookup_entry :: "('r, 's) world \<Rightarrow> target \<Rightarrow> real \<Rightarrow> ('r, 's) fstate \<Rightarrow> engine_entry py \<times> ('r, 's) fstate" where
  "lookup_entry w t clk st =
     (case resolve (wd_shards w) (wd_select w) (wd_read_your_writes w) (fd_config (snd st)) t (fst st, fd_selector (snd st)) of
        (Inl e, (r, s)) \<Rightarrow> (Inl e, (r, (snd st)\<lparr>fd_selector := s\<rparr>))
      | (Inr rt, (r, s)) \<Rightarrow>
          (case registry_get_engine (wd_create w) clk rt (fd_registry (snd st)) of
             (x, _, reg) \<Rightarrow> (x, (r, (snd st)\<lparr>fd_selector := s, fd_registry := reg\<rparr>))))"

definition scope_info_of :: "env \<Rightarrow> dbkit_config \<Rightarrow> engine_entry \<Rightarrow> string \<Rightarrow> string \<Rightarrow> scope_info" where
  "scope_info_of w cfg entry query_name operation =
     \<lparr>si_is_postgres = is_postgres (ee_target entry), si_key = ee_key entry,
      si_labels = executor_labels w (ee_key entry) query_name operation, si_query_name = query_name,
      si_timeout = None, si_slow_query_ms = ob_slow_query_ms (d_observability (defaults cfg))\<rparr>"

definition prepare_call ::
  "('r, 's) world \<Rightarrow> target \<Rightarrow> query_obj \<Rightarrow> bool \<Rightarrow> real option \<Rightarrow> real option \<Rightarrow> real \<Rightarrow> ('r, 's) fstate
     \<Rightarrow> (call_info \<times> breaker option) py \<times> ('r, 's) fstate" where
  "prepare_call w t q commit timeout deadline clk st =
     (case lookup_entry w t clk st of
        (Inl e, st1) \<Rightarrow> (Inl e, st1)
      | (Inr entry, (r, f)) \<Rightarrow>
          (case query_meta q of (query_name, operation, qo) \<Rightarrow>
           case breaker_for (ee_key entry) (fd_executor f) of (b, ex1) \<Rightarrow>
           case limiter_for (ek_database (ee_key entry)) ex1 of
             (Inl e, ex2) \<Rightarrow> (Inl e, (r, f\<lparr>fd_executor := ex2\<rparr>))
           | (Inr slots, ex2) \<Rightarrow>
               (Inr (\<lparr>ci_scope = scope_info_of (wd_env w) (fd_config f) entry query_name operation, ci_query = qo,
                      ci_limiter = slots, ci_config = fd_config f, ci_commit = commit, ci_timeout = timeout,
                      ci_deadline = deadline\<rparr>, b),
                (r, f\<lparr>fd_executor := ex2\<rparr>))))"

text \<open>The breaker is an object of the executor: its state after the call is the executor's.\<close>

definition store_breaker :: "engine_key \<Rightarrow> breaker option \<Rightarrow> 's facade \<Rightarrow> 's facade" where
  "store_breaker k b f =
     (case b of
        None \<Rightarrow> f
      | Some br \<Rightarrow> f\<lparr>fd_executor := (fd_executor f)\<lparr>ex_breakers := dict_set (key_text k) br (ex_breakers (fd_executor f))\<rparr>\<rparr>)"

definition facade_call ::
  "('r, 's) world \<Rightarrow> target \<Rightarrow> query_obj \<Rightarrow> (conn_scope \<Rightarrow> 'a io) \<Rightarrow> bool \<Rightarrow> real option \<Rightarrow> real option
     \<Rightarrow> ('r, 's, 'a) facade_op" where
  "facade_call w t q op commit timeout deadline tr st =
     (case prepare_call w t q commit timeout deadline (env_clock (wd_env w) tr) st of
        (Inl e, st1) \<Rightarrow> (Inl e, tr, st1)
      | (Inr (ci, b), (r, f)) \<Rightarrow>
          (case execute_with_resilience (wd_env w) ci op (wd_clock w) (wd_random w) b tr of
             (x, tr', b') \<Rightarrow> (x, tr', (r, store_breaker (si_key (ci_scope ci)) b' f))))"

subsection \<open>The operations\<close>

definition db_fetch_all where
  "db_fetch_all w q params t mt timeout deadline =
     facade_call w t q (\<lambda>cs. fetch_all (wd_env w) cs q params mt) False timeout deadline"

definition db_fetch_one where
  "db_fetch_one w q params t mt timeout deadline =
     facade_call w t q (\<lambda>cs. fetch_one (wd_env w) cs q params mt) False timeout deadline"

definition db_fetch_optional where
  "db_fetch_optional w q params t mt timeout deadline =
     facade_call w t q (\<lambda>cs. fetch_optional (wd_env w) cs q params mt) False timeout deadline"

definition db_fetch_value where
  "db_fetch_value w q params t timeout deadline =
     facade_call w t q (\<lambda>cs. fetch_value (wd_env w) cs q params) False timeout deadline"

definition db_fetch_values where
  "db_fetch_values w q params t timeout deadline =
     facade_call w t q (\<lambda>cs. fetch_values (wd_env w) cs q params) False timeout deadline"

record execution_result =
  xr_row_count :: pyval
  xr_query_name :: string
  xr_database_name :: string
  xr_duration_ms :: real
  xr_inserted_primary_key :: "pyval option"
  xr_returned_rows :: "pyval list"
  xr_shard_id :: "string option"
  xr_role :: "string option"
  xr_retry_attempt :: int

definition new_execution_result :: "pyval \<Rightarrow> string \<Rightarrow> string \<Rightarrow> real \<Rightarrow> execution_result" where
  "new_execution_result row_count query_name database_name duration_ms =
     \<lparr>xr_row_count = row_count, xr_query_name = query_name, xr_database_name = database_name,
      xr_duration_ms = duration_ms, xr_inserted_primary_key = None, xr_returned_rows = [],
      xr_shard_id = None, xr_role = None, xr_retry_attempt = 0\<rparr>"

text \<open>The writes time themselves around the call.\<close>

definition timed_result ::
  "('r, 's) world \<Rightarrow> target \<Rightarrow> string \<Rightarrow> ('r, 's, pyval) facade_op \<Rightarrow> ('r, 's, execution_result) facade_op" where
  "timed_result w t query_name op tr st =
     (case op (tr @ [DClock]) st of
        (Inl e, tr1, st1) \<Rightarrow> (Inl e, tr1, st1)
      | (Inr n, tr1, st1) \<Rightarrow>
          (Inr (new_execution_result n query_name (tg_database t)
                 ((env_clock (wd_env w) tr1 - env_clock (wd_env w) tr) * 1000)),
           tr1 @ [DClock], st1))"

definition db_execute ::
  "('r, 's) world \<Rightarrow> query_obj \<Rightarrow> pyval option \<Rightarrow> target \<Rightarrow> real option \<Rightarrow> real option \<Rightarrow> ('r, 's, execution_result) facade_op" where
  "db_execute w q params t timeout deadline =
     timed_result w t (fst (query_meta q))
       (facade_call w t q (\<lambda>cs. execute (wd_env w) cs q params) True timeout deadline)"

text \<open>A scope outside the executor's retries, as \<^verbatim>\<open>execute_many\<close> and \<^verbatim>\<open>connection\<close> use it:
  no breaker, no limiter.\<close>

definition facade_scope ::
  "('r, 's) world \<Rightarrow> target \<Rightarrow> query_obj \<Rightarrow> (conn_scope \<Rightarrow> 'a io) \<Rightarrow> real option \<Rightarrow> real option \<Rightarrow> ('r, 's, 'a) facade_op" where
  "facade_scope w t q op timeout deadline tr st =
     (case lookup_entry w t (env_clock (wd_env w) tr) st of
        (Inl e, st1) \<Rightarrow> (Inl e, tr, st1)
      | (Inr entry, (r, f)) \<Rightarrow>
          (case query_meta q of (query_name, operation, qo) \<Rightarrow>
           case timed_scope (wd_env w)
                  \<lparr>ci_scope = scope_info_of (wd_env w) (fd_config f) entry query_name operation, ci_query = qo,
                   ci_limiter = [], ci_config = fd_config f, ci_commit = True, ci_timeout = timeout, ci_deadline = deadline\<rparr>
                  op tr of
             (x, tr') \<Rightarrow> (x, tr', (r, f))))"

definition many_body :: "env \<Rightarrow> string \<Rightarrow> string \<Rightarrow> statement_obj \<Rightarrow> pyval list \<Rightarrow> conn_scope \<Rightarrow> pyval io" where
  "many_body w query_name database statement params_seq cs =
     except_exception
       (io_then (run_execute w statement (Some (PList params_seq)) (cs_default_timeout cs) (cs_is_postgres cs))
         (perform w (DCursor ''rowcount'')))
       (\<lambda>exc. io_raise (DbErr (classify exc \<lparr>ctx_query_name = Some query_name, ctx_database_name = Some database,
          ctx_shard_id = None, ctx_role = None\<rparr>)))"

definition db_execute_many ::
  "('r, 's) world \<Rightarrow> query_obj \<Rightarrow> pyval list \<Rightarrow> target \<Rightarrow> real option \<Rightarrow> real option \<Rightarrow> ('r, 's, execution_result) facade_op" where
  "db_execute_many w q params_seq t timeout deadline tr st =
     (case coerce_statement q of
        Inl e \<Rightarrow> (Inl e, tr, st)
      | Inr statement \<Rightarrow>
          timed_result w t (fst (query_meta q))
            (facade_scope w t q (many_body (wd_env w) (fst (query_meta q)) (tg_database t) statement params_seq) timeout deadline)
            tr st)"

definition db_connection ::
  "('r, 's) world \<Rightarrow> target \<Rightarrow> real option \<Rightarrow> (conn_scope \<Rightarrow> 'a io) \<Rightarrow> ('r, 's, 'a) facade_op" where
  "db_connection w t timeout body = facade_scope w t (AStatement (BareStr ''adhoc'')) body timeout None"

record tx_options =
  to_isolation :: "string option"
  to_read_only :: bool
  to_deferrable :: bool
  to_timeout :: "real option"
  to_lock_timeout :: "real option"

definition manager_of :: "env \<Rightarrow> dbkit_config \<Rightarrow> engine_entry \<Rightarrow> tx_options \<Rightarrow> tx_manager" where
  "manager_of w cfg entry opts =
     new_tx_manager
       \<lparr>tm_is_postgres = is_postgres (ee_target entry),
        tm_default_timeout = Some (d_transaction_timeout_seconds (defaults cfg)),
        tm_database = ek_database (ee_key entry), tm_shard_id = ek_shard_id (ee_key entry), tm_role = ek_role (ee_key entry),
        tm_isolation = to_isolation opts, tm_read_only = to_read_only opts, tm_timeout = to_timeout opts,
        tm_lock_timeout = to_lock_timeout opts, tm_query_name = ''transaction'', tm_labels = [],
        tm_long_transaction_warning = d_long_transaction_warning_seconds (defaults cfg), tm_deferrable = to_deferrable opts\<rparr>
       (Some (executor_labels w (ee_key entry) ''transaction'' ''transaction''))"

definition db_transaction ::
  "('r, 's) world \<Rightarrow> target \<Rightarrow> tx_options \<Rightarrow> (conn_scope \<Rightarrow> 'a io) \<Rightarrow> ('r, 's, 'a) facade_op" where
  "db_transaction w t opts body tr st =
     (case lookup_entry w t (env_clock (wd_env w) tr) st of
        (Inl e, st1) \<Rightarrow> (Inl e, tr, st1)
      | (Inr entry, (r, f)) \<Rightarrow>
          (case with_transaction (wd_env w) (manager_of (wd_env w) (fd_config f) entry opts) body tr of
             (x, tr') \<Rightarrow> (x, tr', (r, f))))"

text \<open>\<^verbatim>\<open>consistency_scope\<close>: inside it reads go to the primary; afterwards the mode is what it
  was, however the block ends.\<close>

definition consistency_scope :: "('r, 's) world \<Rightarrow> (('r, 's) world \<Rightarrow> 'x) \<Rightarrow> 'x" where
  "consistency_scope w body = body (w\<lparr>wd_read_your_writes := True\<rparr>)"

text \<open>\<^verbatim>\<open>database_scope\<close>: register, run the body on the new target, and unregister again.\<close>

definition database_scope ::
  "('r, 's) world \<Rightarrow> (string \<Rightarrow> string list \<Rightarrow> 's \<Rightarrow> 's) \<Rightarrow> string \<Rightarrow> database_config \<Rightarrow> bool option
     \<Rightarrow> (target \<Rightarrow> ('r, 's, 'a) facade_op) \<Rightarrow> ('r, 's, 'a) facade_op" where
  "database_scope w set_replicas name db connect body tr st =
     (case register_database (wd_create w) set_replicas (env_clock (wd_env w) tr) name db connect (snd st) of
        (Inl e, _, f) \<Rightarrow> (Inl e, tr, (fst st, f))
      | (Inr _, _, f) \<Rightarrow>
          (case (case new_target name RoleWrite None of
                   Inl e \<Rightarrow> (Inl e, tr, (fst st, f))
                 | Inr t \<Rightarrow> body t tr (fst st, f)) of
             (x, tr', (r, f')) \<Rightarrow>
               (case unregister_database set_replicas name f' of (_, _, f'') \<Rightarrow> (x, tr', (r, f'')))))"

subsection \<open>Calls keep the facade's invariant\<close>

lemma breaker_for_config: "ex_config (snd (breaker_for k ex)) = ex_config ex"
  by (simp add: breaker_for_def Let_def split: option.split)

lemma lookup_entry_ok:
  assumes "facade_ok rr_replicas_of f" "wd_shards w = single_resolve" "wd_select w = rr_select"
    and "lookup_entry w t clk (u, f) = (x, (u', f'))"
  shows "facade_ok rr_replicas_of f'"
proof -
  obtain y r s where y: "resolve single_resolve rr_select (wd_read_your_writes w) (fd_config f) t (u, fd_selector f) = (y, (r, s))"
    by (cases "resolve single_resolve rr_select (wd_read_your_writes w) (fd_config f) t (u, fd_selector f)") auto
  have "rr_replicas_of s = rr_replicas_of (fd_selector f)"
    using rr_single.resolve_keeps [OF _ _ y] by simp
  then have ok: "facade_ok rr_replicas_of (f\<lparr>fd_selector := s\<rparr>)"
    using default_facade.select_ok [OF assms(1)] by simp
  show ?thesis
  proof (cases y)
    case (Inl e)
    with assms(2-4) y ok show ?thesis by (simp add: lookup_entry_def)
  next
    case (Inr rt)
    obtain z ds reg where g: "registry_get_engine (wd_create w) clk rt (fd_registry f) = (z, ds, reg)"
      by (cases "registry_get_engine (wd_create w) clk rt (fd_registry f)") auto
    then have "rg_config reg = rg_config (fd_registry (f\<lparr>fd_selector := s\<rparr>))"
      using registry_get_config [of "wd_create w" clk rt "fd_registry f"] by simp
    from default_facade.same_config_ok [OF ok this, of "fd_started f"]
    have "facade_ok rr_replicas_of (f\<lparr>fd_selector := s, fd_registry := reg\<rparr>)" by simp
    with assms(2-4) y Inr g show ?thesis by (simp add: lookup_entry_def)
  qed
qed

lemma executor_ok: "facade_ok replicas_of f \<Longrightarrow> facade_ok replicas_of (f\<lparr>fd_executor := ex\<rparr>)"
  by (simp add: facade_ok_def synced_def lru_ok_def bounded_lru_def)

lemma store_breaker_ok: "facade_ok replicas_of f \<Longrightarrow> facade_ok replicas_of (store_breaker k b f)"
  by (simp add: store_breaker_def executor_ok split: option.split)

lemma prepare_call_ok:
  assumes "facade_ok rr_replicas_of f" "wd_shards w = single_resolve" "wd_select w = rr_select"
    and "prepare_call w t q commit timeout deadline clk (u, f) = (x, (u', f'))"
  shows "facade_ok rr_replicas_of f' \<and> (\<forall>ci b. x = Inr (ci, b) \<longrightarrow> ci_commit ci = commit)"
proof -
  obtain y u1 f1 where y: "lookup_entry w t clk (u, f) = (y, (u1, f1))" by (cases "lookup_entry w t clk (u, f)") auto
  from lookup_entry_ok [OF assms(1-3) y] have ok: "facade_ok rr_replicas_of f1" .
  show ?thesis
  proof (cases y)
    case (Inl e)
    with y ok assms(4) show ?thesis by (auto simp add: prepare_call_def)
  next
    case (Inr entry)
    with y ok assms(4) show ?thesis
      by (auto simp: prepare_call_def executor_ok split: prod.splits sum.splits)
  qed
qed

subsection \<open>Properties\<close>

text \<open>A facade read never commits and cleans up: whatever the driver answers, over all its retries a call
  with \<open>commit = False\<close> issues no COMMIT, and it leaves the facade's invariant intact.\<close>

theorem facade_read_never_commits:
  assumes "tag_safe (wd_env w)" "\<forall>cs. quiet (op cs)"
    and "facade_ok rr_replicas_of f" "wd_shards w = single_resolve" "wd_select w = rr_select"
    and "facade_call w t q op False timeout deadline tr (u, f) = (x, tr', (u', f'))"
  shows "facade_ok rr_replicas_of f' \<and> (\<exists>L. life tr' = life tr @ L \<and> DConnCommit \<notin> set L)"
proof -
  obtain y u1 f1 where y: "prepare_call w t q False timeout deadline (env_clock (wd_env w) tr) (u, f) = (y, (u1, f1))"
    by (cases "prepare_call w t q False timeout deadline (env_clock (wd_env w) tr) (u, f)") auto
  note ok = prepare_call_ok [OF assms(3-5) y]
  show ?thesis
  proof (cases y)
    case (Inl e)
    with y ok assms(6) show ?thesis by (simp add: facade_call_def)
  next
    case (Inr p)
    obtain ci b where p: "p = (ci, b)" by (cases p)
    obtain z t1 b' where z: "execute_with_resilience (wd_env w) ci op (wd_clock w) (wd_random w) b tr = (z, t1, b')"
      by (cases "execute_with_resilience (wd_env w) ci op (wd_clock w) (wd_random w) b tr") auto
    have "at_most_scope (wd_env w) False (attempt (wd_env w) ci op)"
      using at_most_scope_attempt [of "wd_env w" op ci] assms(1,2) ok Inr p by simp
    then have "\<exists>L. life (trace_after (attempt (wd_env w) ci op) tr n) = life tr @ L \<and> DConnCommit \<notin> set L" for n
      by (rule trace_after_reads)
    moreover have "\<exists>n. t1 = trace_after (attempt (wd_env w) ci op) tr n"
      using z by (auto simp: execute_with_resilience_def case_prod_beta)
    ultimately have "\<exists>L. life t1 = life tr @ L \<and> DConnCommit \<notin> set L" by blast
    moreover have "facade_ok rr_replicas_of (store_breaker (si_key (ci_scope ci)) b' f1)"
      using ok by (intro store_breaker_ok) simp
    ultimately show ?thesis using assms(6) y Inr p z by (simp add: facade_call_def)
  qed
qed

lemma unknown_database_no_transaction:
  assumes "dict_get (databases (fd_config (snd st))) (tg_database t) = None"
  shows "fst (db_transaction w t opts body tr st) = raise_db DatabaseRoutingError (''unknown database '' @ quoted (tg_database t))
    \<and> fst (snd (db_transaction w t opts body tr st)) = tr"
  using assms by (simp add: db_transaction_def lookup_entry_def resolve_def raise_db_def)

text \<open>An unknown database fails before anything happens: the call raises the routing error and issues no
  call to the driver.\<close>

theorem unknown_database_fails_early:
  assumes "dict_get (databases (fd_config (snd st))) (tg_database t) = None"
  shows "fst (facade_call w t q op commit timeout deadline tr st) = raise_db DatabaseRoutingError (''unknown database '' @ quoted (tg_database t))
    \<and> fst (snd (facade_call w t q op commit timeout deadline tr st)) = tr"
  using assms
  by (simp add: facade_call_def prepare_call_def lookup_entry_def resolve_def raise_db_def)

text \<open>\<^verbatim>\<open>database_scope\<close> leaves no trace of the database: when the block has been entered,
  the name is unknown afterwards whatever the body did with the facade, and the outcome is the body's.\<close>

theorem database_scope_unregisters:
  assumes "register_database (wd_create w) set_replicas (env_clock (wd_env w) tr) n db connect (snd st) = (Inr b, ds, f)"
    and "n \<noteq> []"
    and "body \<lparr>tg_database = n, tg_role = RoleWrite, tg_shard_key = None\<rparr> tr (fst st, f) = (y, t1, (r1, f1))"
  shows "case database_scope w set_replicas n db connect body tr st of (x, tr', (_, f')) \<Rightarrow>
      x = y \<and> tr' = t1
      \<and> (\<forall>k. dict_get (databases (fd_config f')) k = (if k = n then None else dict_get (databases (fd_config f1)) k))"
proof -
  obtain z ds' f2 where u: "unregister_database set_replicas n f1 = (z, ds', f2)"
    by (cases "unregister_database set_replicas n f1") auto
  have "new_target n RoleWrite None = Inr \<lparr>tg_database = n, tg_role = RoleWrite, tg_shard_key = None\<rparr>"
    using assms(2) by (simp add: new_target_def)
  then show ?thesis
    using assms u unregister_databases [OF u] by (simp add: database_scope_def)
qed

lemma sample_world_ok: "tag_safe (sample_env True [])"
  by (simp add: tag_safe_def)

definition sample_world :: "(unit, round_robin) world" where
  "sample_world = \<lparr>wd_env = sample_env True [], wd_create = (\<lambda>_ _. Inr 1), wd_shards = single_resolve, wd_select = rr_select,
     wd_clock = real, wd_random = (\<lambda>_. 1), wd_read_your_writes = False\<rparr>"

lemma facade_read_never_commits_witness:
  "facade_ok rr_replicas_of (snd (snd (snd (facade_call sample_world \<lparr>tg_database = ''app'', tg_role = RoleRead, tg_shard_key = None\<rparr>
      (AStatement (TextClause ''SELECT 1'')) (\<lambda>cs. fetch_all (wd_env sample_world) cs (AStatement (TextClause ''SELECT 1'')) None MapNone)
      False None None [] ((), sample_facade 1)))))"
proof -
  let ?call = "facade_call sample_world \<lparr>tg_database = ''app'', tg_role = RoleRead, tg_shard_key = None\<rparr>
      (AStatement (TextClause ''SELECT 1'')) (\<lambda>cs. fetch_all (wd_env sample_world) cs (AStatement (TextClause ''SELECT 1'')) None MapNone)
      False None None [] ((), sample_facade 1)"
  obtain x tr' u' f' where c: "?call = (x, tr', (u', f'))" by (cases ?call) auto
  from facade_read_never_commits [OF _ _ _ _ _ c] c show ?thesis
    by (simp add: sample_world_def tag_safe_def quiet_fetch_all sample_facade_ok)
qed

lemma unknown_database_fails_early_witness:
  "fst (facade_call sample_world \<lparr>tg_database = ''nope'', tg_role = RoleRead, tg_shard_key = None\<rparr>
      (AStatement (TextClause ''SELECT 1'')) (\<lambda>_. io_return (1 :: nat)) False None None [] ((), sample_facade 1))
   = raise_db DatabaseRoutingError (''unknown database '' @ quoted ''nope'')"
proof -
  have d: "dict_get (databases (fd_config (snd ((), sample_facade 1))))
      (tg_database \<lparr>tg_database = ''nope'', tg_role = RoleRead, tg_shard_key = None\<rparr>) = None"
    by (simp add: sample_facade_simps sample_config_def)
  show ?thesis using unknown_database_fails_early [OF d, THEN conjunct1] by simp
qed

lemma database_scope_unregisters_witness:
  "\<exists>f'. snd (snd (snd (database_scope sample_world rr_set_replicas ''t'' sample_database (Some False)
      (\<lambda>t tr st. (Inr (1 :: nat), tr, st)) [] ((), sample_facade 1)))) = f' \<and> dict_get (databases (fd_config f')) ''t'' = None"
proof -
  obtain ds f where r: "register_database (\<lambda>_ _. Inr 1) rr_set_replicas (env_clock (wd_env sample_world) []) ''t'' sample_database (Some False) (sample_facade 1) = (Inr False, ds, f)"
    using sample_registers [where m = 1 and create = "\<lambda>_ _. Inr 1" and t = "env_clock (wd_env sample_world) []"] by fastforce
  have "case database_scope sample_world rr_set_replicas ''t'' sample_database (Some False)
      (\<lambda>t tr st. (Inr (1 :: nat), tr, st)) [] ((), sample_facade 1) of (x, tr', (_, f')) \<Rightarrow>
      x = Inr 1 \<and> tr' = [] \<and> (\<forall>k. dict_get (databases (fd_config f')) k = (if k = ''t'' then None else dict_get (databases (fd_config f)) k))"
    by (rule database_scope_unregisters [where b = False and ds = ds]) (use r in \<open>simp_all add: sample_world_def\<close>)
  then show ?thesis by (auto split: prod.splits)
qed

end
