(* ===== verification/Frontends.thy ===== *)
theory Frontends
  imports Executor
begin

text \<open>
  The two frontends. \<^verbatim>\<open>_sync\<close> is generated from \<^verbatim>\<open>_async\<close>; they differ in their
  \<^verbatim>\<open>_compat.py\<close>: the asynchronous one bounds a statement by a timeout scope and shields its cleanup
  from cancellation, the synchronous one sets the server's \<^verbatim>\<open>statement_timeout\<close>. Here the two are
  shown to do the same as long as no deadline expires and nothing is cancelled: they agree on the outcome
  and on the trace apart from the events only one of them has.
\<close>

subsection \<open>Agreement\<close>

definition SET_TIMEOUT :: string where
  "SET_TIMEOUT = ''SET LOCAL statement_timeout = ''"

fun frontend_only :: "effect \<Rightarrow> bool" where
  "frontend_only DShield = True"
| "frontend_only (DEnterTimeout t) = True"
| "frontend_only DExitTimeout = True"
| "frontend_only (DExecute (TextClause s) ps) = (take (length SET_TIMEOUT) s = SET_TIMEOUT)"
| "frontend_only _ = False"

definition common :: "effect list \<Rightarrow> effect list" where
  "common tr = filter (\<lambda>e. \<not> frontend_only e) tr"

lemma common_append [simp]: "common (xs @ ys) = common xs @ common ys"
  by (simp add: common_def)

lemma common_one [simp]: "common [e] = (if frontend_only e then [] else [e])"
  by (simp add: common_def)

definition cancelled :: "raised \<Rightarrow> bool" where
  "cancelled e \<longleftrightarrow> raised_isa e CCancelledError"

lemma not_cancelled_db [simp]: "\<not> cancelled (DbErr e)"
  by (simp add: cancelled_def raised_isa_def)

text \<open>The same world seen by the two frontends: its answers and its clock do not depend on what only one of
  them does, the settings and scopes only one of them has succeed, and it never cancels.\<close>

definition same_world :: "env \<Rightarrow> env \<Rightarrow> bool" where
  "same_world wa ws \<longleftrightarrow> env_async wa \<and> \<not> env_async ws
     \<and> (\<forall>tr tr'. common tr = common tr' \<longrightarrow>
          env_clock wa tr = env_clock ws tr' \<and> (\<forall>e. env_answer wa tr e = env_answer ws tr' e))
     \<and> (\<forall>tr e. frontend_only e \<longrightarrow> (\<exists>v. env_answer wa tr e = Inr v))
     \<and> (\<forall>tr e x. env_answer wa tr e = Inl x \<longrightarrow> \<not> cancelled x)"

definition agree :: "'a io \<Rightarrow> 'a io \<Rightarrow> bool" where
  "agree m n \<longleftrightarrow> (\<forall>tr tr'. common tr = common tr' \<longrightarrow>
     fst (m tr) = fst (n tr') \<and> common (snd (m tr)) = common (snd (n tr'))
     \<and> (\<forall>e. fst (m tr) = Inl e \<longrightarrow> \<not> cancelled e))"

named_theorems agree_intros \<open>programs on which the frontends agree\<close>

lemma agreeI:
  assumes "\<And>tr tr'. common tr = common tr' \<Longrightarrow> \<exists>r t t'. m tr = (r, t) \<and> n tr' = (r, t') \<and> common t = common t'
    \<and> (\<forall>e. r = Inl e \<longrightarrow> \<not> cancelled e)"
  shows "agree m n"
  unfolding agree_def using assms by (metis fst_conv snd_conv)

lemma agreeD:
  assumes "agree m n" "common tr = common tr'"
  shows "\<exists>r t t'. m tr = (r, t) \<and> n tr' = (r, t') \<and> common t = common t' \<and> (\<forall>e. r = Inl e \<longrightarrow> \<not> cancelled e)"
  using assms unfolding agree_def by (metis prod.collapse)

lemma agree_return [agree_intros]: "agree (io_return x) (io_return x)"
  by (simp add: agree_def io_return_def)

lemma agree_raise [agree_intros]: "\<not> cancelled e \<Longrightarrow> agree (io_raise e) (io_raise e)"
  by (simp add: agree_def io_raise_def)

lemma agree_of: "(\<And>e. r = Inl e \<Longrightarrow> \<not> cancelled e) \<Longrightarrow> agree (io_of r) (io_of r)"
  by (simp add: agree_def io_of_def)

lemma agree_emit [agree_intros]: "agree (emit e) (emit e)"
  by (simp add: agree_def emit_def)

lemma agree_bind [agree_intros]:
  assumes "agree m n" "\<And>x. agree (f x) (g x)"
  shows "agree (io_bind m f) (io_bind n g)"
proof (rule agreeI)
  fix tr tr' assume "common tr = common tr'"
  from agreeD [OF assms(1) this] obtain r t t' where
    r: "m tr = (r, t)" "n tr' = (r, t')" "common t = common t'" "\<forall>e. r = Inl e \<longrightarrow> \<not> cancelled e" by blast
  show "\<exists>r t t'. io_bind m f tr = (r, t) \<and> io_bind n g tr' = (r, t') \<and> common t = common t' \<and> (\<forall>e. r = Inl e \<longrightarrow> \<not> cancelled e)"
  proof (cases r)
    case (Inl e)
    with r show ?thesis by (simp add: io_bind_def)
  next
    case (Inr x)
    with r agreeD [OF assms(2) r(3), of x] show ?thesis by (simp add: io_bind_def)
  qed
qed

lemma agree_then [agree_intros]: "agree m n \<Longrightarrow> agree k l \<Longrightarrow> agree (io_then m k) (io_then n l)"
  by (simp add: io_then_def agree_bind)

lemma agree_on_raise [agree_intros]:
  assumes "agree m n" "\<And>x. agree (k x) (l x)" "\<And>e. \<not> cancelled e \<Longrightarrow> agree (h e) (i e)"
  shows "agree (on_raise m k h) (on_raise n l i)"
proof (rule agreeI)
  fix tr tr' assume "common tr = common tr'"
  from agreeD [OF assms(1) this] obtain r t t' where
    r: "m tr = (r, t)" "n tr' = (r, t')" "common t = common t'" "\<forall>e. r = Inl e \<longrightarrow> \<not> cancelled e" by blast
  show "\<exists>r t t'. on_raise m k h tr = (r, t) \<and> on_raise n l i tr' = (r, t') \<and> common t = common t' \<and> (\<forall>e. r = Inl e \<longrightarrow> \<not> cancelled e)"
  proof (cases r)
    case (Inl e)
    with r agreeD [OF assms(3) r(3), of e] show ?thesis by (simp add: on_raise_def)
  next
    case (Inr x)
    with r agreeD [OF assms(2) r(3), of x] show ?thesis by (simp add: on_raise_def)
  qed
qed

lemma try_as_on_raise: "try_except m h = on_raise m io_return h"
  by (auto simp: try_except_def on_raise_def io_return_def fun_eq_iff split: prod.split sum.split)

lemma agree_try_except [agree_intros]:
  "agree m n \<Longrightarrow> (\<And>e. \<not> cancelled e \<Longrightarrow> agree (h e) (i e)) \<Longrightarrow> agree (try_except m h) (try_except n i)"
  by (simp add: try_as_on_raise agree_on_raise agree_return)

lemma agree_except_exception [agree_intros]:
  "agree m n \<Longrightarrow> (\<And>e. \<not> cancelled e \<Longrightarrow> agree (h e) (i e)) \<Longrightarrow> agree (except_exception m h) (except_exception n i)"
  unfolding except_exception_def by (auto intro!: agree_try_except agree_raise)

lemma agree_suppress [agree_intros]: "agree m n \<Longrightarrow> agree (suppress m) (suppress n)"
  unfolding suppress_def by (intro agree_intros)

lemma agree_try_finally [agree_intros]:
  assumes "agree m n" "agree f g"
  shows "agree (try_finally m f) (try_finally n g)"
proof (rule agreeI)
  fix tr tr' assume "common tr = common tr'"
  from agreeD [OF assms(1) this] obtain r t t' where
    r: "m tr = (r, t)" "n tr' = (r, t')" "common t = common t'" "\<forall>e. r = Inl e \<longrightarrow> \<not> cancelled e" by blast
  from agreeD [OF assms(2) r(3)] obtain q u u' where
    "f t = (q, u)" "g t' = (q, u')" "common u = common u'" "\<forall>e. q = Inl e \<longrightarrow> \<not> cancelled e" by blast
  with r show "\<exists>r t t'. try_finally m f tr = (r, t) \<and> try_finally n g tr' = (r, t') \<and> common t = common t' \<and> (\<forall>e. r = Inl e \<longrightarrow> \<not> cancelled e)"
    by (cases q) (simp_all add: try_finally_def)
qed

lemma agree_each [agree_intros]: "(\<And>x. agree (f x) (g x)) \<Longrightarrow> agree (io_each f xs) (io_each g xs)"
  by (induction xs) (auto intro: agree_intros)

text \<open>A step only one of them takes.\<close>

lemma agree_skip:
  assumes "agree k l" "\<And>tr. \<exists>x t. m tr = (Inr x, t) \<and> common t = common tr"
  shows "agree (io_then m k) l" "agree k (io_then m l)"
proof -
  show "agree (io_then m k) l"
  proof (rule agreeI)
    fix tr tr' assume c: "common tr = common tr'"
    obtain x t where t: "m tr = (Inr x, t)" "common t = common tr" using assms(2) by blast
    with agreeD [OF assms(1), of t tr'] c
    show "\<exists>r t t'. io_then m k tr = (r, t) \<and> l tr' = (r, t') \<and> common t = common t' \<and> (\<forall>e. r = Inl e \<longrightarrow> \<not> cancelled e)"
      by (simp add: io_then_def io_bind_def)
  qed
  show "agree k (io_then m l)"
  proof (rule agreeI)
    fix tr tr' assume c: "common tr = common tr'"
    obtain x t where t: "m tr' = (Inr x, t)" "common t = common tr'" using assms(2) by blast
    with agreeD [OF assms(1), of tr t] c
    show "\<exists>r t t'. k tr = (r, t) \<and> io_then m l tr' = (r, t') \<and> common t = common t' \<and> (\<forall>e. r = Inl e \<longrightarrow> \<not> cancelled e)"
      by (simp add: io_then_def io_bind_def)
  qed
qed

subsection \<open>The environment's calls\<close>

lemma agree_perform [agree_intros]:
  assumes "same_world wa ws"
  shows "agree (perform wa e) (perform ws e)"
  using assms unfolding agree_def same_world_def perform_def by simp

lemma agree_now [agree_intros]:
  assumes "same_world wa ws"
  shows "agree (now wa) (now ws)"
  using assms unfolding agree_def same_world_def now_def by simp

lemma frontend_step:
  assumes "same_world wa ws" "frontend_only e"
  shows "\<exists>v t. perform wa e tr = (Inr v, t) \<and> common t = common tr"
    and "\<exists>v t. perform ws e tr = (Inr v, t) \<and> common t = common tr"
proof -
  obtain v where v: "env_answer wa tr e = Inr v" using assms unfolding same_world_def by blast
  moreover have "env_answer ws tr e = env_answer wa tr e" using assms unfolding same_world_def by metis
  ultimately show "\<exists>v t. perform wa e tr = (Inr v, t) \<and> common t = common tr"
    "\<exists>v t. perform ws e tr = (Inr v, t) \<and> common t = common tr"
    using assms(2) by (simp_all add: perform_def)
qed

lemma not_cancellation [simp]: "\<not> cancelled e \<Longrightarrow> \<not> is_cancellation w e"
  by (simp add: is_cancellation_def cancelled_def)

lemma agree_async_timeout:
  assumes "agree m n" "env_async wa"
  shows "agree (timeout_scope wa s m) n"
proof (cases "\<exists>t. s = Some t \<and> t > 0")
  case False
  with assms show ?thesis by (auto simp: timeout_scope_def split: option.split)
next
  case True
  then obtain t where t: "s = Some t" "0 < t" by blast
  let ?attempted = "try_except m (\<lambda>e. if raised_isa e CCancelledError then
       io_bind (perform wa DExitTimeout) (\<lambda>expired. if expired = PBool True
         then io_raise (Foreign (plain_exn [CException, CTimeoutError, COSError] '''')) else io_raise e)
     else io_raise e)"
  have "agree ?attempted (try_except n io_raise)"
    using assms(1) by (rule agree_try_except) (simp add: cancelled_def agree_raise)
  moreover have "try_except n io_raise = n"
    by (auto simp: try_except_def io_raise_def fun_eq_iff split: prod.split sum.split)
  ultimately have "agree (io_then (emit (DEnterTimeout t)) ?attempted) n"
    by (intro agree_skip(1)) (auto simp: emit_def)
  with t assms(2) show ?thesis by (simp add: timeout_scope_def)
qed

lemma agree_timeout_scope [agree_intros]:
  assumes "same_world wa ws" "agree m n"
  shows "agree (timeout_scope wa s m) (timeout_scope ws s n)"
proof -
  have "timeout_scope ws s n = n"
    using assms(1) by (simp add: timeout_scope_def same_world_def split: option.split)
  with agree_async_timeout [OF assms(2)] assms(1) show ?thesis by (simp add: same_world_def)
qed

lemma agree_shield [agree_intros]:
  assumes "same_world wa ws" "agree m n"
  shows "agree (shield wa m) (shield ws n)"
proof -
  have "agree (io_then (perform wa DShield) (io_return ())) (io_return ())"
    by (rule agree_skip(1)) (auto intro: agree_return frontend_step(1) [OF assms(1)])
  then have "agree (try_finally m (io_then (perform wa DShield) (io_return ()))) (try_finally n (io_return ()))"
    by (rule agree_try_finally [OF assms(2)])
  moreover have "try_finally n (io_return ()) = n"
    by (auto simp: try_finally_def io_return_def fun_eq_iff split: prod.split sum.split)
  ultimately show ?thesis using assms(1) by (simp add: shield_def same_world_def)
qed

lemma timeout_sql_hidden: "apply_statement_timeout_sql s = Some stmt \<Longrightarrow> frontend_only (DExecute (TextClause stmt) ps)"
  by (auto simp: apply_statement_timeout_sql_def SET_TIMEOUT_def split: option.splits if_splits)

lemma agree_maybe_set_timeout:
  assumes "same_world wa ws"
  shows "agree (maybe_set_timeout wa s pg) (maybe_set_timeout ws s pg)"
proof -
  have "agree (io_return ()) (maybe_set_timeout ws s pg)"
    using assms by (auto simp: maybe_set_timeout_def same_world_def split: option.split
        intro!: agree_return agree_skip(2) intro: frontend_step(2) [OF assms] timeout_sql_hidden)
  then show ?thesis using assms by (simp add: maybe_set_timeout_def [of wa] same_world_def)
qed

lemma agree_run_statement:
  "same_world wa ws \<Longrightarrow> agree (run_statement wa st ps t pg) (run_statement ws st ps t pg)"
  unfolding run_statement_def by (intro agree_intros agree_maybe_set_timeout)

lemma agree_primitives [agree_intros]:
  assumes "same_world wa ws"
  shows "agree (run_cursor acc wa st ps t pg) (run_cursor acc ws st ps t pg)"
    and "agree (run_execute wa st ps t pg) (run_execute ws st ps t pg)"
  unfolding run_cursor_def run_execute_def
  by (intro agree_intros agree_run_statement assms)+

subsection \<open>The operations of a scope\<close>

lemma raise_db_calm: "raise_db c m = Inl e \<Longrightarrow> \<not> cancelled e"
  by (auto simp: raise_db_def)

lemma agree_local_settings [agree_intros]:
  "same_world wa ws \<Longrightarrow> agree (apply_local_settings wa s pg) (apply_local_settings ws s pg)"
  by (auto simp: apply_local_settings_def apply_setting_def split: option.split
      intro!: agree_intros agree_of dest: raise_db_calm)

lemma agree_classified [agree_intros]: "agree (classified cs name e) (classified cs name e)"
  by (simp add: classified_def agree_raise)

lemma agree_cardinality [agree_intros]:
  "agree (cardinality_handler cs a b name e) (cardinality_handler cs a b name e)"
  by (simp add: cardinality_handler_def result_error_def agree_raise agree_classified)

lemma agree_guarded [agree_intros]:
  assumes "same_world wa ws" "\<And>st ps t pg. agree (prim wa st ps t pg) (prim ws st ps t pg)" "\<And>n e. agree (h n e) (h n e)"
  shows "agree (guarded wa cs prim h q ps) (guarded ws cs prim h q ps)"
  unfolding guarded_def
  by (intro agree_intros assms agree_of) (auto dest: scope_resolve_normalized)

lemma agree_scope_operations:
  assumes "same_world wa ws"
  shows "agree (execute wa cs q ps) (execute ws cs q ps)"
    and "agree (fetch_value wa cs q ps) (fetch_value ws cs q ps)"
    and "agree (fetch_values wa cs q ps) (fetch_values ws cs q ps)"
  unfolding execute_def fetch_value_def fetch_values_def run_cursor_defs
  by (intro agree_intros assms)+

subsection \<open>Connections\<close>

lemma agree_acquire [agree_intros]: "same_world wa ws \<Longrightarrow> agree (acquire wa si) (acquire ws si)"
  unfolding acquire_def Let_def by (intro agree_intros) simp_all

lemma agree_error_metric [agree_intros]: "agree (error_metric si err) (error_metric si err)"
  by (simp add: error_metric_def agree_emit)

lemma agree_scope_commit [agree_intros]: "same_world wa ws \<Longrightarrow> agree (scope_commit wa si) (scope_commit ws si)"
  unfolding scope_commit_def by (auto intro!: agree_intros)

lemma agree_scope_epilogue [agree_intros]:
  "same_world wa ws \<Longrightarrow> agree (scope_epilogue wa si t) (scope_epilogue ws si t)"
  unfolding scope_epilogue_def Let_def by (auto intro!: agree_intros)

lemma agree_scope [agree_intros]:
  assumes "same_world wa ws" "\<And>cs. agree (opa cs) (ops cs)"
  shows "agree (scope wa si commit opa) (scope ws si commit ops)"
  unfolding scope_def by (auto intro!: agree_intros assms split: raised.split)

lemma agree_limiter [agree_intros]:
  assumes "same_world wa ws" "agree m n"
  shows "agree (limiter_acquire wa sems tier t m) (limiter_acquire ws sems tier t n)"
  unfolding limiter_acquire_def semaphore_acquire_def
  by (auto intro!: agree_intros agree_of assms dest: raise_db_calm split: option.split)

lemma agree_attempt:
  assumes "same_world wa ws" "\<And>cs. agree (opa cs) (ops cs)"
  shows "agree (attempt wa ci opa) (attempt ws ci ops)"
  unfolding attempt_def timed_scope_def Let_def by (auto intro!: agree_intros assms)

lemma agree_transaction:
  assumes "same_world wa ws" "\<And>cs. agree (ba cs) (bs cs)"
  shows "agree (with_transaction wa m ba) (with_transaction ws m bs)"
proof -
  have release: "agree (tx_release wa) (tx_release ws)"
    unfolding tx_release_def by (intro agree_intros assms(1))
  have settings: "agree (tx_apply_settings wa m) (tx_apply_settings ws m)"
    unfolding tx_apply_settings_def by (auto intro!: agree_intros assms(1) split: option.split)
  have failed: "agree (enter_failed wa m hc ht e :: real io) (enter_failed ws m hc ht e)" if "\<not> cancelled e" for hc ht e
    unfolding enter_failed_def cleanup_on_enter_failure_def using that
    by (auto intro!: agree_intros assms(1) release)
  have enter: "agree (tx_enter wa m) (tx_enter ws m)"
    unfolding tx_enter_def by (auto intro!: agree_intros assms(1) settings failed)
  have commit: "agree (tx_commit wa m) (tx_commit ws m)"
    unfolding tx_commit_def by (auto intro!: agree_intros assms(1))
  have epilogue: "agree (tx_epilogue wa m t oc) (tx_epilogue ws m t oc)" for t oc
    unfolding tx_epilogue_def Let_def by (auto intro!: agree_intros assms(1) release)
  have rollback: "agree (tx_rollback wa False) (tx_rollback ws False)"
    unfolding tx_rollback_def invalidate_def by (auto intro!: agree_intros assms(1))
  have exit_raise: "agree (tx_exit wa m t (Some e)) (tx_exit ws m t (Some e))" if "\<not> cancelled e" for t e
  proof -
    have "tx_exit w m t (Some e) = try_finally (tx_rollback w False) (tx_epilogue w m t TxRolledBack)" for w
      using that by (simp add: tx_exit_def fun_eq_iff)
    then show ?thesis by (simp add: agree_try_finally rollback epilogue)
  qed
  have exit_ok: "agree (tx_exit wa m t None) (tx_exit ws m t None)" for t
  proof -
    have "tx_exit w m t None = on_raise (tx_commit w m) (\<lambda>x. try_finally (io_of (Inr x)) (tx_epilogue w m t (commit_outcome (Inr x))))
        (\<lambda>e. try_finally (io_of (Inl e)) (tx_epilogue w m t (commit_outcome (Inl e))))" for w
      by (auto simp: tx_exit_def on_raise_def fun_eq_iff split: prod.split sum.split)
    then show ?thesis by (auto intro!: agree_on_raise commit agree_try_finally agree_of epilogue)
  qed
  have steps: "with_transaction w m b = io_bind (tx_enter w m) (\<lambda>started.
      on_raise (b (tx_scope m)) (\<lambda>x. io_then (tx_exit w m started None) (io_return x))
        (\<lambda>e. io_then (tx_exit w m started (Some e)) (io_raise e)))" for w and b :: "conn_scope \<Rightarrow> 'a io"
    by (auto simp: with_transaction_def io_bind_def on_raise_def fun_eq_iff split: prod.split sum.split)
  show ?thesis
    unfolding steps
    by (auto intro!: agree_bind enter agree_on_raise assms(2) agree_then exit_ok exit_raise agree_return agree_raise)
qed

lemma agree_trace_after:
  assumes "agree m n" "common tr = common tr'"
  shows "common (trace_after m tr k) = common (trace_after n tr' k)"
  using assms by (induction k) (simp_all add: agree_def)

subsection \<open>Properties\<close>

text \<open>C9. The synchronous and the asynchronous frontend run a call through the resilient executor alike: over
  the same world, which neither cancels nor lets a deadline expire, an operation on which they agree has the
  same outcome, the same attempts, the same breaker state afterwards, and the same trace of calls, metrics
  and log events, apart from the timeout scopes and shields of the one and the server timeouts of the other.\<close>

theorem frontends_agree_on_calls:
  assumes "same_world wa ws" "\<forall>cs. agree (opa cs) (ops cs)" "common tr = common tr'"
  shows "case (execute_with_resilience wa ci opa clock rnd b tr, execute_with_resilience ws ci ops clock rnd b tr') of
      ((x, ta, ba), (y, ts, bs)) \<Rightarrow> x = y \<and> ba = bs \<and> common ta = common ts"
proof -
  have a: "agree (attempt wa ci opa) (attempt ws ci ops)"
    using assms(1,2) by (intro agree_attempt) auto
  have t: "common (trace_after (attempt wa ci opa) tr k) = common (trace_after (attempt ws ci ops) tr' k)" for k
    by (rule agree_trace_after [OF a assms(3)])
  then have "fst (attempt wa ci opa (trace_after (attempt wa ci opa) tr k)) = fst (attempt ws ci ops (trace_after (attempt ws ci ops) tr' k))" for k
    using a unfolding agree_def by blast
  then have "resilient_call wa ci opa tr clock rnd = resilient_call ws ci ops tr' clock rnd"
    by (simp add: resilient_call_def)
  with t show ?thesis by (simp add: execute_with_resilience_def split: prod.split)
qed

text \<open>C20. The two frontends run a transaction alike: over the same world and with a body on which they agree,
  the outcome is the same, and so is the trace of calls, metrics and log events apart from what only one
  frontend has.\<close>

theorem frontends_agree_on_transactions:
  assumes "same_world wa ws" "\<forall>cs. agree (ba cs) (bs cs)" "common tr = common tr'"
  shows "case (with_transaction wa m ba tr, with_transaction ws m bs tr') of
      ((x, ta), (y, ts)) \<Rightarrow> x = y \<and> common ta = common ts"
  using agreeD [OF agree_transaction [OF assms(1), of ba bs m] assms(3)] assms(2) by auto

text \<open>A world that answers every call, with a clock that ticks with what both frontends do.\<close>

definition plain_world :: "bool \<Rightarrow> env" where
  "plain_world a = \<lparr>env_answer = (\<lambda>tr e. case e of DAcquire _ _ \<Rightarrow> Inr (PBool True) | _ \<Rightarrow> Inr (PInt 1)),
     env_clock = (\<lambda>tr. real (length (common tr))), env_async = a\<rparr>"

lemma plain_same_world: "same_world (plain_world True) (plain_world False)"
  by (auto simp: same_world_def plain_world_def split: effect.splits)

lemma frontends_agree_on_calls_witness:
  "fst (execute_with_resilience (plain_world True) (sample_info (Some sample_write))
       (\<lambda>cs. execute (plain_world True) cs (AQuery sample_write) None) real (\<lambda>_. 1) None [])
   = fst (execute_with_resilience (plain_world False) (sample_info (Some sample_write))
       (\<lambda>cs. execute (plain_world False) cs (AQuery sample_write) None) real (\<lambda>_. 1) None [])"
proof -
  have "\<forall>cs. agree (execute (plain_world True) cs (AQuery sample_write) None) (execute (plain_world False) cs (AQuery sample_write) None)"
    using agree_scope_operations(1) [OF plain_same_world] by blast
  from frontends_agree_on_calls [OF plain_same_world this, of "[]" "[]" "sample_info (Some sample_write)" real "\<lambda>_. 1" None]
  show ?thesis by (simp split: prod.splits)
qed

lemma frontends_agree_on_transactions_witness:
  "fst (with_transaction (plain_world True) sample_tx (\<lambda>cs. execute (plain_world True) cs (AQuery sample_write) None) [])
   = fst (with_transaction (plain_world False) sample_tx (\<lambda>cs. execute (plain_world False) cs (AQuery sample_write) None) [])"
proof -
  have "\<forall>cs. agree (execute (plain_world True) cs (AQuery sample_write) None) (execute (plain_world False) cs (AQuery sample_write) None)"
    using agree_scope_operations(1) [OF plain_same_world] by blast
  from frontends_agree_on_transactions [OF plain_same_world this, of "[]" "[]" sample_tx]
  show ?thesis by (simp split: prod.splits)
qed

end
