(* ===== verification/Slots.thy ===== *)
theory Slots
  imports Bulk
begin

text \<open>
  The concurrency limiter among concurrent callers (\<^verbatim>\<open>ConcurrencyLimiter\<close> of
  \<^verbatim>\<open>_async/resilience.py\<close>, as \<^verbatim>\<open>_async/executor.py\<close> and the bulk operations of
  \<^verbatim>\<open>_async/database.py\<close> use it): every call takes its tiers one after another, runs, and gives
  them back in reverse order. Semaphores and tasks are interleaved move by move; which waiting task a
  semaphore wakes is left open.
\<close>

subsection \<open>The tiers of a call\<close>

definition wanted_tiers :: "query option \<Rightarrow> string list" where
  "wanted_tiers q = [''database'', tier_of q] @ (if expensive q then [''expensive''] else [])"

definition bulk_tiers :: "string list" where
  "bulk_tiers = [''database'', ''bulk'']"

fun with_slots :: "env \<Rightarrow> (string, int) dict \<Rightarrow> real option \<Rightarrow> string list \<Rightarrow> 'a io \<Rightarrow> 'a io" where
  "with_slots w sems timeout [] body = body"
| "with_slots w sems timeout (tier # tiers) body =
     limiter_acquire w sems tier timeout (with_slots w sems timeout tiers body)"

text \<open>An attempt of the executor takes exactly these slots around its scope.\<close>

lemma attempt_slots:
  "attempt w ci op =
     io_bind (now w) (\<lambda>t. with_slots w (ci_limiter ci)
       (effective_timeout (ci_timeout ci) (ci_query ci) (default_timeout_of (ci_config ci)) (ci_deadline ci) t)
       (wanted_tiers (ci_query ci)) (timed_scope w ci op))"
  by (simp add: attempt_def wanted_tiers_def Let_def)

subsection \<open>Tasks and moves\<close>

text \<open>A task holds slots (the latest first); it is still acquiring, in the body, or leaving.\<close>

datatype slot_task = Acquiring "string list" "string list" | InBody "string list" | Leaving "string list"

fun held_by :: "slot_task \<Rightarrow> string list" where
  "held_by (Acquiring h ws) = h"
| "held_by (InBody h) = h"
| "held_by (Leaving h) = h"

record slots =
  sl_free :: "(string, int) dict"
  sl_tasks :: "slot_task list"

datatype move = Acquire | GiveUp | Finish | Release

text \<open>One move of one task: the semaphores and the task afterwards, if it is possible. A task that waits may
  give up (its timeout, or a cancellation), whatever the semaphore would do.\<close>

fun task_move :: "(string, int) dict \<Rightarrow> move \<Rightarrow> slot_task \<Rightarrow> ((string, int) dict \<times> slot_task) option" where
  "task_move free Acquire (Acquiring h []) = Some (free, InBody h)"
| "task_move free Acquire (Acquiring h (t # ws)) =
     (case dict_get free t of
        None \<Rightarrow> Some (free, Acquiring h ws)
      | Some n \<Rightarrow> if n > 0 then Some (dict_set t (n - 1) free, Acquiring (t # h) ws) else None)"
| "task_move free GiveUp (Acquiring h ws) = Some (free, Leaving h)"
| "task_move free Finish (InBody h) = Some (free, Leaving h)"
| "task_move free Release (Leaving (t # h)) =
     (case dict_get free t of
        None \<Rightarrow> None
      | Some n \<Rightarrow> Some (dict_set t (n + 1) free, Leaving h))"
| "task_move free _ _ = None"

definition slot_step :: "slots \<Rightarrow> nat \<times> move \<Rightarrow> bool \<times> slots" where
  "slot_step s e =
     (if fst e < length (sl_tasks s) then
        (case task_move (sl_free s) (snd e) (sl_tasks s ! fst e) of
           None \<Rightarrow> (False, s)
         | Some (free, task) \<Rightarrow> (True, \<lparr>sl_free = free, sl_tasks = (sl_tasks s)[fst e := task]\<rparr>))
      else (False, s))"

text \<open>The calls that share a limiter: one-shot operations and bulk writes.\<close>

datatype call_kind = OneShot "query option" | BulkWrite

definition tiers_of :: "call_kind \<Rightarrow> string list" where
  "tiers_of k = (case k of OneShot q \<Rightarrow> wanted_tiers q | BulkWrite \<Rightarrow> bulk_tiers)"

definition start_slots :: "(string, int) dict \<Rightarrow> call_kind list \<Rightarrow> slots" where
  "start_slots sems calls = \<lparr>sl_free = sems, sl_tasks = map (\<lambda>k. Acquiring [] (tiers_of k)) calls\<rparr>"

definition holders :: "string \<Rightarrow> slot_task list \<Rightarrow> nat" where
  "holders t ts = sum_list (map (\<lambda>x. count_list (held_by x) t) ts)"

subsection \<open>The invariant\<close>

text \<open>All calls take their tiers in one order.\<close>

definition tier_rank :: "string \<Rightarrow> nat" where
  "tier_rank t = (if t = ''database'' then 0 else if t = ''expensive'' then 2 else 1)"

fun pending_tiers :: "slot_task \<Rightarrow> string list" where
  "pending_tiers (Acquiring h ws) = ws"
| "pending_tiers _ = []"

definition task_ok :: "(string, int) dict \<Rightarrow> slot_task \<Rightarrow> bool" where
  "task_ok sems x \<longleftrightarrow> sorted_wrt (\<lambda>a b. tier_rank a < tier_rank b) (rev (held_by x) @ pending_tiers x)
     \<and> (\<forall>t\<in>set (held_by x). dict_get sems t \<noteq> None)"

definition slots_ok :: "(string, int) dict \<Rightarrow> slots \<Rightarrow> bool" where
  "slots_ok sems s \<longleftrightarrow> (\<forall>x\<in>set (sl_tasks s). task_ok sems x)
     \<and> (\<forall>t. case dict_get sems t of
           None \<Rightarrow> dict_get (sl_free s) t = None
         | Some n \<Rightarrow> (\<exists>k. dict_get (sl_free s) t = Some k \<and> 0 \<le> k \<and> k + int (holders t (sl_tasks s)) = n))"

lemma holders_update:
  assumes "i < length ts"
  shows "holders t (ts[i := x]) + count_list (held_by (ts ! i)) t = holders t ts + count_list (held_by x) t"
proof -
  have "count_list (held_by (ts ! i)) t \<le> holders t ts"
    unfolding holders_def using elem_le_sum_list [of i "map (\<lambda>x. count_list (held_by x) t) ts"] assms by simp
  then show ?thesis
    using assms sum_list_update [of i "map (\<lambda>x. count_list (held_by x) t) ts" "count_list (held_by x) t"]
    by (simp add: holders_def map_update)
qed

lemma holders_pos: "0 < holders t ts \<longleftrightarrow> (\<exists>x\<in>set ts. t \<in> set (held_by x))"
  unfolding holders_def neq0_conv [symmetric] by (auto simp: count_list_0_iff)

lemma task_move_ok:
  assumes "task_move free m x = Some (free', x')" "task_ok sems x"
    and dom: "\<And>t. dict_get free t = None \<longleftrightarrow> dict_get sems t = None"
    and nonneg: "\<And>t k. dict_get free t = Some k \<Longrightarrow> 0 \<le> k"
  shows "task_ok sems x'"
    and "(dict_get free' t = None \<longleftrightarrow> dict_get free t = None)
      \<and> (\<forall>k. dict_get free t = Some k \<longrightarrow> (\<exists>k'. dict_get free' t = Some k' \<and> 0 \<le> k'
           \<and> k' + int (count_list (held_by x') t) = k + int (count_list (held_by x) t)))"
proof -
  show "task_ok sems x'"
    using assms(1,2)
    by (cases "(free, m, x)" rule: task_move.cases)
      (auto simp: task_ok_def sorted_wrt_append dom [symmetric] simp del: not_None_eq split: option.splits if_splits)
  show "(dict_get free' t = None \<longleftrightarrow> dict_get free t = None)
      \<and> (\<forall>k. dict_get free t = Some k \<longrightarrow> (\<exists>k'. dict_get free' t = Some k' \<and> 0 \<le> k'
           \<and> k' + int (count_list (held_by x') t) = k + int (count_list (held_by x) t)))"
    using assms(1) nonneg [of t]
    by (cases "(free, m, x)" rule: task_move.cases) (auto simp: dict_get_set split: option.splits if_splits)
qed

lemma slot_step_ok:
  assumes "slots_ok sems s"
  shows "slots_ok sems (snd (slot_step s e))"
proof (cases "fst e < length (sl_tasks s) \<and> task_move (sl_free s) (snd e) (sl_tasks s ! fst e) \<noteq> None")
  case False
  with assms show ?thesis
    by (cases "task_move (sl_free s) (snd e) (sl_tasks s ! fst e)") (auto simp: slot_step_def)
next
  case True
  then obtain free' x' where mv: "task_move (sl_free s) (snd e) (sl_tasks s ! fst e) = Some (free', x')" by auto
  let ?i = "fst e" and ?x = "sl_tasks s ! fst e"
  have s': "snd (slot_step s e) = \<lparr>sl_free = free', sl_tasks = (sl_tasks s)[?i := x']\<rparr>"
    using True mv by (simp add: slot_step_def)
  have sem: "case dict_get sems t of None \<Rightarrow> dict_get (sl_free s) t = None
      | Some n \<Rightarrow> (\<exists>k. dict_get (sl_free s) t = Some k \<and> 0 \<le> k \<and> k + int (holders t (sl_tasks s)) = n)" for t
    using assms by (simp add: slots_ok_def)
  have dom: "dict_get (sl_free s) t = None \<longleftrightarrow> dict_get sems t = None" for t
    using sem [of t] by (cases "dict_get sems t") auto
  have nonneg: "0 \<le> k" if "dict_get (sl_free s) t = Some k" for t k
    using sem [of t] that by (cases "dict_get sems t") auto
  have xok: "task_ok sems ?x" using assms True by (simp add: slots_ok_def)
  have step: "(dict_get free' t = None \<longleftrightarrow> dict_get (sl_free s) t = None)
      \<and> (\<forall>k. dict_get (sl_free s) t = Some k \<longrightarrow> (\<exists>k'. dict_get free' t = Some k' \<and> 0 \<le> k'
           \<and> k' + int (count_list (held_by x') t) = k + int (count_list (held_by ?x) t)))" for t
    by (rule task_move_ok(2) [OF mv xok]) (use dom nonneg in auto)
  have "task_ok sems x'"
    by (rule task_move_ok(1) [OF mv xok]) (use dom nonneg in auto)
  then have "task_ok sems y" if "y \<in> set ((sl_tasks s)[?i := x'])" for y
    using that assms set_update_subset_insert [of "sl_tasks s" ?i x'] by (auto simp: slots_ok_def)
  moreover have "case dict_get sems t of None \<Rightarrow> dict_get free' t = None
      | Some n \<Rightarrow> (\<exists>k. dict_get free' t = Some k \<and> 0 \<le> k \<and> k + int (holders t ((sl_tasks s)[?i := x'])) = n)" for t
  proof (cases "dict_get sems t")
    case None
    with dom [of t] step [of t] show ?thesis by simp
  next
    case (Some n)
    then obtain k where k: "dict_get (sl_free s) t = Some k" "k + int (holders t (sl_tasks s)) = n"
      using sem [of t] by auto
    with step [of t] obtain k' where k': "dict_get free' t = Some k'" "0 \<le> k'"
      "k' + int (count_list (held_by x') t) = k + int (count_list (held_by ?x) t)" by blast
    with Some k holders_update [of ?i "sl_tasks s" t x'] True show ?thesis by simp
  qed
  ultimately show ?thesis unfolding s' slots_ok_def slots.select_convs by blast
qed

interpretation limiter: invariant_machine slot_step "slots_ok sems" for sems
  by unfold_locales (rule slot_step_ok)

lemma start_slots_ok:
  assumes "\<forall>(t, n)\<in>set sems. 0 < n"
  shows "slots_ok sems (start_slots sems calls)"
proof -
  have "holders t (sl_tasks (start_slots sems calls)) = 0" for t
    by (simp add: start_slots_def holders_def comp_def)
  moreover have "task_ok sems (Acquiring [] (tiers_of k))" for k
    by (auto simp: task_ok_def tiers_of_def wanted_tiers_def bulk_tiers_def tier_of_def tier_rank_def split: call_kind.split)
  moreover have "0 \<le> n" if "dict_get sems t = Some n" for t n
    using assms map_of_SomeD [OF that] by fastforce
  ultimately show ?thesis
    by (auto simp: slots_ok_def start_slots_def split: option.split)
qed

lemma new_limiter_positive: "\<forall>(t, n)\<in>set (new_limiter limits). 0 < n"
  by (auto simp: new_limiter_def split: option.splits if_splits)

lemma reachable_slots:
  "slots_ok (new_limiter limits) (snd (run_steps slot_step (start_slots (new_limiter limits) calls) es))"
  by (intro limiter.run_inv start_slots_ok new_limiter_positive)

lemma holders_bound:
  assumes "slots_ok sems s" "dict_get sems t = Some n"
  shows "int (holders t (sl_tasks s)) \<le> n"
proof -
  have "\<exists>k. dict_get (sl_free s) t = Some k \<and> 0 \<le> k \<and> k + int (holders t (sl_tasks s)) = n"
    using assms(1) [unfolded slots_ok_def, THEN conjunct2, rule_format, of t] assms(2) by simp
  then show ?thesis by auto
qed

subsection \<open>Progress\<close>

definition all_left :: "slots \<Rightarrow> bool" where
  "all_left s \<longleftrightarrow> (\<forall>x\<in>set (sl_tasks s). x = Leaving [])"

fun task_work :: "slot_task \<Rightarrow> nat" where
  "task_work (Acquiring h ws) = length h + 2 * length ws + 2"
| "task_work (InBody h) = length h + 1"
| "task_work (Leaving h) = length h"

definition work :: "slots \<Rightarrow> nat" where
  "work s = sum_list (map task_work (sl_tasks s))"

lemma task_move_work: "task_move free m x = Some (free', x') \<Longrightarrow> task_work x' < task_work x"
  by (cases "(free, m, x)" rule: task_move.cases) (auto split: option.splits if_splits)

lemma slot_step_work:
  assumes "fst (slot_step s e)"
  shows "work (snd (slot_step s e)) < work s"
proof -
  let ?i = "fst e" and ?x = "sl_tasks s ! fst e"
  obtain free' x' where i: "?i < length (sl_tasks s)" and mv: "task_move (sl_free s) (snd e) ?x = Some (free', x')"
    using assms by (auto simp: slot_step_def split: if_splits option.splits)
  have "task_work ?x \<le> work s"
    unfolding work_def using elem_le_sum_list [of ?i "map task_work (sl_tasks s)"] i by simp
  with task_move_work [OF mv] i mv show ?thesis
    using sum_list_update [of ?i "map task_work (sl_tasks s)" "task_work x'"]
    by (simp add: slot_step_def work_def map_update)
qed

text \<open>Among the waiting tasks, one that waits for a tier of the highest rank can go on: whoever holds a slot
  of that tier waits for nothing.\<close>

lemma some_task_moves:
  assumes "slots_ok sems s" "\<not> all_left s" "\<forall>(t, n)\<in>set sems. 0 < n"
  shows "\<exists>i m. m \<noteq> GiveUp \<and> fst (slot_step s (i, m))"
proof (rule ccontr)
  assume stuck: "\<not> ?thesis"
  have none: "task_move (sl_free s) m x = None" if x: "x \<in> set (sl_tasks s)" and m: "m \<noteq> GiveUp" for x m
  proof -
    obtain i where "i < length (sl_tasks s)" "sl_tasks s ! i = x" using x by (auto simp: in_set_conv_nth)
    moreover have "\<not> fst (slot_step s (i, m))" using stuck m by blast
    ultimately show ?thesis by (auto simp: slot_step_def split: option.splits)
  qed
  have sem: "case dict_get sems t of None \<Rightarrow> dict_get (sl_free s) t = None
      | Some n \<Rightarrow> (\<exists>k. dict_get (sl_free s) t = Some k \<and> 0 \<le> k \<and> k + int (holders t (sl_tasks s)) = n)" for t
    using assms(1) by (simp add: slots_ok_def)
  have waits: "x = Leaving [] \<or> (\<exists>h t ws. x = Acquiring h (t # ws) \<and> (\<exists>y\<in>set (sl_tasks s). t \<in> set (held_by y)))"
    if x: "x \<in> set (sl_tasks s)" for x
  proof (cases x)
    case (Acquiring h ws)
    then obtain t ws' where ws: "ws = t # ws'" using none [OF x, of Acquire] by (cases ws) auto
    obtain k where k: "dict_get (sl_free s) t = Some k" "\<not> 0 < k"
      using none [OF x, of Acquire] Acquiring ws by (auto split: option.splits if_splits)
    then obtain n where n: "dict_get sems t = Some n" "k + int (holders t (sl_tasks s)) = n"
      using sem [of t] by (cases "dict_get sems t") auto
    moreover have "0 < n" using n(1) assms(3) map_of_SomeD by fastforce
    ultimately have "0 < holders t (sl_tasks s)" using k(2) by linarith
    with Acquiring ws show ?thesis by (auto simp: holders_pos)
  next
    case (InBody h)
    with none [OF x, of Finish] show ?thesis by simp
  next
    case (Leaving h)
    show ?thesis
    proof (cases h)
      case (Cons t h')
      have "dict_get sems t \<noteq> None" using assms(1) x Leaving Cons by (auto simp: slots_ok_def task_ok_def)
      with sem [of t] none [OF x, of Release] Leaving Cons show ?thesis by (auto split: option.splits)
    qed (use Leaving in simp)
  qed
  let ?W = "{tier_rank t |h t ws. Acquiring h (t # ws) \<in> set (sl_tasks s)}"
  have "?W \<subseteq> {0, 1, 2}" by (auto simp: tier_rank_def)
  then have fin: "finite ?W" by (rule finite_subset) simp
  obtain x where "x \<in> set (sl_tasks s)" "x \<noteq> Leaving []" using assms(2) by (auto simp: all_left_def)
  with waits have "?W \<noteq> {}" by blast
  with fin have "Max ?W \<in> ?W" by (rule Max_in)
  then obtain h t ws where t: "Acquiring h (t # ws) \<in> set (sl_tasks s)" "tier_rank t = Max ?W" by auto
  with waits obtain y where y: "y \<in> set (sl_tasks s)" "t \<in> set (held_by y)" by blast
  with waits obtain h' t' ws' where y': "y = Acquiring h' (t' # ws')" by fastforce
  have "tier_rank t < tier_rank t'"
    using assms(1) y y' by (auto simp: slots_ok_def task_ok_def sorted_wrt_append)
  moreover have "tier_rank t' \<le> Max ?W"
    using fin y(1) y' by (intro Max_ge) auto
  ultimately show False using t(2) by simp
qed

subsection \<open>Properties\<close>

lemma holders_count: "length (filter (\<lambda>x. t \<in> set (held_by x)) ts) \<le> holders t ts"
proof (induction ts)
  case (Cons x ts)
  have "0 < count_list (held_by x) t" if "t \<in> set (held_by x)"
    using that by (simp add: count_list_0_iff flip: neq0_conv)
  with Cons show ?case by (auto simp: holders_def)
qed (simp add: holders_def)


lemma effective_moves_bounded:
  "\<forall>ok\<in>set (fst (run_steps slot_step s fs)). ok \<Longrightarrow> length fs \<le> work s"
proof (induction fs arbitrary: s)
  case (Cons e fs)
  then have "length fs \<le> work (snd (slot_step s e))" "work (snd (slot_step s e)) < work s"
    by (auto intro: slot_step_work)
  then show ?case by simp
qed simp

text \<open>C8. Calls never deadlock on the limiter: whatever has happened so far, only finitely many more moves
  can take effect, and as long as a call has not left, some call can go on without any waiter giving up;
  so once no call can go on, every call has left and every slot is free again. This rests on all calls taking
  the tiers in one order (the database, then reads, writes or bulk, then expensive).\<close>

theorem limiter_calls_finish:
  "case snd (run_steps slot_step (start_slots (new_limiter limits) calls) es) of s \<Rightarrow>
      (\<forall>fs. (\<forall>ok\<in>set (fst (run_steps slot_step s fs)). ok) \<longrightarrow> length fs \<le> work s)
      \<and> ((\<forall>i m. m \<noteq> GiveUp \<longrightarrow> \<not> fst (slot_step s (i, m))) \<longrightarrow>
           all_left s \<and> (\<forall>tier. dict_get (sl_free s) tier = dict_get (new_limiter limits) tier))"
proof -
  let ?s = "snd (run_steps slot_step (start_slots (new_limiter limits) calls) es)"
  note ok = reachable_slots [of limits calls es]
  have left: "all_left ?s" if "\<forall>i m. m \<noteq> GiveUp \<longrightarrow> \<not> fst (slot_step ?s (i, m))"
    using some_task_moves [OF ok _ new_limiter_positive] that by blast
  have "dict_get (sl_free ?s) tier = dict_get (new_limiter limits) tier" if "all_left ?s" for tier
  proof -
    have "holders tier (sl_tasks ?s) = 0"
      using that holders_pos [of tier "sl_tasks ?s"] by (auto simp: all_left_def)
    then show ?thesis
      using ok [unfolded slots_ok_def, THEN conjunct2, rule_format, of tier] by (auto split: option.splits)
  qed
  with left show ?thesis by (auto intro: effective_moves_bounded)
qed

definition two_writers :: slots where
  "two_writers = start_slots (new_limiter [(''database'', Some 1), (''reads'', None), (''writes'', Some 1)])
     [OneShot None, BulkWrite]"


lemma limiter_calls_finish_witness:
  "length [(0 :: nat, Acquire), (0, Acquire), (0, Acquire), (0, Finish), (0, Release)] \<le> work two_writers"
proof -
  let ?fs = "[(0 :: nat, Acquire), (0, Acquire), (0, Acquire), (0, Finish), (0, Release)]"
  have "\<forall>ok\<in>set (fst (run_steps slot_step two_writers ?fs)). ok"
    by code_simp
  then have "\<forall>ok\<in>set (fst (run_steps slot_step (snd (run_steps slot_step two_writers [])) ?fs)). ok" by simp
  then show ?thesis
    using limiter_calls_finish [of "[(''database'', Some 1), (''reads'', None), (''writes'', Some 1)]" "[OneShot None, BulkWrite]" "[]"]
    unfolding two_writers_def [symmetric] run_steps.simps(1) snd_conv by blast
qed

end
