(* ===== verification/Loading.thy ===== *)
theory Loading
  imports Config Conversions
begin

text \<open>
  Loading a configuration (\<^verbatim>\<open>_core/config.py\<close>): expansion of environment references in texts, the
  builders from parsed data to the configuration records, \<^verbatim>\<open>from_dict\<close> and what
  \<^verbatim>\<open>from_yaml\<close> does with the parsed file. A parsed document is a Python value.
\<close>

subsection \<open>Environment references\<close>

definition name_start :: "char \<Rightarrow> bool" where
  "name_start c \<longleftrightarrow> alpha_char c \<or> c = CHR ''_''"

definition name_char :: "char \<Rightarrow> bool" where
  "name_char c \<longleftrightarrow> name_start c \<or> digit_char c"

text \<open>The name, the default and the rest of the text, where a reference
  \<^verbatim>\<open>${NAME}\<close> or \<^verbatim>\<open>${NAME:-default}\<close> begins.\<close>

definition close_ref :: "string \<Rightarrow> string \<Rightarrow> (string \<times> string option \<times> string) option" where
  "close_ref name r =
     (case r of
        [] \<Rightarrow> None
      | c # r1 \<Rightarrow>
          if c = CHR ''}'' then Some (name, None, r1)
          else if take 2 r = '':-'' then
            (case dropWhile (\<lambda>x. x \<noteq> CHR ''}'') (drop 2 r) of
               [] \<Rightarrow> None
             | _ # r2 \<Rightarrow> Some (name, Some (takeWhile (\<lambda>x. x \<noteq> CHR ''}'') (drop 2 r)), r2))
          else None)"

definition env_match :: "string \<Rightarrow> (string \<times> string option \<times> string) option" where
  "env_match s =
     (if take 2 s = ''${'' then
        (case drop 2 s of
           [] \<Rightarrow> None
         | c # r \<Rightarrow>
             if name_start c then close_ref (c # takeWhile name_char r) (dropWhile name_char r) else None)
      else None)"

lemma close_ref_shorter: "close_ref name r = Some (n, d, rest) \<Longrightarrow> length rest < length r"
proof -
  assume c: "close_ref name r = Some (n, d, rest)"
  have "length (dropWhile (\<lambda>x. x \<noteq> CHR ''}'') (drop 2 r)) \<le> length r"
    using length_dropWhile_le [of _ "drop 2 r"] by (rule order_trans) simp
  with c show ?thesis by (auto simp: close_ref_def split: list.splits if_splits)
qed

lemma env_match_shorter: "env_match s = Some (n, d, rest) \<Longrightarrow> length rest < length s"
proof -
  assume m: "env_match s = Some (n, d, rest)"
  then obtain c r where d: "drop 2 s = c # r" and cr: "close_ref (c # takeWhile name_char r) (dropWhile name_char r) = Some (n, d, rest)"
    by (auto simp: env_match_def split: list.splits if_splits)
  have "length (c # r) \<le> length s" unfolding d [symmetric] by simp
  then show ?thesis using close_ref_shorter [OF cr] length_dropWhile_le [of name_char r] by simp
qed

definition env_value :: "(string, string) dict \<Rightarrow> string \<Rightarrow> string option \<Rightarrow> string py" where
  "env_value environ name d =
     (case dict_get environ name of
        Some v \<Rightarrow> Inr v
      | None \<Rightarrow>
          (case d of
             Some v \<Rightarrow> Inr v
           | None \<Rightarrow> config_error (''environment variable '' @ quoted name @ '' referenced in config is not set'')))"

function expand_env :: "(string, string) dict \<Rightarrow> string \<Rightarrow> string py" where
  "expand_env environ s =
     (case env_match s of
        Some (name, d, rest) \<Rightarrow>
          sum_bind (env_value environ name d) (\<lambda>v. sum_bind (expand_env environ rest) (\<lambda>r. Inr (v @ r)))
      | None \<Rightarrow>
          (case s of [] \<Rightarrow> Inr [] | c # cs \<Rightarrow> sum_bind (expand_env environ cs) (\<lambda>r. Inr (c # r))))"
  by pat_completeness auto
termination
  by (relation "measure (\<lambda>(_, s). length s)") (auto dest: env_match_shorter)

declare expand_env.simps [simp del]

fun expand_tree :: "(string, string) dict \<Rightarrow> pyval \<Rightarrow> pyval py"
  and expand_items :: "(string, string) dict \<Rightarrow> (string \<times> pyval) list \<Rightarrow> (string \<times> pyval) list py"
  and expand_list :: "(string, string) dict \<Rightarrow> pyval list \<Rightarrow> pyval list py" where
  "expand_tree environ (PStr s) = sum_bind (expand_env environ s) (\<lambda>r. Inr (PStr r))"
| "expand_tree environ (PDict items) = sum_bind (expand_items environ items) (\<lambda>r. Inr (PDict r))"
| "expand_tree environ (PList xs) = sum_bind (expand_list environ xs) (\<lambda>r. Inr (PList r))"
| "expand_tree environ v = Inr v"
| "expand_items environ [] = Inr []"
| "expand_items environ ((k, v) # items) =
     sum_bind (expand_tree environ v) (\<lambda>v'. sum_bind (expand_items environ items) (\<lambda>r. Inr ((k, v') # r)))"
| "expand_list environ [] = Inr []"
| "expand_list environ (x # xs) =
     sum_bind (expand_tree environ x) (\<lambda>x'. sum_bind (expand_list environ xs) (\<lambda>r. Inr (x' # r)))"

subsection \<open>Builders\<close>

text \<open>
  A builder fails with what it raises. Some fields are stored without a conversion: a value of another
  type than the field's stays in the dataclass as it is, which the records here cannot say; \<open>Untyped\<close> is that
  outcome, and nothing is claimed after it.
\<close>

datatype 'a load = Loaded 'a | Failed raised | Untyped

fun load_bind :: "'a load \<Rightarrow> ('a \<Rightarrow> 'b load) \<Rightarrow> 'b load" where
  "load_bind (Loaded x) f = f x"
| "load_bind (Failed e) f = Failed e"
| "load_bind Untyped f = Untyped"

fun load_list :: "('a \<Rightarrow> 'b load) \<Rightarrow> 'a list \<Rightarrow> 'b list load" where
  "load_list f [] = Loaded []"
| "load_list f (x # xs) = load_bind (f x) (\<lambda>y. load_bind (load_list f xs) (\<lambda>ys. Loaded (y # ys)))"

definition lift :: "'a py \<Rightarrow> 'a load" where
  "lift r = (case r of Inl e \<Rightarrow> Failed e | Inr x \<Rightarrow> Loaded x)"

definition field_of :: "(pyval \<Rightarrow> 'a load) \<Rightarrow> pyval \<Rightarrow> string \<Rightarrow> pyval \<Rightarrow> 'a load" where
  "field_of conv data key d = load_bind (lift (get_or data key d)) conv"

definition int_field :: "pyval \<Rightarrow> string \<Rightarrow> int \<Rightarrow> int load" where
  "int_field data key d = field_of (\<lambda>v. lift (int_of_value v)) data key (PInt d)"

definition float_field :: "(string \<Rightarrow> real option) \<Rightarrow> pyval \<Rightarrow> string \<Rightarrow> real \<Rightarrow> real load" where
  "float_field rf data key d = field_of (\<lambda>v. lift (float_of_value rf v)) data key (PFloat d)"

definition bool_field :: "pyval \<Rightarrow> string \<Rightarrow> bool \<Rightarrow> bool load" where
  "bool_field data key d = field_of (\<lambda>v. Loaded (truthy v)) data key (PBool d)"

fun as_text :: "pyval \<Rightarrow> string load" where
  "as_text (PStr s) = Loaded s"
| "as_text _ = Untyped"

fun as_optional_text :: "pyval \<Rightarrow> string option load" where
  "as_optional_text (PStr s) = Loaded (Some s)"
| "as_optional_text PNone = Loaded None"
| "as_optional_text _ = Untyped"

fun as_optional_int :: "pyval \<Rightarrow> int option load" where
  "as_optional_int (PInt i) = Loaded (Some i)"
| "as_optional_int (PBool b) = Loaded (Some (if b then 1 else 0))"
| "as_optional_int PNone = Loaded None"
| "as_optional_int _ = Untyped"

text \<open>\<^verbatim>\<open>int(x) if x is not None else None\<close>\<close>

definition int_or_none :: "pyval \<Rightarrow> int option load" where
  "int_or_none v =
     (case v of PNone \<Rightarrow> Loaded None | _ \<Rightarrow> load_bind (lift (int_of_value v)) (\<lambda>i. Loaded (Some i)))"

definition load_pool :: "(string \<Rightarrow> real option) \<Rightarrow> pyval \<Rightarrow> pool_config option load" where
  "load_pool rf data =
     (case data of
        PNone \<Rightarrow> Loaded None
      | _ \<Rightarrow>
          load_bind (int_field data ''size'' 10) (\<lambda>size.
          load_bind (int_field data ''max_overflow'' 5) (\<lambda>overflow.
          load_bind (float_field rf data ''timeout_seconds'' 5) (\<lambda>timeout.
          load_bind (int_field data ''recycle_seconds'' 1800) (\<lambda>recycle.
          load_bind (bool_field data ''pre_ping'' True) (\<lambda>pre_ping.
          load_bind (bool_field data ''use_lifo'' True) (\<lambda>lifo.
          load_bind (field_of as_optional_text data ''reset_on_return'' (PStr ''rollback'')) (\<lambda>reset.
          load_bind (float_field rf data ''connect_timeout_seconds'' 10) (\<lambda>connect.
          load_bind (float_field rf data ''long_hold_warning_seconds'' 2) (\<lambda>hold.
          load_bind (bool_field data ''disable_pooling'' False) (\<lambda>nopool.
          load_bind (bool_field data ''pgbouncer_compatible'' False) (\<lambda>pgb.
            Loaded (Some \<lparr>pool_size = size, pool_max_overflow = overflow, pool_timeout_seconds = timeout,
              pool_recycle_seconds = recycle, pool_pre_ping = pre_ping, pool_use_lifo = lifo,
              pool_reset_on_return = reset, pool_connect_timeout_seconds = connect,
              pool_long_hold_warning_seconds = hold, pool_disable_pooling = nopool,
              pool_pgbouncer_compatible = pgb\<rparr>)))))))))))))"

definition load_retry :: "(string \<Rightarrow> real option) \<Rightarrow> pyval \<Rightarrow> retry_config load" where
  "load_retry rf data =
     (case data of
        PNone \<Rightarrow> Loaded default_retry
      | _ \<Rightarrow>
          load_bind (int_field data ''attempts'' 2) (\<lambda>n.
          load_bind (float_field rf data ''initial_delay_ms'' 20) (\<lambda>initial.
          load_bind (float_field rf data ''maximum_delay_ms'' 250) (\<lambda>maximum.
          load_bind (float_field rf data ''multiplier'' 2) (\<lambda>mult.
          load_bind (field_of as_text data ''jitter'' (PStr ''full'')) (\<lambda>jit.
          load_bind (float_field rf data ''maximum_total_ms'' 750) (\<lambda>total.
          load_bind (bool_field data ''retry_reads'' True) (\<lambda>reads.
          load_bind (bool_field data ''retry_writes'' False) (\<lambda>writes.
            Loaded \<lparr>attempts = n, initial_delay_ms = initial, maximum_delay_ms = maximum, multiplier = mult,
              jitter = jit, maximum_total_ms = total, retry_reads = reads, retry_writes = writes\<rparr>)))))))))"

definition load_bulk :: "pyval \<Rightarrow> bulk_config load" where
  "load_bulk data =
     (case data of
        PNone \<Rightarrow> Loaded default_bulk
      | _ \<Rightarrow>
          load_bind (lift (get_or data ''max_payload_bytes'' PNone)) (\<lambda>payload.
          load_bind (int_field data ''default_batch_rows'' 1000) (\<lambda>rows.
          load_bind (int_field data ''max_batch_rows'' 10000) (\<lambda>max_rows.
          load_bind (int_or_none payload) (\<lambda>bytes.
            Loaded \<lparr>default_batch_rows = rows, max_batch_rows = max_rows, max_payload_bytes = bytes\<rparr>)))))"

definition load_circuit_breaker :: "(string \<Rightarrow> real option) \<Rightarrow> pyval \<Rightarrow> circuit_breaker_config load" where
  "load_circuit_breaker rf data =
     (case data of
        PNone \<Rightarrow> Loaded default_circuit_breaker
      | _ \<Rightarrow>
          load_bind (bool_field data ''enabled'' False) (\<lambda>en.
          load_bind (int_field data ''failure_threshold'' 10) (\<lambda>threshold.
          load_bind (float_field rf data ''window_seconds'' 30) (\<lambda>window.
          load_bind (float_field rf data ''open_seconds'' 10) (\<lambda>open_s.
          load_bind (int_field data ''half_open_max_calls'' 2) (\<lambda>calls.
            Loaded \<lparr>cb_enabled = en, cb_failure_threshold = threshold, cb_window_seconds = window,
              cb_open_seconds = open_s, cb_half_open_max_calls = calls\<rparr>))))))"

definition load_observability :: "(string \<Rightarrow> real option) \<Rightarrow> pyval \<Rightarrow> observability_config load" where
  "load_observability rf data =
     (case data of
        PNone \<Rightarrow> Loaded default_observability
      | _ \<Rightarrow>
          load_bind (bool_field data ''metrics'' True) (\<lambda>metrics.
          load_bind (bool_field data ''tracing'' False) (\<lambda>tracing.
          load_bind (bool_field data ''log_parameters'' False) (\<lambda>params.
          load_bind (float_field rf data ''slow_query_ms'' 500) (\<lambda>slow.
            Loaded \<lparr>ob_metrics = metrics, ob_tracing = tracing, ob_log_parameters = params,
              ob_slow_query_ms = slow\<rparr>)))))"

definition load_budget :: "pyval \<Rightarrow> connection_budget_config load" where
  "load_budget data =
     (case data of
        PNone \<Rightarrow> Loaded no_budget
      | _ \<Rightarrow>
          load_bind (lift (get_or data ''maximum_application_share'' PNone)) (\<lambda>share.
          load_bind (lift (get_or data ''maximum_per_process'' share)) (\<lambda>limit.
          load_bind (int_or_none limit) (\<lambda>l.
          load_bind (bool_field data ''enforce_at_startup'' False) (\<lambda>enforce.
            Loaded \<lparr>maximum_per_process = l, enforce_at_startup = enforce\<rparr>)))))"

definition no_concurrency :: concurrency_config where
  "no_concurrency = \<lparr>cc_database = None, cc_reads = None, cc_writes = None, cc_bulk_writes = None,
     cc_expensive_queries = None\<rparr>"

definition load_concurrency :: "pyval \<Rightarrow> concurrency_config load" where
  "load_concurrency data =
     (case data of
        PNone \<Rightarrow> Loaded no_concurrency
      | _ \<Rightarrow>
          load_bind (field_of as_optional_int data ''database'' PNone) (\<lambda>database.
          load_bind (field_of as_optional_int data ''reads'' PNone) (\<lambda>reads.
          load_bind (field_of as_optional_int data ''writes'' PNone) (\<lambda>writes.
          load_bind (lift (get_or data ''bulk_writes'' PNone)) (\<lambda>bulk_writes.
          load_bind (field_of as_optional_int data ''bulk'' bulk_writes) (\<lambda>bulk.
          load_bind (field_of as_optional_int data ''expensive_queries'' PNone) (\<lambda>expensive.
            Loaded \<lparr>cc_database = database, cc_reads = reads, cc_writes = writes, cc_bulk_writes = bulk,
              cc_expensive_queries = expensive\<rparr>)))))))"

definition load_defaults :: "(string \<Rightarrow> real option) \<Rightarrow> pyval \<Rightarrow> defaults_config load" where
  "load_defaults rf data =
     (case data of
        PNone \<Rightarrow> Loaded default_defaults
      | _ \<Rightarrow>
          load_bind (field_of as_text data ''driver'' (PStr ''psycopg'')) (\<lambda>drv.
          load_bind (float_field rf data ''query_timeout_seconds'' 2) (\<lambda>query.
          load_bind (float_field rf data ''transaction_timeout_seconds'' 5) (\<lambda>transaction.
          load_bind (float_field rf data ''long_transaction_warning_seconds'' 5) (\<lambda>long_transaction.
          load_bind (field_of (load_pool rf) data ''pool'' PNone) (\<lambda>pool.
          load_bind (field_of (load_retry rf) data ''retry'' PNone) (\<lambda>retry.
          load_bind (field_of (load_circuit_breaker rf) data ''circuit_breaker'' PNone) (\<lambda>breaker.
          load_bind (field_of load_bulk data ''bulk'' PNone) (\<lambda>bulk.
          load_bind (field_of (load_observability rf) data ''observability'' PNone) (\<lambda>obs.
            Loaded \<lparr>d_driver = drv, d_query_timeout_seconds = query, d_transaction_timeout_seconds = transaction,
              d_long_transaction_warning_seconds = long_transaction,
              d_pool = (case pool of Some p \<Rightarrow> p | None \<Rightarrow> default_pool), d_retry = retry,
              d_circuit_breaker = breaker, d_bulk = bulk, d_observability = obs\<rparr>))))))))))"

definition load_target :: "(string \<Rightarrow> real option) \<Rightarrow> string \<Rightarrow> pyval \<Rightarrow> target_config load" where
  "load_target rf name data =
     load_bind (lift (py_in ''url'' data)) (\<lambda>has.
       if \<not> has then Failed (DbErr (new_error DatabaseConfigurationError
         (''target '' @ quoted name @ '' is missing '' @ quoted ''url'') no_kwargs))
       else
         load_bind (lift (py_index data ''url'')) (\<lambda>raw_url.
         load_bind (as_text raw_url) (\<lambda>url.
         load_bind (field_of as_text data ''name'' (PStr name)) (\<lambda>nm.
         load_bind (bool_field data ''required'' True) (\<lambda>req.
         load_bind (int_field data ''weight'' 1) (\<lambda>w.
         load_bind (field_of (load_pool rf) data ''pool'' PNone) (\<lambda>pool.
           Loaded \<lparr>t_url = url, t_name = nm, t_required = req, t_weight = w, t_pool = pool\<rparr>)))))))"

text \<open>\<^verbatim>\<open>_target(r, name=r.get("name", f"replica-{i}"))\<close>\<close>

definition load_replica :: "(string \<Rightarrow> real option) \<Rightarrow> nat \<times> pyval \<Rightarrow> target_config load" where
  "load_replica rf p =
     load_bind (field_of as_text (snd p) ''name'' (PStr (''replica-'' @ show_nat (fst p)))) (\<lambda>name.
       load_target rf name (snd p))"

definition load_database :: "(string \<Rightarrow> real option) \<Rightarrow> string \<Rightarrow> pyval \<Rightarrow> database_config load" where
  "load_database rf name data =
     load_bind (lift (py_in ''primary'' data)) (\<lambda>has.
       if \<not> has then Failed (DbErr (new_error DatabaseConfigurationError
         (''database '' @ quoted name @ '' is missing a '' @ quoted ''primary'' @ '' target'') no_kwargs))
       else
         load_bind (lift (get_or data ''replicas'' (PList []))) (\<lambda>raw.
         load_bind (lift (iter_values raw)) (\<lambda>rs.
         load_bind (load_list (load_replica rf) (enumerate 0 rs)) (\<lambda>replicas.
         load_bind (lift (py_index data ''primary'')) (\<lambda>raw_primary.
         load_bind (load_target rf ''primary'' raw_primary) (\<lambda>primary.
         load_bind (field_of load_concurrency data ''concurrency'' PNone) (\<lambda>concurrency.
         load_bind (field_of load_budget data ''connection_budget'' PNone) (\<lambda>budget.
           Loaded \<lparr>db_primary = primary, db_replicas = replicas, db_concurrency = concurrency,
             db_connection_budget = budget\<rparr>))))))))"

definition build_config :: "(string \<Rightarrow> real option) \<Rightarrow> pyval \<Rightarrow> dbkit_config load" where
  "build_config rf raw =
     load_bind (lift (get_or raw ''databases'' PNone)) (\<lambda>databases_raw.
       if databases_raw = PNone then Failed (DbErr (new_error DatabaseConfigurationError
         (''configuration must define a '' @ quoted ''databases'' @ '' mapping'') no_kwargs))
       else
         load_bind (lift (items_of databases_raw)) (\<lambda>items.
         load_bind (load_list (\<lambda>(name, cfg). load_bind (load_database rf name cfg) (\<lambda>db. Loaded (name, db))) items) (\<lambda>dbs.
         load_bind (lift (get_or raw ''max_engines'' PNone)) (\<lambda>engines.
         load_bind (field_of as_text raw ''environment'' (PStr ''default'')) (\<lambda>environment.
         load_bind (field_of (load_defaults rf) raw ''defaults'' PNone) (\<lambda>defaults.
         load_bind (field_of load_budget raw ''connection_budget'' PNone) (\<lambda>budget.
         load_bind (int_or_none engines) (\<lambda>max_engines.
         load_bind (field_of int_or_none raw ''max_databases'' PNone) (\<lambda>max_databases.
         load_bind (bool_field raw ''evict_lru_engines'' False) (\<lambda>evict.
           Loaded \<lparr>databases = dbs, environment = environment, defaults = defaults,
             connection_budget = budget, max_engines = max_engines, max_databases = max_databases,
             evict_lru_engines = evict\<rparr>))))))))))"

text \<open>\<^verbatim>\<open>except (KeyError, TypeError, ValueError)\<close> around the builder.\<close>

definition wrap_config_error :: "'a load \<Rightarrow> 'a load" where
  "wrap_config_error r =
     (case r of
        Failed (Foreign x) \<Rightarrow>
          if isinstance x CKeyError \<or> isinstance x CTypeError \<or> isinstance x CValueError
          then Failed (DbErr (new_error DatabaseConfigurationError (''invalid configuration: '' @ exn_str x)
                 no_kwargs))
          else r
      | _ \<Rightarrow> r)"

definition from_dict :: "(string \<Rightarrow> real option) \<Rightarrow> (string, string) dict \<Rightarrow> bool \<Rightarrow> (string \<times> pyval) list \<Rightarrow> dbkit_config load" where
  "from_dict rf environ expand data =
     load_bind (if expand then lift (expand_tree environ (PDict data)) else Loaded (PDict data)) (\<lambda>raw.
     load_bind (wrap_config_error (build_config rf raw)) (\<lambda>config.
     load_bind (lift (validate config)) (\<lambda>_. Loaded config)))"

text \<open>\<^verbatim>\<open>from_yaml\<close> after reading and parsing the file.\<close>

definition from_document :: "(string \<Rightarrow> real option) \<Rightarrow> (string, string) dict \<Rightarrow> string \<Rightarrow> pyval \<Rightarrow> dbkit_config load" where
  "from_document rf environ path data =
     (case data of
        PDict items \<Rightarrow>
          (case dict_get items ''dbkit'' of
             Some (PDict inner) \<Rightarrow> from_dict rf environ True inner
           | _ \<Rightarrow> from_dict rf environ True items)
      | _ \<Rightarrow> Failed (DbErr (new_error DatabaseConfigurationError (path @ '' did not contain a mapping'') no_kwargs)))"

subsection \<open>Expansion\<close>

text \<open>A text as a template: plain characters and references.\<close>

datatype segment = Plain string | Ref string "string option"

fun segment_text :: "segment \<Rightarrow> string" where
  "segment_text (Plain s) = s"
| "segment_text (Ref name None) = ''${'' @ name @ ''}''"
| "segment_text (Ref name (Some d)) = ''${'' @ name @ '':-'' @ d @ ''}''"

fun segment_ok :: "segment \<Rightarrow> bool" where
  "segment_ok (Plain s) = (CHR ''$'' \<notin> set s)"
| "segment_ok (Ref name d) =
     (name \<noteq> [] \<and> name_start (hd name) \<and> list_all name_char (tl name)
      \<and> (case d of None \<Rightarrow> True | Some x \<Rightarrow> CHR ''}'' \<notin> set x))"

fun segment_value :: "(string, string) dict \<Rightarrow> segment \<Rightarrow> string py" where
  "segment_value environ (Plain s) = Inr s"
| "segment_value environ (Ref name d) = env_value environ name d"

lemma env_match_plain: "c \<noteq> CHR ''$'' \<Longrightarrow> env_match (c # s) = None"
  by (simp add: env_match_def)

lemma expand_plain: "CHR ''$'' \<notin> set s \<Longrightarrow> expand_env environ (s @ t) = sum_bind (expand_env environ t) (\<lambda>r. Inr (s @ r))"
proof (induction s)
  case Nil
  then show ?case by (cases "expand_env environ t") simp_all
next
  case (Cons c s)
  then have "env_match (c # s @ t) = None" by (intro env_match_plain) auto
  with Cons show ?case
    by (subst append_Cons, subst expand_env.simps) (cases "expand_env environ t"; simp)
qed

lemma not_name_char: "\<not> name_char (CHR ''}'')" "\<not> name_char (CHR '':'')"
  by (simp_all add: name_char_def name_start_def alpha_char_def digit_char_def)

lemma env_match_ref:
  assumes "segment_ok (Ref name d)"
  shows "env_match (segment_text (Ref name d) @ t) = Some (name, d, t)"
proof -
  obtain c cs where n: "name = c # cs" "name_start c" "list_all name_char cs"
    using assms by (cases name) auto
  have tw: "takeWhile name_char (cs @ x # r) = cs" "dropWhile name_char (cs @ x # r) = x # r"
    if "\<not> name_char x" for x r
    using n(3) that by (induction cs) (auto simp: list_all_iff)
  show ?thesis
  proof (cases d)
    case None
    with n show ?thesis by (simp add: env_match_def tw not_name_char close_ref_def)
  next
    case (Some x)
    then have x: "CHR ''}'' \<notin> set x" using assms by simp
    have "takeWhile (\<lambda>y. y \<noteq> CHR ''}'') (x @ CHR ''}'' # t) = x" "dropWhile (\<lambda>y. y \<noteq> CHR ''}'') (x @ CHR ''}'' # t) = CHR ''}'' # t"
      using x by (induction x) auto
    with Some n show ?thesis by (simp add: env_match_def tw not_name_char close_ref_def)
  qed
qed

lemma expand_segment:
  "segment_ok g \<Longrightarrow> expand_env environ (segment_text g @ t) =
     sum_bind (segment_value environ g) (\<lambda>v. sum_bind (expand_env environ t) (\<lambda>r. Inr (v @ r)))"
proof (cases g)
  case (Plain s)
  then show "segment_ok g \<Longrightarrow> ?thesis" by (simp add: expand_plain)
next
  case (Ref name d)
  assume "segment_ok g"
  with Ref env_match_ref [of name d t] show ?thesis
    by (subst expand_env.simps) simp
qed

text \<open>Expanding a text replaces each reference by the variable's value, or by its default when the variable
  is not set, and copies everything else; a reference without default to an unset variable is a configuration
  error. Values are not expanded again.\<close>

theorem expand_env_spec:
  assumes "list_all segment_ok segs"
  shows "expand_env environ (concat (map segment_text segs)) =
    sum_bind (map_sum (segment_value environ) segs) (\<lambda>vs. Inr (concat vs))"
  using assms
proof (induction segs)
  case Nil
  then show ?case by (simp add: expand_env.simps [of _ "[]"] env_match_def)
next
  case (Cons g segs)
  then have "expand_env environ (segment_text g @ concat (map segment_text segs)) =
      sum_bind (segment_value environ g) (\<lambda>v. sum_bind (expand_env environ (concat (map segment_text segs))) (\<lambda>r. Inr (v @ r)))"
    by (intro expand_segment) simp
  with Cons show ?case
    by (cases "segment_value environ g"; cases "map_sum (segment_value environ) segs") auto
qed

lemma expand_env_spec_witness:
  "expand_env [(''USER'', ''${X}'')] ''db://${USER}@${HOST:-local}/'' = Inr ''db://${X}@local/''"
proof -
  let ?segs = "[Plain ''db://'', Ref ''USER'' None, Plain ''@'', Ref ''HOST'' (Some ''local''), Plain ''/'']"
  have "list_all segment_ok ?segs"
    by (simp add: name_start_def name_char_def alpha_char_def digit_char_def)
  from expand_env_spec [OF this, of "[(''USER'', ''${X}'')]"] show ?thesis
    by (simp add: env_value_def)
qed

subsection \<open>Reading back\<close>

text \<open>A configuration written as the document that \<^verbatim>\<open>from_dict\<close> reads.\<close>

definition raw_opt :: "('a \<Rightarrow> pyval) \<Rightarrow> 'a option \<Rightarrow> pyval" where
  "raw_opt f x = (case x of None \<Rightarrow> PNone | Some v \<Rightarrow> f v)"

definition raw_pool :: "pool_config \<Rightarrow> pyval" where
  "raw_pool p = PDict [(''size'', PInt (pool_size p)), (''max_overflow'', PInt (pool_max_overflow p)),
     (''timeout_seconds'', PFloat (pool_timeout_seconds p)), (''recycle_seconds'', PInt (pool_recycle_seconds p)),
     (''pre_ping'', PBool (pool_pre_ping p)), (''use_lifo'', PBool (pool_use_lifo p)),
     (''reset_on_return'', raw_opt PStr (pool_reset_on_return p)),
     (''connect_timeout_seconds'', PFloat (pool_connect_timeout_seconds p)),
     (''long_hold_warning_seconds'', PFloat (pool_long_hold_warning_seconds p)),
     (''disable_pooling'', PBool (pool_disable_pooling p)),
     (''pgbouncer_compatible'', PBool (pool_pgbouncer_compatible p))]"

definition raw_retry :: "retry_config \<Rightarrow> pyval" where
  "raw_retry r = PDict [(''attempts'', PInt (attempts r)), (''initial_delay_ms'', PFloat (initial_delay_ms r)),
     (''maximum_delay_ms'', PFloat (maximum_delay_ms r)), (''multiplier'', PFloat (multiplier r)),
     (''jitter'', PStr (jitter r)), (''maximum_total_ms'', PFloat (maximum_total_ms r)),
     (''retry_reads'', PBool (retry_reads r)), (''retry_writes'', PBool (retry_writes r))]"

definition raw_bulk :: "bulk_config \<Rightarrow> pyval" where
  "raw_bulk b = PDict [(''default_batch_rows'', PInt (default_batch_rows b)), (''max_batch_rows'', PInt (max_batch_rows b)),
     (''max_payload_bytes'', raw_opt PInt (max_payload_bytes b))]"

definition raw_breaker :: "circuit_breaker_config \<Rightarrow> pyval" where
  "raw_breaker b = PDict [(''enabled'', PBool (cb_enabled b)), (''failure_threshold'', PInt (cb_failure_threshold b)),
     (''window_seconds'', PFloat (cb_window_seconds b)), (''open_seconds'', PFloat (cb_open_seconds b)),
     (''half_open_max_calls'', PInt (cb_half_open_max_calls b))]"

definition raw_observability :: "observability_config \<Rightarrow> pyval" where
  "raw_observability b = PDict [(''metrics'', PBool (ob_metrics b)), (''tracing'', PBool (ob_tracing b)),
     (''log_parameters'', PBool (ob_log_parameters b)), (''slow_query_ms'', PFloat (ob_slow_query_ms b))]"

definition raw_budget :: "connection_budget_config \<Rightarrow> pyval" where
  "raw_budget b = PDict [(''maximum_per_process'', raw_opt PInt (maximum_per_process b)),
     (''enforce_at_startup'', PBool (enforce_at_startup b))]"

definition raw_concurrency :: "concurrency_config \<Rightarrow> pyval" where
  "raw_concurrency c = PDict [(''database'', raw_opt PInt (cc_database c)), (''reads'', raw_opt PInt (cc_reads c)),
     (''writes'', raw_opt PInt (cc_writes c)), (''bulk'', raw_opt PInt (cc_bulk_writes c)),
     (''expensive_queries'', raw_opt PInt (cc_expensive_queries c))]"

definition raw_defaults :: "defaults_config \<Rightarrow> pyval" where
  "raw_defaults d = PDict [(''driver'', PStr (d_driver d)), (''query_timeout_seconds'', PFloat (d_query_timeout_seconds d)),
     (''transaction_timeout_seconds'', PFloat (d_transaction_timeout_seconds d)),
     (''long_transaction_warning_seconds'', PFloat (d_long_transaction_warning_seconds d)),
     (''pool'', raw_pool (d_pool d)), (''retry'', raw_retry (d_retry d)),
     (''circuit_breaker'', raw_breaker (d_circuit_breaker d)), (''bulk'', raw_bulk (d_bulk d)),
     (''observability'', raw_observability (d_observability d))]"

definition raw_target :: "target_config \<Rightarrow> pyval" where
  "raw_target t = PDict [(''url'', PStr (t_url t)), (''name'', PStr (t_name t)), (''required'', PBool (t_required t)),
     (''weight'', PInt (t_weight t)), (''pool'', raw_opt raw_pool (t_pool t))]"

definition raw_database :: "database_config \<Rightarrow> pyval" where
  "raw_database db = PDict [(''primary'', raw_target (db_primary db)), (''replicas'', PList (map raw_target (db_replicas db))),
     (''concurrency'', raw_concurrency (db_concurrency db)), (''connection_budget'', raw_budget (db_connection_budget db))]"

definition raw_config :: "dbkit_config \<Rightarrow> (string \<times> pyval) list" where
  "raw_config c = [(''databases'', PDict (map (\<lambda>(n, db). (n, raw_database db)) (databases c))),
     (''environment'', PStr (environment c)), (''defaults'', raw_defaults (defaults c)),
     (''connection_budget'', raw_budget (connection_budget c)), (''max_engines'', raw_opt PInt (max_engines c)),
     (''max_databases'', raw_opt PInt (max_databases c)), (''evict_lru_engines'', PBool (evict_lru_engines c))]"

named_theorems reads \<open>reading a field that is there\<close>

lemma lift_Inr [simp]: "lift (Inr x) = Loaded x" "lift (Inl e) = Failed e"
  by (simp_all add: lift_def)

lemma get_or_dict [reads]: "get_or (PDict items) key d = Inr (case dict_get items key of Some v \<Rightarrow> v | None \<Rightarrow> d)"
  by (simp add: get_or_def)

lemma field_of_dict [reads]:
  "field_of conv (PDict items) key d = conv (case dict_get items key of Some v \<Rightarrow> v | None \<Rightarrow> d)"
  by (simp add: field_of_def get_or_dict)

lemma scalar_fields [reads]:
  "int_of_value (PInt i) = Inr i" "float_of_value rf (PFloat r) = Inr r" "truthy (PBool b) = b"
  "as_optional_text (raw_opt PStr s) = Loaded s" "as_optional_int (raw_opt PInt n) = Loaded n"
  "int_or_none (raw_opt PInt n) = Loaded n" "int_or_none PNone = Loaded None"
  by (simp_all add: int_of_value_def float_of_value_def truthy_def int_or_none_def raw_opt_def split: option.split)

lemmas field_defs = int_field_def float_field_def bool_field_def

lemma load_raw_pool [reads]: "load_pool rf (raw_pool p) = Loaded (Some p)"
  by (simp add: load_pool_def raw_pool_def field_defs reads)

lemma load_raw_opt_pool [reads]: "load_pool rf (raw_opt raw_pool p) = Loaded p"
  by (cases p) (simp_all add: raw_opt_def reads, simp add: load_pool_def)

lemma load_raw_sections [reads]:
  "load_retry rf (raw_retry r) = Loaded r"
  "load_bulk (raw_bulk b) = Loaded b"
  "load_circuit_breaker rf (raw_breaker k) = Loaded k"
  "load_observability rf (raw_observability ob) = Loaded ob"
  "load_budget (raw_budget bd) = Loaded bd"
  "load_concurrency (raw_concurrency cc) = Loaded cc"
  by (simp_all add: load_retry_def raw_retry_def load_bulk_def raw_bulk_def load_circuit_breaker_def raw_breaker_def
      load_observability_def raw_observability_def load_budget_def raw_budget_def load_concurrency_def
      raw_concurrency_def field_defs reads)

lemma load_raw_defaults [reads]: "load_defaults rf (raw_defaults d) = Loaded d"
  by (simp add: load_defaults_def raw_defaults_def field_defs reads)

lemma load_raw_target [reads]: "load_target rf name (raw_target t) = Loaded t"
  by (simp add: load_target_def raw_target_def py_in_def py_index_def field_defs reads)

lemma load_raw_replica [reads]: "load_replica rf (i, raw_target t) = Loaded t"
proof -
  have "field_of as_text (raw_target t) ''name'' d = Loaded (t_name t)" for d
    by (simp add: raw_target_def reads)
  then show ?thesis by (simp add: load_replica_def reads)
qed

lemma load_list_same: "(\<And>x. x \<in> set xs \<Longrightarrow> f (g x) = Loaded x) \<Longrightarrow> load_list f (map g xs) = Loaded xs"
  by (induction xs) auto

lemma load_raw_replicas: "load_list (load_replica rf) (enumerate n (map raw_target ts)) = Loaded ts"
  by (induction ts arbitrary: n) (simp_all add: reads)

lemma load_raw_database [reads]: "load_database rf name (raw_database db) = Loaded db"
  by (simp add: load_database_def raw_database_def py_in_def py_index_def iter_values_def field_defs reads load_raw_replicas)

lemma load_raw_databases:
  "load_list (\<lambda>(name, cfg). load_bind (load_database rf name cfg) (\<lambda>db. Loaded (name, db)))
     (map (\<lambda>(n, db). (n, raw_database db)) dbs) = Loaded dbs"
  by (rule load_list_same) (auto simp: reads)

lemma build_raw_config: "build_config rf (PDict (raw_config c)) = Loaded c"
  by (simp add: build_config_def raw_config_def items_of_def field_defs reads load_raw_databases)

fun no_refs :: "pyval \<Rightarrow> bool" and no_refs_items :: "(string \<times> pyval) list \<Rightarrow> bool" and no_refs_list :: "pyval list \<Rightarrow> bool" where
  "no_refs (PStr s) = (CHR ''$'' \<notin> set s)"
| "no_refs (PDict items) = no_refs_items items"
| "no_refs (PList xs) = no_refs_list xs"
| "no_refs _ = True"
| "no_refs_items [] = True"
| "no_refs_items ((k, v) # items) = (no_refs v \<and> no_refs_items items)"
| "no_refs_list [] = True"
| "no_refs_list (x # xs) = (no_refs x \<and> no_refs_list xs)"

lemma expand_env_plain: "CHR ''$'' \<notin> set s \<Longrightarrow> expand_env environ s = Inr s"
  using expand_plain [of s environ "[]"] by (simp add: expand_env.simps [of _ "[]"] env_match_def)

lemma expand_no_refs:
  "no_refs v \<Longrightarrow> expand_tree environ v = Inr v"
  "no_refs_items items \<Longrightarrow> expand_items environ items = Inr items"
  "no_refs_list xs \<Longrightarrow> expand_list environ xs = Inr xs"
  by (induction v and items and xs rule: no_refs_no_refs_items_no_refs_list.induct) (simp_all add: expand_env_plain)

text \<open>C25. A valid configuration written as a document is read back as it was: every field is read under its own
  key, with the conversion that keeps it, by every builder down to the pools of the replicas; with expansion of
  environment references as long as no text contains one.\<close>

theorem config_roundtrip:
  assumes "validate c = Inr ()" "expand \<Longrightarrow> no_refs (PDict (raw_config c))"
  shows "from_dict rf environ expand (raw_config c) = Loaded c"
proof -
  have "(if expand then lift (expand_tree environ (PDict (raw_config c))) else Loaded (PDict (raw_config c))) = Loaded (PDict (raw_config c))"
    using assms(2) by (cases expand) (simp_all only: expand_no_refs if_True if_False lift_Inr)
  with assms(1) show ?thesis
    by (simp add: from_dict_def build_raw_config wrap_config_error_def)
qed

lemma config_roundtrip_witness:
  "from_dict (\<lambda>_. None) [] True (raw_config (sample_config None)) = Loaded (sample_config None)"
proof (rule config_roundtrip)
  show "validate (sample_config None) = Inr ()" by (rule sample_config_valid)
  show "no_refs (PDict (raw_config (sample_config None)))"
    by (simp add: raw_config_def sample_config_def raw_database_def raw_target_def sample_target_def raw_opt_def
        raw_concurrency_def raw_budget_def no_budget_def raw_defaults_def default_defaults_def raw_pool_def default_pool_def
        raw_retry_def default_retry_def raw_breaker_def default_circuit_breaker_def raw_bulk_def default_bulk_def
        raw_observability_def default_observability_def)
qed

subsection \<open>Failures\<close>

definition config_failure :: "raised \<Rightarrow> bool" where
  "config_failure e \<longleftrightarrow> (case e of DbErr d \<Rightarrow> err_class d = DatabaseConfigurationError | Foreign x \<Rightarrow> False)"

definition builder_failure :: "raised \<Rightarrow> bool" where
  "builder_failure e \<longleftrightarrow> config_failure e
     \<or> (\<exists>x. e = Foreign x \<and> (isinstance x CKeyError \<or> isinstance x CTypeError \<or> isinstance x CValueError \<or> isinstance x CAttributeError))"

definition fails_with :: "(raised \<Rightarrow> bool) \<Rightarrow> 'a load \<Rightarrow> bool" where
  "fails_with P m \<longleftrightarrow> (\<forall>e. m = Failed e \<longrightarrow> P e)"

named_theorems failures \<open>what a builder can raise\<close>

lemma fails_bind [failures]: "fails_with P m \<Longrightarrow> (\<And>x. fails_with P (f x)) \<Longrightarrow> fails_with P (load_bind m f)"
  by (cases m) (auto simp: fails_with_def)

lemma fails_basic [failures]: "fails_with P (Loaded x)" "fails_with P Untyped" "P e \<Longrightarrow> fails_with P (Failed e)"
  by (simp_all add: fails_with_def)

lemma fails_lift [failures]: "(\<And>e. r = Inl e \<Longrightarrow> P e) \<Longrightarrow> fails_with P (lift r)"
  by (cases r) (auto simp: fails_with_def)

lemma load_bind_Loaded_iff: "load_bind m f = Loaded y \<longleftrightarrow> (\<exists>x. m = Loaded x \<and> f x = Loaded y)"
  by (cases m) auto

lemma lift_Loaded_iff: "lift r = Loaded x \<longleftrightarrow> r = Inr x"
  by (cases r) auto

lemma fails_list [failures]: "(\<And>x. fails_with P (f x)) \<Longrightarrow> fails_with P (load_list f xs)"
  by (induction xs) (auto intro!: failures)

lemma builder_failureI:
  "py_raise c m = Inl e \<Longrightarrow> c \<in> {CKeyError, CTypeError, CValueError, CAttributeError} \<Longrightarrow> builder_failure e"
  by (auto simp: py_raise_def builder_failure_def)

lemma conversion_failures:
  "int_of_value v = Inl e \<Longrightarrow> builder_failure e"
  "float_of_value rf v = Inl e \<Longrightarrow> builder_failure e"
  "get_or data key d = Inl e \<Longrightarrow> builder_failure e"
  "items_of data = Inl e \<Longrightarrow> builder_failure e"
  "py_in key data = Inl e \<Longrightarrow> builder_failure e"
  "py_index data key = Inl e \<Longrightarrow> builder_failure e"
  "iter_values data = Inl e \<Longrightarrow> builder_failure e"
  by (auto simp: int_of_value_def int_of_text_def float_of_value_def get_or_def items_of_def py_in_def py_index_def
      iter_values_def split: pyval.splits option.splits dest: builder_failureI)

lemma fails_fields [failures]:
  "(\<And>v. fails_with builder_failure (conv v)) \<Longrightarrow> fails_with builder_failure (field_of conv data key d)"
  "fails_with builder_failure (int_field data key i)" "fails_with builder_failure (float_field rf data key r)"
  "fails_with builder_failure (bool_field data key b)" "fails_with builder_failure (int_or_none v)"
  "fails_with builder_failure (as_text v)" "fails_with builder_failure (as_optional_text v)"
  "fails_with builder_failure (as_optional_int v)"
proof -
  show field: "fails_with builder_failure (field_of conv data key d)" if "\<And>v. fails_with builder_failure (conv v)"
    for conv :: "pyval \<Rightarrow> 'x load" and data key d
    using that unfolding field_of_def by (auto intro!: failures dest: conversion_failures)
  show "fails_with builder_failure (int_field data key i)" "fails_with builder_failure (float_field rf data key r)"
    "fails_with builder_failure (bool_field data key b)"
    unfolding field_defs by (auto intro!: field failures dest: conversion_failures)
  show "fails_with builder_failure (int_or_none v)"
    unfolding int_or_none_def by (auto intro!: failures dest: conversion_failures split: pyval.split)
  show "fails_with builder_failure (as_text v)" "fails_with builder_failure (as_optional_text v)"
    "fails_with builder_failure (as_optional_int v)"
    by (cases v; simp add: failures)+
qed

lemma config_failed [failures]: "builder_failure (DbErr (new_error DatabaseConfigurationError msg no_kwargs))"
  by (simp add: builder_failure_def config_failure_def)

lemma fails_sections [failures]:
  "fails_with builder_failure (load_pool rf v)" "fails_with builder_failure (load_retry rf v)"
  "fails_with builder_failure (load_bulk v)" "fails_with builder_failure (load_circuit_breaker rf v)"
  "fails_with builder_failure (load_observability rf v)" "fails_with builder_failure (load_budget v)"
  "fails_with builder_failure (load_concurrency v)"
  unfolding load_pool_def load_retry_def load_bulk_def load_circuit_breaker_def load_observability_def
    load_budget_def load_concurrency_def
  by (cases v; simp only: pyval.case; intro failures; auto dest: conversion_failures)+

lemma fails_defaults [failures]: "fails_with builder_failure (load_defaults rf v)"
  unfolding load_defaults_def by (cases v; simp only: pyval.case; intro failures)

lemma fails_target [failures]: "fails_with builder_failure (load_target rf name v)"
  unfolding load_target_def by (auto intro!: failures dest: conversion_failures)

lemma fails_database [failures]: "fails_with builder_failure (load_database rf name v)"
  unfolding load_database_def load_replica_def by (auto intro!: failures dest: conversion_failures)

lemma fails_build: "fails_with builder_failure (build_config rf raw)"
  unfolding build_config_def by (auto intro!: failures dest: conversion_failures split: prod.split)

lemma expand_env_failure: "expand_env environ s = Inl e \<Longrightarrow> config_failure e"
proof (induction environ s rule: expand_env.induct)
  case (1 environ s)
  have env_val: "env_value environ n d = Inl e \<Longrightarrow> config_failure e" for n d
    by (auto simp: env_value_def config_error_def raise_db_def config_failure_def split: option.splits)
  note step = "1.prems" [unfolded expand_env.simps [of environ s]]
  show ?case
  proof (cases "env_match s")
    case None
    show ?thesis
    proof (cases s)
      case (Cons c cs)
      with step None have "expand_env environ cs = Inl e" by (simp add: sum_bind_Inl_iff)
      then show ?thesis using "1.IH"(1) [OF None Cons] by blast
    qed (use step None in simp)
  next
    case (Some m)
    obtain n d rest where m: "m = (n, d, rest)" by (cases m)
    with step Some consider "env_value environ n d = Inl e"
      | v where "env_value environ n d = Inr v" "expand_env environ rest = Inl e"
      by (auto simp: sum_bind_Inl_iff)
    then show ?thesis
    proof cases
      case 1
      then show ?thesis by (rule env_val)
    next
      case (2 v)
      then show ?thesis using "1.IH"(2) [OF Some m [symmetric] refl] by blast
    qed
  qed
qed

lemma expand_tree_failure:
  "expand_tree environ v = Inl e \<Longrightarrow> config_failure e"
  "expand_items environ items = Inl e \<Longrightarrow> config_failure e"
  "expand_list environ xs = Inl e \<Longrightarrow> config_failure e"
  by (induction environ v and environ items and environ xs rule: expand_tree_expand_items_expand_list.induct)
    (auto simp: sum_bind_Inl_iff dest: expand_env_failure)

lemma config_error_failure: "config_error msg = Inl e \<Longrightarrow> config_failure e"
  by (auto simp: config_error_def raise_db_def config_failure_def)

lemma each_sum_failure: "each_sum f xs = Inl e \<Longrightarrow> \<exists>x\<in>set xs. f x = Inl e"
  by (induction xs) (auto simp: sum_bind_Inl_iff)

definition bad_url :: "raised \<Rightarrow> bool" where
  "bad_url e \<longleftrightarrow> (\<exists>x. e = Foreign x \<and> isinstance x CValueError)"

lemma target_validate_failure: "target_validate t = Inl e \<Longrightarrow> config_failure e \<or> bad_url e"
  by (auto simp: target_validate_def sum_bind_Inl_iff url_parts_py_def value_error_def bad_url_def
      split: if_splits option.splits dest: config_error_failure)

lemma budget_failure: "budget_check b n msg = Inl e \<Longrightarrow> config_failure e"
  by (auto simp: budget_check_def split: option.splits if_splits dest: config_error_failure)

lemma defaults_validate_failure: "defaults_validate d = Inl e \<Longrightarrow> config_failure e"
  by (auto simp: defaults_validate_def sum_bind_Inl_iff pool_validate_def retry_validate_def circuit_breaker_validate_def
      split: if_splits dest: config_error_failure)

lemma validate_failure: "validate c = Inl e \<Longrightarrow> config_failure e \<or> bad_url e"
proof -
  have db: "database_validate db = Inl e \<Longrightarrow> config_failure e \<or> bad_url e" for db
    by (auto simp: database_validate_def sum_bind_Inl_iff dest!: each_sum_failure target_validate_failure)
  assume "validate c = Inl e"
  then show ?thesis
    by (auto simp: validate_def sum_bind_Inl_iff enforce_connection_budget_def database_enforce_connection_budget_def
        split: if_splits dest: defaults_validate_failure budget_failure config_error_failure db dest!: each_sum_failure)
qed

text \<open>What \<^verbatim>\<open>from_dict\<close> raises is a configuration error, whatever the document holds, except in
  two cases: a section that is not a mapping escapes as an \<^verbatim>\<open>AttributeError\<close>, and a malformed
  URL as the \<^verbatim>\<open>ValueError\<close> of the URL parser. A loaded configuration has passed its
  validation.\<close>

theorem from_dict_outcomes:
  "case from_dict rf environ expand data of
     Loaded c \<Rightarrow> validate c = Inr ()
   | Failed (DbErr d) \<Rightarrow> err_class d = DatabaseConfigurationError
   | Failed (Foreign x) \<Rightarrow> isinstance x CAttributeError \<or> isinstance x CValueError
   | Untyped \<Rightarrow> True"
proof -
  let ?raw = "if expand then lift (expand_tree environ (PDict data)) else Loaded (PDict data)"
  let ?P = "\<lambda>e. config_failure e \<or> (\<exists>x. e = Foreign x \<and> (isinstance x CAttributeError \<or> isinstance x CValueError))"
  have "fails_with ?P ?raw"
    by (auto intro!: failures dest: expand_tree_failure(1) simp del: expand_tree.simps)
  moreover have "fails_with ?P (wrap_config_error (build_config rf raw))" for raw
    using fails_build [of rf raw]
    by (auto simp: fails_with_def wrap_config_error_def builder_failure_def config_failure_def
        split: load.splits raised.splits if_splits)
  moreover have "fails_with ?P (lift (validate c))" for c
    by (auto intro!: failures dest!: validate_failure simp: bad_url_def)
  ultimately have "fails_with ?P (from_dict rf environ expand data)"
    unfolding from_dict_def by (intro fails_bind) (auto intro: failures)
  moreover have "validate c = Inr ()" if "from_dict rf environ expand data = Loaded c" for c
    using that unfolding from_dict_def by (auto simp only: load_bind_Loaded_iff lift_Loaded_iff load.inject unit_eq)
  ultimately show ?thesis
    by (auto simp: fails_with_def config_failure_def split: load.split raised.split)
qed

text \<open>A section that is not a mapping is not a configuration error.\<close>

lemma section_not_mapping:
  "\<exists>x. from_dict rf [] False [(''databases'', PStr ''app'')] = Failed (Foreign x) \<and> isinstance x CAttributeError"
  by (simp add: from_dict_def build_config_def reads items_of_def py_raise_def wrap_config_error_def)

text \<open>A boolean that comes from the environment is true whenever its text is not empty.\<close>

theorem boolean_text_is_true:
  "bool_field (PDict [(''enforce_at_startup'', PStr ''false'')]) ''enforce_at_startup'' False = Loaded True"
  by (simp add: bool_field_def reads truthy_def)

end
