(* ===== verification/Streaming.thy ===== *)
theory Streaming
  imports Facade
begin

text \<open>
  Result streams (\<^verbatim>\<open>_async/streaming.py\<close>, with \<^verbatim>\<open>stream_mappings\<close> of
  \<^verbatim>\<open>_compat.py\<close>): a stream holds one connection and a generator over a server-side cursor; rows are
  fetched one at a time while the consumer asks for them, and leaving the block gives the connection back.
\<close>

subsection \<open>The generator\<close>

text \<open>\<^verbatim>\<open>stream_mappings\<close> is a generator: creating it does nothing, the first request opens the
  cursor, and once it has ended or raised it stays exhausted.\<close>

datatype generator = GenFresh | GenOpen | GenDone

record stream_config =
  sc_statement :: statement_obj
  sc_params :: "pyval option"
  sc_batch_size :: int
  sc_mapper :: "pyval \<Rightarrow> pyval py"
  sc_database :: string
  sc_role :: string
  sc_query_name :: string
  sc_labels :: "(string, string) dict"
  sc_max_duration :: "real option"
  sc_traced :: bool

text \<open>The asynchronous build passes the batch size with the call, the synchronous one sets it on the
  connection first.\<close>

definition open_cursor :: "env \<Rightarrow> stream_config \<Rightarrow> pyval io" where
  "open_cursor w c =
     io_then
       (if env_async w then emit (DCall ''yield_per'' (PInt (sc_batch_size c)))
        else io_then (perform w (DCall ''yield_per'' (PInt (sc_batch_size c)))) (io_return ()))
       (perform w (DExecute (sc_statement c) (params_or_empty (sc_params c))))"

text \<open>The cursor answers a row, or \<^verbatim>\<open>None\<close> when there is none left.\<close>

definition next_row :: "env \<Rightarrow> effect list \<Rightarrow> pyval option py \<times> generator \<times> effect list" where
  "next_row w tr =
     (case env_answer w tr (DCursor ''next'') of
        Inl e \<Rightarrow> (Inl e, GenDone, tr @ [DCursor ''next''])
      | Inr v \<Rightarrow>
          (if v = PNone then (Inr None, GenDone, tr @ [DCursor ''next''])
           else (Inr (Some v), GenOpen, tr @ [DCursor ''next''])))"

fun gen_next :: "env \<Rightarrow> stream_config \<Rightarrow> generator \<Rightarrow> effect list \<Rightarrow> pyval option py \<times> generator \<times> effect list" where
  "gen_next w c GenDone tr = (Inr None, GenDone, tr)"
| "gen_next w c GenOpen tr = next_row w tr"
| "gen_next w c GenFresh tr =
     (case open_cursor w c tr of
        (Inl e, tr1) \<Rightarrow> (Inl e, GenDone, tr1)
      | (Inr _, tr1) \<Rightarrow> next_row w tr1)"

subsection \<open>The stream\<close>

record stream =
  st_conn :: bool
  st_gen :: "generator option"
  st_count :: nat
  st_started_at :: real
  st_span :: bool

definition new_stream :: stream where
  "new_stream = \<lparr>st_conn = False, st_gen = None, st_count = 0, st_started_at = 0, st_span = False\<rparr>"

definition stream_context :: "stream_config \<Rightarrow> err_context" where
  "stream_context c = \<lparr>ctx_query_name = Some (sc_query_name c), ctx_database_name = Some (sc_database c),
     ctx_shard_id = None, ctx_role = Some (sc_role c)\<rparr>"

type_synonym 'a stream_op = "stream \<Rightarrow> effect list \<Rightarrow> 'a py \<times> stream \<times> effect list"

definition cleanup :: "env \<Rightarrow> unit stream_op" where
  "cleanup w s tr =
     (case (if st_gen s \<noteq> None then suppress (perform w (DCall ''aclose'' PNone)) else io_return ()) tr of
        (Inl e, tr1) \<Rightarrow> (Inl e, s, tr1)
      | (Inr _, tr1) \<Rightarrow>
          (case (if st_conn s then suppress (perform w DClose) else io_return ()) tr1 of
             (Inl e, tr2) \<Rightarrow> (Inl e, s\<lparr>st_gen := None\<rparr>, tr2)
           | (Inr _, tr2) \<Rightarrow> (Inr (), s\<lparr>st_gen := None, st_conn := False\<rparr>, tr2)))"

text \<open>\<^verbatim>\<open>__aenter__\<close>: when connecting fails there is nothing to clean up yet, and the span that has been
  entered stays so.\<close>

definition stream_enter :: "env \<Rightarrow> stream_config \<Rightarrow> unit stream_op" where
  "stream_enter w c s tr =
     (let tr0 = (if sc_traced c then tr @ [TSpanEnter ''dbkit.stream''] else tr);
          s0 = s\<lparr>st_span := sc_traced c\<rparr>
      in case env_answer w tr0 DConnect of
           Inl e \<Rightarrow>
             (if is_exception e then
                (case cleanup w s0 (tr0 @ [DConnect]) of
                   (Inl e', s1, tr1) \<Rightarrow> (Inl e', s1, tr1)
                 | (Inr _, s1, tr1) \<Rightarrow> (Inl (DbErr (classify e (stream_context c))), s1, tr1))
              else (Inl e, s0, tr0 @ [DConnect]))
         | Inr _ \<Rightarrow>
             (Inr (), s0\<lparr>st_conn := True, st_gen := Some GenFresh, st_started_at := env_clock w (tr0 @ [DConnect])\<rparr>,
              tr0 @ [DConnect, DClock]))"

definition stream_timeout :: "stream_config \<Rightarrow> db_error" where
  "stream_timeout c =
     new_error DatabaseQueryTimeoutError (''stream '' @ quoted (sc_query_name c) @ '' exceeded max duration'')
       (no_kwargs\<lparr>kw_query_name := Some (sc_query_name c), kw_database_name := Some (sc_database c),
                  kw_role := Some (sc_role c)\<rparr>)"

text \<open>\<^verbatim>\<open>__anext__\<close>: a mapped row, or \<open>None\<close> for \<^verbatim>\<open>StopAsyncIteration\<close>.\<close>

definition stream_next :: "env \<Rightarrow> stream_config \<Rightarrow> pyval option stream_op" where
  "stream_next w c s tr =
     (case st_gen s of
        None \<Rightarrow> (Inl (Foreign (plain_exn [CException] ''AssertionError'')), s, tr)
      | Some g \<Rightarrow>
          (let late = (case sc_max_duration c of None \<Rightarrow> False | Some d \<Rightarrow> env_clock w tr - st_started_at s > d);
               tr0 = (if sc_max_duration c = None then tr else tr @ [DClock])
           in if late then (Inl (DbErr (stream_timeout c)), s, tr0)
              else
                (case gen_next w c g tr0 of
                   (Inl e, g', tr1) \<Rightarrow>
                     (Inl (if is_exception e then DbErr (classify e (stream_context c)) else e), s\<lparr>st_gen := Some g'\<rparr>, tr1)
                 | (Inr None, g', tr1) \<Rightarrow>
                     (Inr None, s\<lparr>st_gen := Some g'\<rparr>, tr1 @ [MObserve ''db_stream_rows_total'' (real (st_count s)) (sc_labels c)])
                 | (Inr (Some row), g', tr1) \<Rightarrow>
                     (case sc_mapper c row of
                        Inl e \<Rightarrow> (Inl e, s\<lparr>st_gen := Some g', st_count := st_count s + 1\<rparr>, tr1)
                      | Inr v \<Rightarrow> (Inr (Some v), s\<lparr>st_gen := Some g', st_count := st_count s + 1\<rparr>, tr1)))))"

definition stream_exit :: "env \<Rightarrow> unit stream_op" where
  "stream_exit w s tr =
     (case cleanup w s tr of
        (Inl e, s1, tr1) \<Rightarrow> (Inl e, s1, tr1)
      | (Inr _, s1, tr1) \<Rightarrow> (Inr (), s1, if st_span s1 then tr1 @ [TSpanExit] else tr1))"

text \<open>A consumer that takes at most \<open>n\<close> rows: \<^verbatim>\<open>async for row in rows\<close> with a \<^verbatim>\<open>break\<close>.\<close>

fun take_rows :: "env \<Rightarrow> stream_config \<Rightarrow> (pyval \<Rightarrow> unit io) \<Rightarrow> nat \<Rightarrow> unit stream_op" where
  "take_rows w c handle 0 s tr = (Inr (), s, tr)"
| "take_rows w c handle (Suc n) s tr =
     (case stream_next w c s tr of
        (Inl e, s1, tr1) \<Rightarrow> (Inl e, s1, tr1)
      | (Inr None, s1, tr1) \<Rightarrow> (Inr (), s1, tr1)
      | (Inr (Some row), s1, tr1) \<Rightarrow>
          (case handle row tr1 of
             (Inl e, tr2) \<Rightarrow> (Inl e, s1, tr2)
           | (Inr _, tr2) \<Rightarrow> take_rows w c handle n s1 tr2))"

definition with_stream :: "env \<Rightarrow> stream_config \<Rightarrow> unit stream_op \<Rightarrow> effect list \<Rightarrow> unit py \<times> effect list" where
  "with_stream w c body tr =
     (case stream_enter w c new_stream tr of
        (Inl e, _, tr1) \<Rightarrow> (Inl e, tr1)
      | (Inr _, s1, tr1) \<Rightarrow>
          (case body s1 tr1 of
             (r, s2, tr2) \<Rightarrow>
               (case stream_exit w s2 tr2 of
                  (Inl e, _, tr3) \<Rightarrow> (Inl e, tr3)
                | (Inr _, _, tr3) \<Rightarrow> (r, tr3))))"

text \<open>\<^verbatim>\<open>AsyncDatabase.stream\<close>: the stream for a target.\<close>

definition db_stream ::
  "('r, 's) world \<Rightarrow> query_obj \<Rightarrow> pyval option \<Rightarrow> target \<Rightarrow> int \<Rightarrow> map_to \<Rightarrow> real option \<Rightarrow> bool
     \<Rightarrow> ('r, 's, stream_config) facade_op" where
  "db_stream w q params t batch_size mt max_duration traced tr st =
     (case lookup_entry w t (env_clock (wd_env w) tr) st of
        (Inl e, st1) \<Rightarrow> (Inl e, tr, st1)
      | (Inr entry, st1) \<Rightarrow>
          (sum_bind (coerce_statement q) (\<lambda>statement.
           sum_bind (build_mapper mt) (\<lambda>mapper.
             case query_meta q of (query_name, operation, _) \<Rightarrow>
               Inr \<lparr>sc_statement = statement, sc_params = params, sc_batch_size = batch_size, sc_mapper = mapper,
                    sc_database = ek_database (ee_key entry), sc_role = ek_role (ee_key entry),
                    sc_query_name = query_name, sc_labels = executor_labels (wd_env w) (ee_key entry) query_name operation,
                    sc_max_duration = max_duration, sc_traced = traced\<rparr>)), tr, st1))"

subsection \<open>The connection of a stream\<close>

text \<open>What the connection, the generator and an observation of the trace are after a step of an open stream.\<close>

definition keeps_stream :: "(effect list \<Rightarrow> 'o) \<Rightarrow> stream \<times> effect list \<Rightarrow> stream \<times> effect list \<Rightarrow> bool" where
  "keeps_stream obs a b \<longleftrightarrow> st_conn (fst b) = st_conn (fst a) \<and> st_span (fst b) = st_span (fst a)
     \<and> (st_gen (fst a) \<noteq> None \<longrightarrow> st_gen (fst b) \<noteq> None) \<and> obs (snd b) = obs (snd a)"

lemma quiet_open_cursor: "quiet (open_cursor w c)"
  unfolding open_cursor_def by (auto intro!: quiet_intros)

lemma next_row_life: "next_row w tr = (r, g, tr') \<Longrightarrow> life tr' = life tr"
  by (auto simp: next_row_def split: sum.splits if_splits)

lemma gen_next_life: "gen_next w c g tr = (r, g', tr') \<Longrightarrow> life tr' = life tr"
  using keepsD [OF quiet_open_cursor, of w c tr]
  by (cases g) (auto split: prod.splits sum.splits dest: next_row_life)

lemma stream_next_keeps:
  "stream_next w c s tr = (r, s', tr') \<Longrightarrow> keeps_stream life (s, tr) (s', tr')"
proof (cases "st_gen s")
  case None
  then show "stream_next w c s tr = (r, s', tr') \<Longrightarrow> ?thesis" by (auto simp: stream_next_def keeps_stream_def)
next
  case (Some g)
  define tr0 where "tr0 = (if sc_max_duration c = None then tr else tr @ [DClock])"
  obtain x g' tr1 where g: "gen_next w c g tr0 = (x, g', tr1)" by (cases "gen_next w c g tr0")
  have "life tr1 = life tr" using gen_next_life [OF g] by (simp add: tr0_def)
  moreover assume "stream_next w c s tr = (r, s', tr')"
  ultimately show ?thesis
    using Some g by (auto simp: stream_next_def keeps_stream_def tr0_def [symmetric] Let_def split: sum.splits option.splits if_splits)
      (auto simp: tr0_def split: if_splits)
qed

lemma take_rows_keeps:
  assumes "\<And>x. quiet (handle x)"
  shows "take_rows w c handle n s tr = (r, s', tr') \<Longrightarrow> keeps_stream life (s, tr) (s', tr')"
proof (induction n arbitrary: s tr)
  case 0
  then show ?case by (simp add: keeps_stream_def)
next
  case (Suc n)
  obtain x s1 tr1 where n: "stream_next w c s tr = (x, s1, tr1)" by (cases "stream_next w c s tr")
  note k = stream_next_keeps [OF n]
  show ?case
  proof (cases "\<exists>row. x = Inr (Some row)")
    case False
    with Suc.prems n k show ?thesis by (auto split: sum.splits option.splits)
  next
    case True
    then obtain row where row: "x = Inr (Some row)" by blast
    obtain y tr2 where h: "handle row tr1 = (y, tr2)" by (cases "handle row tr1")
    then have "life tr2 = life tr1" using keepsD [OF assms, of row tr1] by simp
    with Suc n k row h show ?thesis
      by (cases y) (auto simp: keeps_stream_def dest!: Suc.IH)
  qed
qed

lemma suppressed: "\<exists>r. suppress (perform w e) tr = (r, tr @ [e]) \<and> ((\<forall>x. env_answer w tr e = Inl x \<longrightarrow> is_exception x) \<longrightarrow> r = Inr ())"
  by (auto simp: io_defs split: sum.split)

lemma exit_closes:
  assumes "st_conn s" "st_gen s \<noteq> None" "\<forall>tr e. env_answer w tr (DCall ''aclose'' PNone) = Inl e \<longrightarrow> is_exception e"
    and "stream_exit w s tr = (r, s', tr')"
  shows "life tr' = life tr @ [DClose]"
proof -
  obtain a where a: "suppress (perform w (DCall ''aclose'' PNone)) tr = (Inr (), tr @ [DCall ''aclose'' PNone])"
    using suppressed [of w "DCall ''aclose'' PNone" tr] assms(3) by auto
  obtain b where "suppress (perform w DClose) (tr @ [DCall ''aclose'' PNone]) = (b, tr @ [DCall ''aclose'' PNone, DClose])"
    using suppressed [of w DClose "tr @ [DCall ''aclose'' PNone]"] by auto
  with a assms show ?thesis
    by (cases b) (auto simp: stream_exit_def cleanup_def split: if_splits)
qed

lemma stream_enter_ok:
  assumes "tr0 = (if sc_traced c then tr @ [TSpanEnter ''dbkit.stream''] else tr)" "env_answer w tr0 DConnect = Inr v"
  shows "stream_enter w c new_stream tr =
    (Inr (), new_stream\<lparr>st_span := sc_traced c, st_conn := True, st_gen := Some GenFresh, st_started_at := env_clock w (tr0 @ [DConnect])\<rparr>,
     tr0 @ [DConnect, DClock])"
  using assms by (simp add: stream_enter_def assms(1) [symmetric])


definition sample_stream :: stream_config where
  "sample_stream = \<lparr>sc_statement = TextClause ''SELECT 1'', sc_params = None, sc_batch_size = 100, sc_mapper = Inr,
     sc_database = ''app'', sc_role = ''primary'', sc_query_name = ''export'', sc_labels = [],
     sc_max_duration = None, sc_traced = True\<rparr>"


subsection \<open>The rows a consumer gets\<close>

text \<open>How many rows were fetched in a trace, and what the consumer was handed when it notes every row.\<close>

definition reads :: "effect list \<Rightarrow> nat" where
  "reads tr = length (filter (\<lambda>e. e = DCursor ''next'') tr)"

definition note_row :: "pyval \<Rightarrow> unit io" where
  "note_row v = emit (DCall ''row'' v)"

fun noted :: "effect list \<Rightarrow> pyval list" where
  "noted [] = []"
| "noted (DCall name v # tr) = (if name = ''row'' then v # noted tr else noted tr)"
| "noted (_ # tr) = noted tr"

lemma noted_append [simp]: "noted (xs @ ys) = noted xs @ noted ys"
  by (induction xs rule: noted.induct) auto

lemma reads_append [simp]: "reads (xs @ ys) = reads xs + reads ys"
  by (simp add: reads_def)

lemma reads_simps [simp]: "reads [] = 0" "reads (e # tr) = (if e = DCursor ''next'' then Suc (reads tr) else reads tr)"
  by (simp_all add: reads_def)

text \<open>A driver that fails nothing and answers the rows of a result in order.\<close>

definition serves :: "env \<Rightarrow> pyval list \<Rightarrow> bool" where
  "serves w rows \<longleftrightarrow> all_ok w \<and> PNone \<notin> set rows
     \<and> (\<forall>tr. env_answer w tr (DCursor ''next'') = Inr (if reads tr < length rows then rows ! reads tr else PNone))"

lemma open_cursor_serves:
  assumes "serves w rows"
  shows "\<exists>v tr'. open_cursor w c tr = (Inr v, tr') \<and> reads tr' = reads tr \<and> noted tr' = noted tr"
proof -
  have "keeps reads (open_cursor w c)" "keeps noted (open_cursor w c)"
    unfolding open_cursor_def by (auto intro!: quiet_intros)
  moreover have "succeeds (open_cursor w c)"
    unfolding open_cursor_def using assms
    by (auto simp: serves_def intro!: succeeds_then succeeds_basic split: if_splits)
  ultimately show ?thesis
    by (metis keeps_def succeeds_def prod.collapse)
qed

lemma gen_next_serves:
  assumes "serves w rows" "g \<noteq> GenDone"
  shows "\<exists>tr1. reads tr1 = reads tr \<and> noted tr1 = noted tr
    \<and> gen_next w c g tr = (if reads tr < length rows then (Inr (Some (rows ! reads tr)), GenOpen, tr1 @ [DCursor ''next''])
                           else (Inr None, GenDone, tr1 @ [DCursor ''next'']))"
proof -
  obtain tr1 where tr1: "gen_next w c g tr = next_row w tr1" "reads tr1 = reads tr" "noted tr1 = noted tr"
    using assms(2) open_cursor_serves [OF assms(1), of c tr] by (cases g) auto
  have "rows ! reads tr \<noteq> PNone" if "reads tr < length rows"
    using assms(1) nth_mem [OF that] by (auto simp: serves_def)
  then show ?thesis using tr1 assms(1) by (auto simp: next_row_def serves_def)
qed

lemma take_rows_serves:
  assumes "serves w rows" "\<And>row. row \<in> set rows \<Longrightarrow> sc_mapper c row = Inr (f row)" "sc_max_duration c = None"
  shows "st_gen s = Some g \<Longrightarrow> g \<noteq> GenDone \<Longrightarrow> reads tr \<le> length rows \<Longrightarrow>
    \<exists>s' tr'. take_rows w c note_row n s tr = (Inr (), s', tr')
      \<and> noted tr' = noted tr @ map f (take n (drop (reads tr) rows))
      \<and> reads tr' = reads tr + min n (length rows - reads tr + 1)"
proof (induction n arbitrary: s g tr)
  case 0
  then show ?case by simp
next
  case (Suc n)
  obtain tr1 where tr1: "reads tr1 = reads tr" "noted tr1 = noted tr"
    and gen: "gen_next w c g tr = (if reads tr < length rows then (Inr (Some (rows ! reads tr)), GenOpen, tr1 @ [DCursor ''next''])
                                   else (Inr None, GenDone, tr1 @ [DCursor ''next'']))"
    using gen_next_serves [OF assms(1) Suc.prems(2), of tr c] by blast
  show ?case
  proof (cases "reads tr < length rows")
    case False
    then show ?thesis using Suc.prems tr1 gen assms(3) by (simp add: stream_next_def)
  next
    case True
    let ?tr2 = "tr1 @ [DCursor ''next'', DCall ''row'' (f (rows ! reads tr))]"
    let ?s = "s\<lparr>st_gen := Some GenOpen, st_count := st_count s + 1\<rparr>"
    have "take_rows w c note_row (Suc n) s tr = take_rows w c note_row n ?s ?tr2"
      using True Suc.prems gen assms(2) [of "rows ! reads tr"] assms(3)
      by (simp add: stream_next_def note_row_def emit_def)
    moreover have "reads ?tr2 = Suc (reads tr)" "noted ?tr2 = noted tr @ [f (rows ! reads tr)]"
      using tr1 by simp_all
    ultimately show ?thesis
      using Suc.IH [of ?s GenOpen ?tr2] True by (auto simp: Cons_nth_drop_Suc [symmetric])
  qed
qed

lemma exit_serves:
  assumes "all_ok w"
  shows "\<exists>s' tr'. stream_exit w s tr = (Inr (), s', tr') \<and> noted tr' = noted tr \<and> reads tr' = reads tr"
proof -
  have ok: "suppress (perform w e) tr = (Inr (), tr @ [e])" for e tr
  proof -
    obtain v where "env_answer w tr e = Inr v" using assms by (auto simp: all_ok_def)
    then show ?thesis by (simp add: io_defs)
  qed
  then show ?thesis by (auto simp: stream_exit_def cleanup_def io_return_def)
qed

text \<open>C22. Over a driver that serves a result, a consumer that stops after \<open>n\<close> rows is handed exactly the
  first \<open>n\<close> mapped rows, in order, and at most one row more than those is ever fetched, however long the result:
  memory stays bounded, and a stream that is read to its end misses nothing.\<close>

theorem stream_delivers_rows:
  assumes "serves w rows" "\<forall>row\<in>set rows. sc_mapper c row = Inr (f row)" "sc_max_duration c = None"
  shows "\<exists>tr'. with_stream w c (take_rows w c note_row n) [] = (Inr (), tr')
    \<and> noted tr' = map f (take n rows) \<and> reads tr' = min n (length rows + 1)"
proof -
  define tr0 where "tr0 = (if sc_traced c then [] @ [TSpanEnter ''dbkit.stream''] else [])"
  let ?s = "new_stream\<lparr>st_span := sc_traced c, st_conn := True, st_gen := Some GenFresh, st_started_at := env_clock w (tr0 @ [DConnect])\<rparr>"
  have ok: "all_ok w" using assms(1) by (simp add: serves_def)
  then obtain v where "env_answer w tr0 DConnect = Inr v" unfolding all_ok_def by blast
  then have enter: "stream_enter w c new_stream [] = (Inr (), ?s, tr0 @ [DConnect, DClock])"
    using stream_enter_ok [OF tr0_def] by blast
  have start: "noted (tr0 @ [DConnect, DClock]) = []" "reads (tr0 @ [DConnect, DClock]) = 0"
    by (simp_all add: tr0_def)
  obtain s' tr1 where body: "take_rows w c note_row n ?s (tr0 @ [DConnect, DClock]) = (Inr (), s', tr1)"
    and rows: "noted tr1 = map f (take n rows)" "reads tr1 = min n (length rows + 1)"
    using take_rows_serves [OF assms(1) _ assms(3), of f ?s GenFresh "tr0 @ [DConnect, DClock]" n] assms(2) start by auto
  obtain s'' tr' where exit: "stream_exit w s' tr1 = (Inr (), s'', tr')" "noted tr' = noted tr1" "reads tr' = reads tr1"
    using exit_serves [OF ok] by blast
  then show ?thesis using enter body rows by (auto simp: with_stream_def)
qed

definition serving :: "pyval list \<Rightarrow> env" where
  "serving rows = \<lparr>env_answer = (\<lambda>tr e. Inr (if e = DCursor ''next'' \<and> reads tr < length rows then rows ! reads tr else PNone)),
     env_clock = (\<lambda>tr. 0), env_async = True\<rparr>"

lemma serves_serving: "PNone \<notin> set rows \<Longrightarrow> serves (serving rows) rows"
  by (simp add: serves_def serving_def all_ok_def)

lemma sample_stream_plain: "sc_mapper sample_stream v = Inr v" "sc_max_duration sample_stream = None" "sc_traced sample_stream"
  by (simp_all add: sample_stream_def)

theorem stream_delivers_rows_witness:
  "\<exists>tr'. with_stream (serving [PInt 1, PInt 2, PInt 3]) sample_stream (take_rows (serving [PInt 1, PInt 2, PInt 3]) sample_stream note_row 2) [] = (Inr (), tr')
    \<and> noted tr' = [PInt 1, PInt 2] \<and> reads tr' = 2"
  using stream_delivers_rows [of "serving [PInt 1, PInt 2, PInt 3]" "[PInt 1, PInt 2, PInt 3]" sample_stream "\<lambda>v. v" 2]
  by (simp add: serves_serving sample_stream_plain numeral_2_eq_2)

text \<open>A stream whose connection cannot be opened leaves its tracing span open: the span is entered before
  connecting, and \<^verbatim>\<open>__aexit__\<close>, which would leave it, is never called.\<close>

theorem stream_span_leaks:
  assumes "sc_traced c" "env_answer w [TSpanEnter ''dbkit.stream''] DConnect = Inl e"
  shows "\<exists>e'. with_stream w c body [] = (Inl e', [TSpanEnter ''dbkit.stream'', DConnect])"
  using assms by (auto simp: with_stream_def stream_enter_def cleanup_def new_stream_def io_return_def Let_def)

theorem stream_span_leaks_witness:
  "\<exists>e'. with_stream (sample_env True [(DConnect, net_down)]) sample_stream (take_rows (sample_env True [(DConnect, net_down)]) sample_stream note_row 1) []
     = (Inl e', [TSpanEnter ''dbkit.stream'', DConnect])"
  using stream_span_leaks [of sample_stream "sample_env True [(DConnect, net_down)]" net_down "take_rows (sample_env True [(DConnect, net_down)]) sample_stream note_row 1"]
  by (simp add: sample_stream_plain)

end
