(* ===== verification/Health.thy ===== *)
theory Health
  imports Facade
begin

text \<open>
  Liveness and readiness (\<^verbatim>\<open>_async/health.py\<close>, and \<^verbatim>\<open>start\<close>, \<^verbatim>\<open>health\<close> and
  \<^verbatim>\<open>require_ready\<close> of \<^verbatim>\<open>_async/database.py\<close>): a required database is ready when its
  primary answers a trivial statement.
\<close>

subsection \<open>Pinging an engine\<close>

record target_health =
  th_key :: string
  th_healthy :: bool
  th_error :: "string option"

record health_report =
  hr_live :: bool
  hr_ready :: bool
  hr_targets :: "target_health list"

definition health_to_dict :: "health_report \<Rightarrow> pyval" where
  "health_to_dict r = PDict
     [(''live'', PBool (hr_live r)), (''ready'', PBool (hr_ready r)),
      (''targets'', PList (map (\<lambda>t. PDict
         [(''key'', PStr (th_key t)), (''healthy'', PBool (th_healthy t)),
          (''error'', case th_error t of None \<Rightarrow> PNone | Some e \<Rightarrow> PStr e)]) (hr_targets r)))]"

text \<open>\<^verbatim>\<open>async with timeout_scope(timeout), engine.connect() as conn\<close>: connecting happens within the
  deadline too, and the connection is closed on every way out.\<close>

definition ping_body :: "env \<Rightarrow> unit io" where
  "ping_body w =
     io_then (perform w DConnect)
       (try_finally (io_then (perform w (DExecute (TextClause ''SELECT 1'') PNone)) (io_return ()))
          (io_then (perform w DClose) (io_return ())))"

definition ping :: "env \<Rightarrow> real \<Rightarrow> unit io" where
  "ping w timeout =
     except_exception (timeout_scope w (Some timeout) (ping_body w)) (\<lambda>exc. io_raise (DbErr (classify exc no_context)))"

subsection \<open>Starting and checking the facade\<close>

definition primary_engine :: "('r, 's) world \<Rightarrow> string \<Rightarrow> ('r, 's, engine_entry) facade_op" where
  "primary_engine w name tr st =
     (case registry_get_engine (wd_create w) (env_clock (wd_env w) tr) (primary_route name ''default'') (fd_registry (snd st)) of
        (x, _, reg) \<Rightarrow> (x, tr, (fst st, (snd st)\<lparr>fd_registry := reg\<rparr>)))"

definition ping_timeout :: "'s facade \<Rightarrow> real" where
  "ping_timeout f = d_query_timeout_seconds (defaults (fd_config f))"

fun warm_engines :: "('r, 's) world \<Rightarrow> bool \<Rightarrow> (string \<times> database_config) list \<Rightarrow> ('r, 's, unit) facade_op" where
  "warm_engines w warm [] tr st = (Inr (), tr, st)"
| "warm_engines w warm ((name, db) # dbs) tr st =
     (if t_required (db_primary db) then
        (case primary_engine w name tr st of
           (Inl e, tr1, st1) \<Rightarrow> (Inl e, tr1, st1)
         | (Inr _, tr1, st1) \<Rightarrow>
             (case (if warm then ping (wd_env w) (ping_timeout (snd st1)) else io_return ()) tr1 of
                (Inl e, tr2) \<Rightarrow> (Inl e, tr2, st1)
              | (Inr _, tr2) \<Rightarrow> warm_engines w warm dbs tr2 st1))
      else warm_engines w warm dbs tr st)"

definition db_start :: "('r, 's) world \<Rightarrow> bool \<Rightarrow> ('r, 's, unit) facade_op" where
  "db_start w warm tr st =
     (if fd_started (snd st) then (Inr (), tr, st)
      else
        (case validate (fd_config (snd st)) of
           Inl e \<Rightarrow> (Inl e, tr, st)
         | Inr _ \<Rightarrow>
             (case warm_engines w warm (databases (fd_config (snd st))) tr st of
                (Inl e, tr1, st1) \<Rightarrow> (Inl e, tr1, st1)
              | (Inr _, tr1, st1) \<Rightarrow> (Inr (), tr1, (fst st1, (snd st1)\<lparr>fd_started := True\<rparr>)))))"

definition check_target :: "('r, 's) world \<Rightarrow> string \<Rightarrow> ('r, 's, unit) facade_op" where
  "check_target w name tr st =
     (case primary_engine w name tr st of
        (Inl e, tr1, st1) \<Rightarrow> (Inl e, tr1, st1)
      | (Inr _, tr1, st1) \<Rightarrow> (case ping (wd_env w) (ping_timeout (snd st1)) tr1 of (x, tr2) \<Rightarrow> (x, tr2, st1)))"

text \<open>The targets of a report, in the order of the configuration; what is not an \<^verbatim>\<open>Exception\<close>
  leaves the loop.\<close>

fun check_targets ::
  "('r, 's) world \<Rightarrow> (string \<times> database_config) list \<Rightarrow> ('r, 's, target_health list) facade_op" where
  "check_targets w [] tr st = (Inr [], tr, st)"
| "check_targets w ((name, db) # dbs) tr st =
     (if \<not> t_required (db_primary db) then check_targets w dbs tr st
      else
        (case check_target w name tr st of
           (x, tr1, st1) \<Rightarrow>
             (case x of
                Inl e \<Rightarrow>
                  if is_exception e then
                    (case check_targets w dbs tr1 st1 of
                       (Inl e', tr2, st2) \<Rightarrow> (Inl e', tr2, st2)
                     | (Inr ts, tr2, st2) \<Rightarrow>
                         (Inr (\<lparr>th_key = name @ ''.primary'', th_healthy = False, th_error = Some (exn_text e)\<rparr> # ts), tr2, st2))
                  else (Inl e, tr1, st1)
              | Inr _ \<Rightarrow>
                  (case check_targets w dbs tr1 st1 of
                     (Inl e', tr2, st2) \<Rightarrow> (Inl e', tr2, st2)
                   | (Inr ts, tr2, st2) \<Rightarrow>
                       (Inr (\<lparr>th_key = name @ ''.primary'', th_healthy = True, th_error = None\<rparr> # ts), tr2, st2)))))"

definition health :: "('r, 's) world \<Rightarrow> ('r, 's, health_report) facade_op" where
  "health w tr st =
     (case check_targets w (databases (fd_config (snd st))) tr st of
        (Inl e, tr1, st1) \<Rightarrow> (Inl e, tr1, st1)
      | (Inr ts, tr1, st1) \<Rightarrow> (Inr \<lparr>hr_live = True, hr_ready = list_all th_healthy ts, hr_targets = ts\<rparr>, tr1, st1))"

definition not_ready :: "target_health list \<Rightarrow> raised" where
  "not_ready ts = DbErr (new_error DatabaseError
     (''required databases not ready: ''
        @ ''['' @ join_with '', '' (map (\<lambda>t. quoted (th_key t)) (filter (\<lambda>t. \<not> th_healthy t) ts)) @ '']'') no_kwargs)"

definition require_ready :: "('r, 's) world \<Rightarrow> ('r, 's, unit) facade_op" where
  "require_ready w tr st =
     (case health w tr st of
        (Inl e, tr1, st1) \<Rightarrow> (Inl e, tr1, st1)
      | (Inr rep, tr1, st1) \<Rightarrow> ((if hr_ready rep then Inr () else Inl (not_ready (hr_targets rep))), tr1, st1))"

subsection \<open>What a ping does\<close>

lemma ping_body_cases:
  "(case env_answer w tr DConnect of
      Inl e \<Rightarrow> ping_body w tr = (Inl e, tr @ [DConnect])
    | Inr _ \<Rightarrow> snd (ping_body w tr) = tr @ [DConnect, DExecute (TextClause ''SELECT 1'') PNone, DClose])"
  by (auto simp: ping_body_def io_defs split: sum.splits)

text \<open>A ping gives its connection back and changes nothing: connecting fails, or the connection it opens is
  closed, once, and nothing is committed.\<close>

lemma ping_life: "life (snd (ping w t tr)) = life tr @ [DConnect] \<or> life (snd (ping w t tr)) = life tr @ [DConnect, DClose]"
proof -
  have body: "life (snd (ping_body w tr')) = life tr' @ [DConnect] \<or> life (snd (ping_body w tr')) = life tr' @ [DConnect, DClose]" for tr'
    using ping_body_cases [of w tr'] by (auto split: sum.splits)
  show ?thesis
    using body [of tr] body [of "tr @ [DEnterTimeout t]"]
    by (auto simp: ping_def timeout_scope_def except_exception_def try_except_def io_then_def io_bind_def emit_def
        perform_def io_raise_def split: prod.splits sum.splits)
qed

definition only_exceptions :: "env \<Rightarrow> bool" where
  "only_exceptions w \<longleftrightarrow> (\<forall>tr e x. env_answer w tr e = Inl x \<longrightarrow> is_exception x)"

lemma ping_errors: "ping w t tr = (Inl e, tr') \<Longrightarrow> only_exceptions w \<Longrightarrow> \<exists>d. e = DbErr d"
  by (auto simp: ping_def ping_body_def only_exceptions_def timeout_scope_def io_defs is_exception_def
      split: prod.splits sum.splits if_splits)

text \<open>The statements of a trace that the database answered, the trace given backwards.\<close>

definition trivial_statement :: effect where
  "trivial_statement = DExecute (TextClause ''SELECT 1'') PNone"

fun served_rev :: "env \<Rightarrow> effect list \<Rightarrow> nat" where
  "served_rev w [] = 0"
| "served_rev w (e # past) =
     (case env_answer w (rev past) e of Inr _ \<Rightarrow> if e = trivial_statement then 1 else 0 | Inl _ \<Rightarrow> 0) + served_rev w past"

definition served :: "env \<Rightarrow> effect list \<Rightarrow> nat" where
  "served w tr = served_rev w (rev tr)"

lemma served_snoc: "served w (tr @ [e]) =
    (case env_answer w tr e of Inr _ \<Rightarrow> if e = trivial_statement then 1 else 0 | Inl _ \<Rightarrow> 0) + served w tr"
  by (simp add: served_def)

lemma served_other: "e \<noteq> trivial_statement \<Longrightarrow> served w (tr @ [e]) = served w tr"
  by (simp add: served_snoc split: sum.split)

lemma ping_body_served:
  "ping_body w tr = (r, tr') \<Longrightarrow> served w tr + (case r of Inr _ \<Rightarrow> 1 | Inl _ \<Rightarrow> 0) \<le> served w tr'"
proof -
  have close: "served w (tr @ [DConnect, trivial_statement, DClose]) = served w (tr @ [DConnect, trivial_statement])"
    using served_other [of DClose w "tr @ [DConnect, trivial_statement]"] by (simp add: trivial_statement_def)
  have conn: "served w (tr @ [DConnect]) = served w tr"
    by (rule served_other) (simp add: trivial_statement_def)
  have stmt: "served w (tr @ [DConnect, trivial_statement]) =
      (case env_answer w (tr @ [DConnect]) trivial_statement of Inr _ \<Rightarrow> 1 | Inl _ \<Rightarrow> 0) + served w tr"
    using served_snoc [of w "tr @ [DConnect]" trivial_statement] conn by simp
  show "ping_body w tr = (r, tr') \<Longrightarrow> ?thesis"
    by (auto simp: ping_body_def io_defs trivial_statement_def [symmetric] close conn stmt split: sum.splits prod.splits)
qed

lemma timeout_scope_cases:
  assumes "timeout_scope w s m tr = (r, tr')"
  obtains "m tr = (r, tr')"
  | t r1 t1 where "m (tr @ [DEnterTimeout t]) = (r1, t1)" "isl r = isl r1" "tr' = t1 \<or> tr' = t1 @ [DExitTimeout]"
proof (cases "s = None \<or> \<not> env_async w \<or> the s \<le> 0")
  case True
  with assms that(1) show thesis by (auto simp: timeout_scope_def split: option.splits)
next
  case False
  then obtain t where s: "s = Some t" "env_async w" "0 < t" by auto
  obtain r1 t1 where m: "m (tr @ [DEnterTimeout t]) = (r1, t1)" by (cases "m (tr @ [DEnterTimeout t])")
  have "isl r = isl r1 \<and> (tr' = t1 \<or> tr' = t1 @ [DExitTimeout])"
    using assms s m by (cases r1) (auto simp: timeout_scope_def io_defs split: if_splits sum.splits)
  with that(2) [OF m] show thesis by blast
qed

lemma ping_served:
  "ping w t tr = (r, tr') \<Longrightarrow> served w tr + (case r of Inr _ \<Rightarrow> 1 | Inl _ \<Rightarrow> 0) \<le> served w tr'"
proof -
  have e: "served w (tr'' @ [DEnterTimeout s]) = served w tr''" "served w (tr'' @ [DExitTimeout]) = served w tr''" for tr'' s
    by (simp_all add: served_other trivial_statement_def)
  obtain r0 t0 where scope: "timeout_scope w (Some t) (ping_body w) tr = (r0, t0)"
    by (cases "timeout_scope w (Some t) (ping_body w) tr")
  then have "served w tr + (case r0 of Inr _ \<Rightarrow> 1 | Inl _ \<Rightarrow> 0) \<le> served w t0"
  proof (cases rule: timeout_scope_cases)
    case 1
    then show ?thesis by (rule ping_body_served)
  next
    case (2 s r1 t1)
    then show ?thesis using ping_body_served [OF 2(1)] e by (cases r0; cases r1) auto
  qed
  moreover assume "ping w t tr = (r, tr')"
  ultimately show ?thesis
    using scope by (cases r0) (auto simp: ping_def except_exception_def try_except_def io_raise_def split: if_splits)
qed

subsection \<open>What a report says\<close>

lemma registry_errors: "registry_get_engine create t rt r = (Inl e, ds, r') \<Longrightarrow> is_exception e"
  by (auto simp: registry_get_engine_def insert_engine_def target_for_def key_for_def build_engine_def driver_def
      url_parts_py_def value_error_def raise_db_def is_exception_def isinstance_def plain_exn_def Let_def
      split: sum.splits option.splits if_splits prod.splits)

abbreviation connections :: "effect list list \<Rightarrow> bool" where
  "connections Ls \<equiv> set Ls \<subseteq> {[DConnect], [DConnect, DClose]}"

lemma check_target_spec:
  assumes "check_target w name tr st = (x, tr', st')" "only_exceptions (wd_env w)"
  shows "\<forall>e. x = Inl e \<longrightarrow> is_exception e"
    and "served (wd_env w) tr + (case x of Inr _ \<Rightarrow> 1 | Inl _ \<Rightarrow> 0) \<le> served (wd_env w) tr'"
    and "\<exists>Ls. connections Ls \<and> life tr' = life tr @ concat Ls"
proof -
  obtain y ds reg where g: "registry_get_engine (wd_create w) (env_clock (wd_env w) tr) (primary_route name ''default'')
      (fd_registry (snd st)) = (y, ds, reg)"
    by (cases "registry_get_engine (wd_create w) (env_clock (wd_env w) tr) (primary_route name ''default'') (fd_registry (snd st))") auto
  have "(\<forall>e. x = Inl e \<longrightarrow> is_exception e)
      \<and> served (wd_env w) tr + (case x of Inr _ \<Rightarrow> 1 | Inl _ \<Rightarrow> 0) \<le> served (wd_env w) tr'
      \<and> (\<exists>Ls. connections Ls \<and> life tr' = life tr @ concat Ls)"
  proof (cases y)
    case (Inl e)
    then have "x = Inl e" "tr' = tr" using assms g by (simp_all add: check_target_def primary_engine_def)
    with g Inl registry_errors show ?thesis by (auto intro: exI [of _ "[]"])
  next
    case (Inr entry)
    then obtain t where p: "ping (wd_env w) t tr = (x, tr')"
      using assms g by (auto simp: check_target_def primary_engine_def split: prod.splits)
    have "\<forall>e. x = Inl e \<longrightarrow> is_exception e"
      using ping_errors [OF _ assms(2), of t tr _ tr'] p by (fastforce simp: is_exception_def)
    moreover have "\<exists>L. connections [L] \<and> life tr' = life tr @ L"
      using ping_life [of "wd_env w" t tr] p by auto
    then have "\<exists>Ls. connections Ls \<and> life tr' = life tr @ concat Ls"
      by (metis concat.simps append_Nil2)
    ultimately show ?thesis using ping_served [OF p] by blast
  qed
  then show "\<forall>e. x = Inl e \<longrightarrow> is_exception e"
    and "served (wd_env w) tr + (case x of Inr _ \<Rightarrow> 1 | Inl _ \<Rightarrow> 0) \<le> served (wd_env w) tr'"
    and "\<exists>Ls. connections Ls \<and> life tr' = life tr @ concat Ls" by blast+
qed

definition required_keys :: "(string, database_config) dict \<Rightarrow> string list" where
  "required_keys dbs = map (\<lambda>(name, db). name @ ''.primary'') (filter (\<lambda>(name, db). t_required (db_primary db)) dbs)"

definition faithful_report :: "target_health list \<Rightarrow> bool" where
  "faithful_report ts \<longleftrightarrow> list_all (\<lambda>t. th_healthy t = (th_error t = None)) ts"

lemma check_targets_spec:
  assumes "only_exceptions (wd_env w)"
  shows "\<exists>ts tr' st'. check_targets w dbs tr st = (Inr ts, tr', st') \<and> map th_key ts = required_keys dbs \<and> faithful_report ts
    \<and> served (wd_env w) tr + length (filter th_healthy ts) \<le> served (wd_env w) tr'
    \<and> (\<exists>Ls. connections Ls \<and> life tr' = life tr @ concat Ls)"
proof (induction dbs arbitrary: tr st)
  case Nil
  then show ?case by (auto simp: required_keys_def faithful_report_def intro: exI [of _ "[]"])
next
  case (Cons p dbs)
  obtain name db where p: "p = (name, db)" by (cases p)
  show ?case
  proof (cases "t_required (db_primary db)")
    case False
    then show ?thesis using Cons.IH [of tr st] by (simp add: p required_keys_def)
  next
    case True
    obtain x tr1 st1 where c: "check_target w name tr st = (x, tr1, st1)" by (cases "check_target w name tr st")
    note one = check_target_spec [OF c assms]
    from Cons.IH [of tr1 st1] obtain ts tr' st' Ls where rest: "check_targets w dbs tr1 st1 = (Inr ts, tr', st')"
      "map th_key ts = required_keys dbs" "faithful_report ts"
      "served (wd_env w) tr1 + length (filter th_healthy ts) \<le> served (wd_env w) tr'"
      "connections Ls" "life tr' = life tr1 @ concat Ls" by blast
    obtain Ls1 where "connections Ls1" "life tr1 = life tr @ concat Ls1" using one(3) by blast
    then have ls: "\<exists>Ls. connections Ls \<and> life tr' = life tr @ concat Ls"
      using rest(5,6) by (intro exI [of _ "Ls1 @ Ls"]) auto
    show ?thesis
    proof (cases x)
      case (Inl e)
      then show ?thesis using one(1,2) rest c True ls by (simp add: p required_keys_def faithful_report_def)
    next
      case (Inr u)
      then show ?thesis using one(2) rest c True ls by (simp add: p required_keys_def faithful_report_def)
    qed
  qed
qed

lemma health_report_spec:
  assumes "only_exceptions (wd_env w)"
  shows "\<exists>ts tr' st'. health w tr st = (Inr \<lparr>hr_live = True, hr_ready = list_all th_healthy ts, hr_targets = ts\<rparr>, tr', st')
    \<and> map th_key ts = required_keys (databases (fd_config (snd st))) \<and> faithful_report ts
    \<and> served (wd_env w) tr + length (filter th_healthy ts) \<le> served (wd_env w) tr'
    \<and> (\<exists>Ls. connections Ls \<and> life tr' = life tr @ concat Ls)
    \<and> fst (require_ready w tr st) = (if list_all th_healthy ts then Inr () else Inl (not_ready ts))"
proof -
  obtain ts tr' st' where "check_targets w (databases (fd_config (snd st))) tr st = (Inr ts, tr', st')"
    and "map th_key ts = required_keys (databases (fd_config (snd st)))" "faithful_report ts"
    "served (wd_env w) tr + length (filter th_healthy ts) \<le> served (wd_env w) tr'"
    "\<exists>Ls. connections Ls \<and> life tr' = life tr @ concat Ls"
    using check_targets_spec [OF assms] by blast
  then show ?thesis by (simp add: health_def require_ready_def)
qed



text \<open>Without warming, starting makes the engines and touches no connection: it is \<^verbatim>\<open>start\<close> of
  \<open>Database\<close> at the time of the call.\<close>

lemma warm_engines_cold:
  "warm_engines w False dbs tr (r, f) = (case start_engines (wd_create w) (env_clock (wd_env w) tr) dbs (fd_registry f) of
     (x, _, reg) \<Rightarrow> (x, tr, (r, f\<lparr>fd_registry := reg\<rparr>)))"
proof (induction dbs arbitrary: f)
  case Nil
  then show ?case by simp
next
  case (Cons p dbs)
  obtain name db where p: "p = (name, db)" by (cases p)
  show ?case
    by (auto simp: p Cons primary_engine_def io_return_def split: prod.splits sum.splits)
qed

lemma db_start_cold:
  "db_start w False tr (r, f) = (case start (wd_create w) (env_clock (wd_env w) tr) f of (x, _, f') \<Rightarrow> (x, tr, (r, f')))"
  by (auto simp: db_start_def start_def warm_engines_cold split: prod.splits sum.splits)

text \<open>The synchronous frontend has no deadline for a ping: nothing but the connection and the statement is
  issued, with no server-side timeout either.\<close>

lemma sync_ping_unbounded:
  "\<not> env_async w \<Longrightarrow> snd (ping w t tr) = tr @ [DConnect]
     \<or> snd (ping w t tr) = tr @ [DConnect, trivial_statement, DClose]"
  using ping_body_cases [of w tr]
  by (auto simp: ping_def timeout_scope_def except_exception_def try_except_def io_raise_def trivial_statement_def
      split: prod.splits sum.splits)

end
