(* ===== verification/Doubles.thy ===== *)
theory Doubles
  imports Query Routing Conversions
begin

text \<open>
  The test doubles (\<^verbatim>\<open>testing/__init__.py\<close>): a database that records the calls made to it and
  answers queued rows, first in, first out. Both doubles share the machinery of \<^verbatim>\<open>_FakeCore\<close>; their
  operations differ only in being coroutines, which matters when \<^verbatim>\<open>next\<close> runs out: a coroutine that
  raises \<^verbatim>\<open>StopIteration\<close> raises \<^verbatim>\<open>RuntimeError\<close> instead. The text of a statement is
  the parameter \<open>render\<close>, SQLAlchemy's \<^verbatim>\<open>str\<close>.
\<close>

subsection \<open>The state of a double\<close>

type_synonym row = "(string, pyval) dict"

record recorded_call =
  rcl_method :: string
  rcl_query_name :: string
  rcl_statement :: string
  rcl_params :: "(string, pyval) dict option"
  rcl_target :: "target option"
  rcl_settings :: "(string, string) dict option"
  rcl_in_transaction :: bool

record fake =
  fk_calls :: "recorded_call list"
  fk_queued :: "row list list"
  fk_registered :: "(string, pyval) dict"
  fk_started :: bool
  fk_closed :: bool
  fk_in_transaction :: bool

definition new_fake :: fake where
  "new_fake = \<lparr>fk_calls = [], fk_queued = [], fk_registered = [], fk_started = False, fk_closed = False,
     fk_in_transaction = False\<rparr>"

type_synonym 'a fake_op = "fake \<Rightarrow> 'a py \<times> fake"

definition queue_rows :: "row list \<Rightarrow> fake \<Rightarrow> fake" where
  "queue_rows rows f = f\<lparr>fk_queued := fk_queued f @ [rows]\<rparr>"

definition calls_named :: "string \<Rightarrow> fake \<Rightarrow> recorded_call list" where
  "calls_named name f = filter (\<lambda>c. rcl_query_name c = name) (fk_calls f)"

text \<open>An empty mapping is recorded as \<^verbatim>\<open>None\<close>.\<close>

definition non_empty :: "'a list option \<Rightarrow> 'a list option" where
  "non_empty m = (case m of Some (x # xs) \<Rightarrow> Some (x # xs) | _ \<Rightarrow> None)"

definition call_of ::
  "(statement_obj \<Rightarrow> string) \<Rightarrow> string \<Rightarrow> query_obj \<Rightarrow> statement_obj \<Rightarrow> (string, pyval) dict option
     \<Rightarrow> target option \<Rightarrow> bool \<Rightarrow> recorded_call" where
  "call_of render meth q s params t in_tx =
     \<lparr>rcl_method = meth,
      rcl_query_name = (case q of AQuery x \<Rightarrow> q_name x | AStatement _ \<Rightarrow> ''adhoc''),
      rcl_statement = render s, rcl_params = non_empty params, rcl_target = t,
      rcl_settings = (case q of AQuery x \<Rightarrow> non_empty (q_settings x) | AStatement _ \<Rightarrow> None),
      rcl_in_transaction = in_tx\<rparr>"

definition record_call ::
  "(statement_obj \<Rightarrow> string) \<Rightarrow> string \<Rightarrow> query_obj \<Rightarrow> (string, pyval) dict option \<Rightarrow> target option \<Rightarrow> unit fake_op" where
  "record_call render meth q params t f =
     (case coerce_statement q of
        Inl e \<Rightarrow> (Inl e, f)
      | Inr s \<Rightarrow> (Inr (), f\<lparr>fk_calls := fk_calls f @ [call_of render meth q s params t (fk_in_transaction f)]\<rparr>))"

definition next_rows :: "fake \<Rightarrow> row list \<times> fake" where
  "next_rows f = (case fk_queued f of [] \<Rightarrow> ([], f) | rows # rest \<Rightarrow> (rows, f\<lparr>fk_queued := rest\<rparr>))"

definition one_row :: "string \<Rightarrow> row fake_op" where
  "one_row meth f =
     (case next_rows f of
        (rows, f1) \<Rightarrow>
          (case rows of
             [r] \<Rightarrow> (Inr r, f1)
           | _ \<Rightarrow> (raise_db DatabaseResultError (meth @ '' expected exactly one row, queued '' @ show_nat (length rows)), f1)))"

subsection \<open>The operations\<close>

definition recorded ::
  "(statement_obj \<Rightarrow> string) \<Rightarrow> string \<Rightarrow> query_obj \<Rightarrow> (string, pyval) dict option \<Rightarrow> target option
     \<Rightarrow> 'a fake_op \<Rightarrow> 'a fake_op" where
  "recorded render meth q params t op f =
     (case record_call render meth q params t f of (Inl e, f1) \<Rightarrow> (Inl e, f1) | (Inr _, f1) \<Rightarrow> op f1)"

definition fake_fetch_all where
  "fake_fetch_all render q params t =
     recorded render ''fetch_all'' q params t (\<lambda>f. case next_rows f of (rows, f1) \<Rightarrow> (Inr rows, f1))"

definition fake_fetch_one where
  "fake_fetch_one render q params t = recorded render ''fetch_one'' q params t (one_row ''fetch_one'')"

definition fake_fetch_optional where
  "fake_fetch_optional render q params t =
     recorded render ''fetch_optional'' q params t
       (\<lambda>f. case next_rows f of (rows, f1) \<Rightarrow> (Inr (case rows of [] \<Rightarrow> None | r # _ \<Rightarrow> Some r), f1))"

text \<open>\<^verbatim>\<open>next(iter(row.values()))\<close>\<close>

definition first_value :: "bool \<Rightarrow> row \<Rightarrow> pyval py" where
  "first_value coroutine row =
     (case row of
        (_, v) # _ \<Rightarrow> Inr v
      | [] \<Rightarrow> if coroutine then py_raise CRuntimeError ''coroutine raised StopIteration'' else py_raise CStopIteration '''')"

definition fake_fetch_value where
  "fake_fetch_value coroutine render q params t =
     recorded render ''fetch_value'' q params t
       (\<lambda>f. case one_row ''fetch_value'' f of (Inl e, f1) \<Rightarrow> (Inl e, f1) | (Inr row, f1) \<Rightarrow> (first_value coroutine row, f1))"

definition fake_execute where
  "fake_execute render q params t =
     recorded render ''execute'' q params t (\<lambda>f. case next_rows f of (rows, f1) \<Rightarrow> (Inr (length rows), f1))"

definition fake_transaction :: "'a fake_op \<Rightarrow> 'a fake_op" where
  "fake_transaction body f =
     (case body (f\<lparr>fk_in_transaction := True\<rparr>) of (r, f1) \<Rightarrow> (r, f1\<lparr>fk_in_transaction := False\<rparr>))"

definition fake_start :: "fake \<Rightarrow> fake" where
  "fake_start f = f\<lparr>fk_started := True\<rparr>"

definition fake_close :: "fake \<Rightarrow> fake" where
  "fake_close f = f\<lparr>fk_closed := True\<rparr>"

definition fake_register :: "string \<Rightarrow> pyval \<Rightarrow> fake \<Rightarrow> bool \<times> fake" where
  "fake_register name config f =
     (dict_get (fk_registered f) name \<noteq> None, f\<lparr>fk_registered := dict_set name config (fk_registered f)\<rparr>)"

definition or_none :: "pyval option \<Rightarrow> pyval" where
  "or_none v = (case v of None \<Rightarrow> PNone | Some x \<Rightarrow> x)"

definition fake_ensure :: "string \<Rightarrow> pyval \<Rightarrow> fake \<Rightarrow> bool \<times> fake" where
  "fake_ensure name config f =
     (if or_none (dict_get (fk_registered f) name) = config then (False, f)
      else (True, f\<lparr>fk_registered := dict_set name config (fk_registered f)\<rparr>))"

definition fake_unregister :: "string \<Rightarrow> fake \<Rightarrow> bool \<times> fake" where
  "fake_unregister name f =
     (or_none (dict_get (fk_registered f) name) \<noteq> PNone, f\<lparr>fk_registered := dict_pop name (fk_registered f)\<rparr>)"

subsection \<open>Replaying the queue\<close>

text \<open>A script of reads, each with its query, parameters and target.\<close>

type_synonym script = "(query_obj \<times> (string, pyval) dict option \<times> target option) list"

fun run_reads :: "(statement_obj \<Rightarrow> string) \<Rightarrow> script \<Rightarrow> row list list fake_op" where
  "run_reads render [] f = (Inr [], f)"
| "run_reads render ((q, params, t) # calls) f =
     (case fake_fetch_all render q params t f of
        (Inl e, f1) \<Rightarrow> (Inl e, f1)
      | (Inr rows, f1) \<Rightarrow>
          (case run_reads render calls f1 of (Inl e, f2) \<Rightarrow> (Inl e, f2) | (Inr rs, f2) \<Rightarrow> (Inr (rows # rs), f2)))"

definition well_formed_calls :: "script \<Rightarrow> bool" where
  "well_formed_calls calls \<longleftrightarrow> list_all (\<lambda>(q, _, _). \<not> isl (coerce_statement q)) calls"

definition record_of :: "(statement_obj \<Rightarrow> string) \<Rightarrow> bool \<Rightarrow> query_obj \<times> (string, pyval) dict option \<times> target option \<Rightarrow> recorded_call" where
  "record_of render in_tx = (\<lambda>(q, params, t). call_of render ''fetch_all'' q (projr (coerce_statement q)) params t in_tx)"

lemma fetch_all_step:
  assumes "\<not> isl (coerce_statement q)"
  shows "fake_fetch_all render q params t f =
    (Inr (case fk_queued f of [] \<Rightarrow> [] | rows # _ \<Rightarrow> rows),
     f\<lparr>fk_calls := fk_calls f @ [record_of render (fk_in_transaction f) (q, params, t)], fk_queued := drop 1 (fk_queued f)\<rparr>)"
proof -
  obtain s where "coerce_statement q = Inr s" using assms by (cases "coerce_statement q") auto
  then show ?thesis
    by (cases "fk_queued f") (simp_all add: fake_fetch_all_def recorded_def record_call_def next_rows_def record_of_def)
qed

text \<open>The double replays its script: a run of reads answers the queued row sets in the order they were
  queued, then empty results; each set is used once, and the calls are recorded in order with the logical names,
  the parameters and the transaction they ran in.\<close>

theorem fake_replays_queue:
  assumes "well_formed_calls calls"
  shows "\<exists>f'. run_reads render calls f = (Inr (take (length calls) (fk_queued f @ replicate (length calls) [])), f')
    \<and> fk_queued f' = drop (length calls) (fk_queued f)
    \<and> fk_calls f' = fk_calls f @ map (record_of render (fk_in_transaction f)) calls
    \<and> fk_in_transaction f' = fk_in_transaction f"
  using assms
proof (induction calls arbitrary: f)
  case Nil
  then show ?case by simp
next
  case (Cons c calls)
  obtain q params t where c: "c = (q, params, t)" by (cases c)
  let ?f = "f\<lparr>fk_calls := fk_calls f @ [record_of render (fk_in_transaction f) c], fk_queued := drop 1 (fk_queued f)\<rparr>"
  have step: "fake_fetch_all render q params t f = (Inr (case fk_queued f of [] \<Rightarrow> [] | rows # _ \<Rightarrow> rows), ?f)"
    using Cons.prems fetch_all_step [of q render params t f] by (simp add: well_formed_calls_def c)
  have "well_formed_calls calls" using Cons.prems by (simp add: well_formed_calls_def)
  from Cons.IH [OF this, of ?f] step show ?case
    by (cases "fk_queued f") (auto simp: c replicate_append_same [symmetric])
qed

definition sample_script :: script where
  "sample_script = [(AStatement (TextClause ''SELECT 1''), None, None), (AStatement (TextClause ''SELECT 2''), None, None)]"

theorem fake_replays_queue_witness:
  "fst (run_reads (\<lambda>_. ''sql'') sample_script (queue_rows [[(''id'', PInt 7)]] new_fake)) = Inr [[[(''id'', PInt 7)]], []]"
  using fake_replays_queue [of sample_script "\<lambda>_. ''sql''" "queue_rows [[(''id'', PInt 7)]] new_fake"]
  by (auto simp: well_formed_calls_def sample_script_def coerce_statement_def queue_rows_def new_fake_def)

text \<open>The doubles lose track of a nested transaction: the flag is set and cleared, not counted, so a call
  made in the outer block after an inner one has ended is recorded as outside any transaction.\<close>

theorem fake_nested_transaction_flag:
  assumes "coerce_statement q = Inr s"
  shows "\<exists>rows f'. fake_transaction (\<lambda>f1. fake_fetch_all render q params t (snd (fake_transaction (\<lambda>f2. (Inr (), f2)) f1))) f = (Inr rows, f')
    \<and> fk_calls f' = fk_calls f @ [call_of render ''fetch_all'' q s params t False]"
  using assms by (cases "fk_queued f")
    (simp_all add: fake_transaction_def fake_fetch_all_def recorded_def record_call_def next_rows_def)

theorem fake_nested_transaction_flag_witness:
  "\<exists>rows f'. fake_transaction (\<lambda>f1. fake_fetch_all (\<lambda>_. ''sql'') (AStatement (TextClause ''SELECT 1'')) None None
      (snd (fake_transaction (\<lambda>f2. (Inr (), f2)) f1))) new_fake = (Inr rows, f')
    \<and> fk_calls f' = [call_of (\<lambda>_. ''sql'') ''fetch_all'' (AStatement (TextClause ''SELECT 1'')) (TextClause ''SELECT 1'') None None False]"
  using fake_nested_transaction_flag [of "AStatement (TextClause ''SELECT 1'')" "TextClause ''SELECT 1''" "\<lambda>_. ''sql''" None None new_fake]
  by (simp add: coerce_statement_def new_fake_def)

end
