(* ===== verification/Observability.thy ===== *)
theory Observability
  imports Effects
begin

text \<open>
  Metrics, spans and logs (\<^verbatim>\<open>observability/metrics.py\<close>, \<^verbatim>\<open>prometheus.py\<close>,
  \<^verbatim>\<open>otel_metrics.py\<close>, \<^verbatim>\<open>tracing.py\<close>, \<^verbatim>\<open>logging.py\<close>): what a sink makes of
  the labels of a metric, the attributes of a span, the payload of a log event.
\<close>

subsection \<open>Labels and sinks\<close>

definition ALLOWED_LABELS :: "string list" where
  "ALLOWED_LABELS = [''service'', ''environment'', ''database'', ''shard'', ''role'', ''query_name'', ''operation'',
     ''error_category'', ''retry_attempt'', ''api'']"

type_synonym labels = "(string, string) dict"

definition refused :: "labels \<Rightarrow> string list" where
  "refused labels = sort (remdups (filter (\<lambda>k. k \<notin> set ALLOWED_LABELS) (map fst labels)))"

definition disallowed_labels :: "string list \<Rightarrow> 'a py" where
  "disallowed_labels bad =
     py_raise CValueError (''disallowed metric labels: '' @ ''['' @ join_with '', '' (map quoted bad) @ '']'')"

text \<open>Prometheus wants every declared label in every call; OpenTelemetry takes those that are given.\<close>

definition prom_fill :: "labels \<Rightarrow> labels py" where
  "prom_fill labels =
     (if refused labels \<noteq> [] then disallowed_labels (refused labels)
      else Inr (map (\<lambda>k. (k, case dict_get labels k of Some v \<Rightarrow> v | None \<Rightarrow> '''')) (sort ALLOWED_LABELS)))"

definition otel_attributes :: "labels \<Rightarrow> labels py" where
  "otel_attributes labels = (if refused labels \<noteq> [] then disallowed_labels (refused labels) else Inr labels)"

definition noop_accept :: "labels \<Rightarrow> labels py" where
  "noop_accept labels = Inr labels"

text \<open>The metrics of the toolkit, each with the kind of collector that the operations use it with.\<close>

datatype metric_kind = CounterKind | HistogramKind | GaugeKind

definition METRICS :: "(string, metric_kind) dict" where
  "METRICS =
     [(''db_operation_total'', CounterKind), (''db_operation_duration_seconds'', HistogramKind),
      (''db_operation_errors_total'', CounterKind), (''db_operation_retries_total'', CounterKind),
      (''db_operation_timeouts_total'', CounterKind), (''db_operation_cancelled_total'', CounterKind),
      (''db_pool_size'', GaugeKind), (''db_pool_checked_out'', GaugeKind), (''db_pool_overflow'', GaugeKind),
      (''db_pool_wait_seconds'', HistogramKind), (''db_pool_timeout_total'', CounterKind),
      (''db_pool_invalidations_total'', CounterKind), (''db_connections_created_total'', CounterKind),
      (''db_connections_closed_total'', CounterKind), (''db_connection_checkout_duration_seconds'', HistogramKind),
      (''db_connection_hold_duration_seconds'', HistogramKind), (''db_transaction_total'', CounterKind),
      (''db_transaction_duration_seconds'', HistogramKind), (''db_transaction_rollback_total'', CounterKind),
      (''db_commit_unknown_total'', CounterKind), (''db_circuit_breaker_state'', GaugeKind),
      (''db_stream_rows_total'', HistogramKind), (''db_stream_bytes_total'', CounterKind),
      (''db_bulk_rows_total'', CounterKind), (''db_bulk_batch_size'', HistogramKind),
      (''db_bulk_rows_dropped_total'', CounterKind)]"

text \<open>A sink: the collectors it has made, by kind and name, over the client library's own state. The library
  is a parameter: \<open>mk\<close> makes a collector, \<open>put\<close> increments, observes or sets one.\<close>

record 'c sink =
  sk_counters :: "string list"
  sk_histograms :: "string list"
  sk_gauges :: "string list"
  sk_client :: 'c

type_synonym 'c registration = "metric_kind \<Rightarrow> string \<Rightarrow> 'c \<Rightarrow> 'c py"
type_synonym 'c putting = "metric_kind \<Rightarrow> string \<Rightarrow> labels \<Rightarrow> real \<Rightarrow> 'c \<Rightarrow> 'c py"

definition new_sink :: "'c \<Rightarrow> 'c sink" where
  "new_sink c = \<lparr>sk_counters = [], sk_histograms = [], sk_gauges = [], sk_client = c\<rparr>"

fun known :: "metric_kind \<Rightarrow> 'c sink \<Rightarrow> string list" where
  "known CounterKind s = sk_counters s"
| "known HistogramKind s = sk_histograms s"
| "known GaugeKind s = sk_gauges s"

fun remember :: "metric_kind \<Rightarrow> string \<Rightarrow> 'c sink \<Rightarrow> 'c sink" where
  "remember CounterKind n s = s\<lparr>sk_counters := n # sk_counters s\<rparr>"
| "remember HistogramKind n s = s\<lparr>sk_histograms := n # sk_histograms s\<rparr>"
| "remember GaugeKind n s = s\<lparr>sk_gauges := n # sk_gauges s\<rparr>"

definition sink_collector :: "'c registration \<Rightarrow> metric_kind \<Rightarrow> string \<Rightarrow> 'c sink \<Rightarrow> unit py \<times> 'c sink" where
  "sink_collector mk kind name s =
     (if name \<in> set (known kind s) then (Inr (), s)
      else
        (case mk kind name (sk_client s) of
           Inl e \<Rightarrow> (Inl e, s)
         | Inr c \<Rightarrow> (Inr (), remember kind name (s\<lparr>sk_client := c\<rparr>))))"

definition sink_record ::
  "'c registration \<Rightarrow> 'c putting \<Rightarrow> (labels \<Rightarrow> labels py) \<Rightarrow> metric_kind \<Rightarrow> string \<Rightarrow> real \<Rightarrow> labels \<Rightarrow> 'c sink \<Rightarrow> unit py \<times> 'c sink" where
  "sink_record mk put accept kind name v labels s =
     (case sink_collector mk kind name s of
        (Inl e, s1) \<Rightarrow> (Inl e, s1)
      | (Inr _, s1) \<Rightarrow>
          (case sum_bind (accept labels) (\<lambda>ls. put kind name ls v (sk_client s1)) of
             Inl e \<Rightarrow> (Inl e, s1)
           | Inr c \<Rightarrow> (Inr (), s1\<lparr>sk_client := c\<rparr>)))"

definition prom_record ::
  "'c registration \<Rightarrow> 'c putting \<Rightarrow> metric_kind \<Rightarrow> string \<Rightarrow> real \<Rightarrow> labels \<Rightarrow> 'c sink \<Rightarrow> unit py \<times> 'c sink" where
  "prom_record mk put = sink_record mk put prom_fill"

definition otel_record ::
  "'c registration \<Rightarrow> 'c putting \<Rightarrow> metric_kind \<Rightarrow> string \<Rightarrow> real \<Rightarrow> labels \<Rightarrow> 'c sink \<Rightarrow> unit py \<times> 'c sink" where
  "otel_record mk put = sink_record mk put otel_attributes"

text \<open>The metric of an effect, and what a sink makes of the metrics of a trace: the first one it refuses is where
  the program would have failed.\<close>

fun metric_of :: "effect \<Rightarrow> (metric_kind \<times> string \<times> real \<times> labels) option" where
  "metric_of (MIncr n v ls) = Some (CounterKind, n, v, ls)"
| "metric_of (MObserve n v ls) = Some (HistogramKind, n, v, ls)"
| "metric_of _ = None"

fun replay ::
  "(metric_kind \<Rightarrow> string \<Rightarrow> real \<Rightarrow> labels \<Rightarrow> 'c sink \<Rightarrow> unit py \<times> 'c sink) \<Rightarrow> effect list \<Rightarrow> 'c sink \<Rightarrow> unit py \<times> 'c sink" where
  "replay rec [] s = (Inr (), s)"
| "replay rec (e # tr) s =
     (case metric_of e of
        None \<Rightarrow> replay rec tr s
      | Some (kind, n, v, ls) \<Rightarrow>
          (case rec kind n v ls s of
             (Inl x, s1) \<Rightarrow> (Inl x, s1)
           | (Inr _, s1) \<Rightarrow> replay rec tr s1))"

definition allowed :: "labels \<Rightarrow> bool" where
  "allowed labels \<longleftrightarrow> set (map fst labels) \<subseteq> set ALLOWED_LABELS"

definition acceptable :: "metric_kind \<times> string \<times> real \<times> labels \<Rightarrow> bool" where
  "acceptable m = (case m of (kind, n, v, ls) \<Rightarrow>
     allowed ls \<and> dict_get METRICS n = Some kind \<and> (kind = CounterKind \<longrightarrow> 0 \<le> v))"

definition disallowed :: "effect list \<Rightarrow> effect list" where
  "disallowed tr = filter (\<lambda>e. case metric_of e of Some m \<Rightarrow> \<not> acceptable m | None \<Rightarrow> False) tr"

text \<open>What the client libraries document: a collector is made under a name no other collector has, and then
  takes values under a full label set, a counter only values that are not negative.\<close>

definition client_serves ::
  "(labels \<Rightarrow> bool) \<Rightarrow> 'c registration \<Rightarrow> 'c putting \<Rightarrow> ('c \<Rightarrow> (metric_kind \<times> string) set) \<Rightarrow> bool" where
  "client_serves ready mk put made \<longleftrightarrow>
     (\<forall>k n c. (\<forall>k'. (k', n) \<notin> made c) \<longrightarrow> (\<exists>c'. mk k n c = Inr c' \<and> made c' = insert (k, n) (made c)))
     \<and> (\<forall>k n ls v c. (k, n) \<in> made c \<longrightarrow> ready ls \<longrightarrow> (k = CounterKind \<longrightarrow> 0 \<le> v) \<longrightarrow>
          (\<exists>c'. put k n ls v c = Inr c' \<and> made c' = made c))"

text \<open>The collectors of the toolkit's metrics that the client has are those the sink knows.\<close>

definition sink_ok :: "('c \<Rightarrow> (metric_kind \<times> string) set) \<Rightarrow> 'c sink \<Rightarrow> bool" where
  "sink_ok made s \<longleftrightarrow> (\<forall>n k. dict_get METRICS n = Some k \<longrightarrow>
     (\<forall>k'. (k', n) \<in> made (sk_client s) \<longleftrightarrow> k' = k \<and> n \<in> set (known k s)))"

definition full_labels :: "labels \<Rightarrow> bool" where
  "full_labels ls \<longleftrightarrow> map fst ls = sort ALLOWED_LABELS"

lemma refused_iff: "refused labels = [] \<longleftrightarrow> allowed labels"
proof -
  have "refused labels = [] \<longleftrightarrow> set (refused labels) = {}" by (simp only: set_empty)
  also have "set (refused labels) = {k \<in> set (map fst labels). k \<notin> set ALLOWED_LABELS}"
    unfolding refused_def by (simp only: set_sort set_remdups set_filter)
  finally show ?thesis unfolding allowed_def by blast
qed

lemma known_remember: "set (known k (remember k' n s)) = (if k = k' then insert n (set (known k s)) else set (known k s))"
  by (cases k; cases k') simp_all

lemma sk_client_remember [simp]: "sk_client (remember k n s) = sk_client s"
  by (cases k) simp_all

lemma known_client [simp]: "known k (s\<lparr>sk_client := c\<rparr>) = known k s"
  by (cases k) simp_all

lemma collector_ready:
  assumes "client_serves ready mk put made" "sink_ok made s" "dict_get METRICS n = Some k"
  shows "\<exists>s1. sink_collector mk k n s = (Inr (), s1) \<and> sink_ok made s1 \<and> (k, n) \<in> made (sk_client s1)"
proof (cases "n \<in> set (known k s)")
  case True
  with assms show ?thesis by (simp add: sink_collector_def sink_ok_def)
next
  case False
  with assms(2,3) have "\<forall>k'. (k', n) \<notin> made (sk_client s)" by (simp add: sink_ok_def)
  then obtain c where c: "mk k n (sk_client s) = Inr c" "made c = insert (k, n) (made (sk_client s))"
    using assms(1) unfolding client_serves_def by blast
  have "sink_ok made (remember k n (s\<lparr>sk_client := c\<rparr>))"
    using assms(2,3) by (auto simp: sink_ok_def c known_remember)
  with False c show ?thesis by (simp add: sink_collector_def)
qed

locale metrics_sink =
  fixes accept :: "labels \<Rightarrow> labels py" and ready :: "labels \<Rightarrow> bool"
  assumes accepts: "allowed labels \<Longrightarrow> \<exists>ls. accept labels = Inr ls \<and> ready ls"
begin

lemma records:
  assumes "client_serves ready mk put made" "sink_ok made s" "acceptable (k, n, v, labels)"
  shows "\<exists>s1. sink_record mk put accept k n v labels s = (Inr (), s1) \<and> sink_ok made s1"
proof -
  have m: "dict_get METRICS n = Some k" "allowed labels" "k = CounterKind \<longrightarrow> 0 \<le> v"
    using assms(3) by (simp_all add: acceptable_def)
  obtain s1 where s1: "sink_collector mk k n s = (Inr (), s1)" "sink_ok made s1" "(k, n) \<in> made (sk_client s1)"
    using collector_ready [OF assms(1,2) m(1)] by blast
  obtain ls where ls: "accept labels = Inr ls" "ready ls" using accepts [OF m(2)] by blast
  obtain c where c: "put k n ls v (sk_client s1) = Inr c" "made c = made (sk_client s1)"
    using assms(1) s1(3) ls(2) m(3) unfolding client_serves_def by blast
  have "sink_ok made (s1\<lparr>sk_client := c\<rparr>)" using s1(2) c(2) by (simp add: sink_ok_def)
  with s1 ls c show ?thesis by (simp add: sink_record_def)
qed

lemma replay_accepts:
  assumes "client_serves ready mk put made" "sink_ok made s" "disallowed tr = []"
  shows "fst (replay (sink_record mk put accept) tr s) = Inr ()"
  using assms(2,3)
proof (induction tr arbitrary: s)
  case (Cons e tr)
  show ?case
  proof (cases "metric_of e")
    case None
    with Cons show ?thesis by (simp add: disallowed_def)
  next
    case (Some m)
    obtain k n v ls where m: "m = (k, n, v, ls)" by (cases m)
    have "acceptable (k, n, v, ls)" "disallowed tr = []"
      using Cons.prems(2) Some m by (auto simp: disallowed_def split: if_splits)
    with records [OF assms(1) Cons.prems(1)] Cons.IH Some m show ?thesis by (fastforce split: prod.split)
  qed
qed simp

end

lemma new_sink_ok: "(\<And>n k. dict_get METRICS n \<noteq> None \<Longrightarrow> (k, n) \<notin> made c) \<Longrightarrow> sink_ok made (new_sink c)"
proof -
  have "known k (new_sink c) = []" for k by (cases k) (simp_all add: new_sink_def)
  then show "(\<And>n k. dict_get METRICS n \<noteq> None \<Longrightarrow> (k, n) \<notin> made c) \<Longrightarrow> ?thesis"
    by (auto simp: sink_ok_def) (auto simp: new_sink_def)
qed

interpretation prometheus: metrics_sink prom_fill full_labels
  by unfold_locales (simp add: prom_fill_def refused_iff full_labels_def o_def)

interpretation otel: metrics_sink otel_attributes allowed
  by unfold_locales (simp add: otel_attributes_def refused_iff)

interpretation noop: metrics_sink noop_accept "\<lambda>_. True"
  by unfold_locales (simp add: noop_accept_def)

subsection \<open>Spans and log records\<close>

definition given :: "string \<Rightarrow> string option \<Rightarrow> (string, pyval) dict" where
  "given key v = (case v of Some s \<Rightarrow> if s = [] then [] else [(key, PStr s)] | None \<Rightarrow> [])"

text \<open>The attributes of \<^verbatim>\<open>Tracer.span\<close>.\<close>

definition span_attributes ::
  "string option \<Rightarrow> string option \<Rightarrow> string option \<Rightarrow> string option \<Rightarrow> string option \<Rightarrow> (string, pyval) dict" where
  "span_attributes operation_type query_name database shard role =
     (''db.system'', PStr ''postgresql'') # given ''db.operation.type'' operation_type @ given ''db.query.name'' query_name
     @ given ''db.namespace'' database @ given ''db.shard.id'' shard @ given ''db.target.role'' role"

record log_fields =
  lf_query_name :: "string option"
  lf_database :: "string option"
  lf_shard :: "string option"
  lf_role :: "string option"
  lf_duration_ms :: "real option"
  lf_pool_wait_ms :: "real option"
  lf_rows :: "int option"
  lf_retry_attempt :: "int option"
  lf_error_code :: "string option"

definition no_fields :: log_fields where
  "no_fields = \<lparr>lf_query_name = None, lf_database = None, lf_shard = None, lf_role = None, lf_duration_ms = None,
     lf_pool_wait_ms = None, lf_rows = None, lf_retry_attempt = None, lf_error_code = None\<rparr>"

definition field :: "string \<Rightarrow> pyval option \<Rightarrow> (string, pyval) dict" where
  "field key v = (case v of None \<Rightarrow> [] | Some x \<Rightarrow> [(key, x)])"

text \<open>The payload of \<^verbatim>\<open>log_event\<close>: the given fields, the ids of the current trace, and the extra
  keywords, later ones replacing earlier ones.\<close>

definition update_all :: "(string, pyval) dict \<Rightarrow> (string, pyval) dict \<Rightarrow> (string, pyval) dict" where
  "update_all d kvs = fold (\<lambda>(k, v). dict_set k v) kvs d"

definition log_payload :: "string \<Rightarrow> log_fields \<Rightarrow> (string, pyval) dict \<Rightarrow> (string, pyval) dict \<Rightarrow> (string, pyval) dict" where
  "log_payload event f trace_context extra =
     update_all (update_all
       ((''event'', PStr event)
        # field ''query_name'' (map_option PStr (lf_query_name f)) @ field ''database'' (map_option PStr (lf_database f))
        @ field ''shard'' (map_option PStr (lf_shard f)) @ field ''role'' (map_option PStr (lf_role f))
        @ field ''duration_ms'' (map_option PFloat (lf_duration_ms f))
        @ field ''pool_wait_ms'' (map_option PFloat (lf_pool_wait_ms f))
        @ field ''rows'' (map_option PInt (lf_rows f)) @ field ''retry_attempt'' (map_option PInt (lf_retry_attempt f))
        @ field ''error_code'' (map_option PStr (lf_error_code f))) trace_context) extra"

text \<open>\<^verbatim>\<open>round(x, 3)\<close>: half of a thousandth goes to the even neighbour.\<close>

definition round3 :: "real \<Rightarrow> real" where
  "round3 x =
     (let n = \<lfloor>x * 1000\<rfloor>; r = x * 1000 - of_int n
      in (if r < 1/2 \<or> (r = 1/2 \<and> even n) then of_int n else of_int (n + 1)) / 1000)"

definition slow_query_warning ::
  "string \<Rightarrow> real \<Rightarrow> real \<Rightarrow> string option \<Rightarrow> real option \<Rightarrow> int option \<Rightarrow> (string, pyval) dict \<Rightarrow> (string, pyval) dict" where
  "slow_query_warning query_name duration_ms threshold_ms database pool_wait_ms rows trace_context =
     log_payload ''database.query.slow''
       (no_fields\<lparr>lf_query_name := Some query_name, lf_database := database, lf_duration_ms := Some (round3 duration_ms),
                  lf_pool_wait_ms := map_option round3 pool_wait_ms, lf_rows := rows\<rparr>)
       trace_context [(''threshold_ms'', PFloat threshold_ms)]"

definition or_null :: "string option \<Rightarrow> pyval" where
  "or_null s = (case s of None \<Rightarrow> PNone | Some x \<Rightarrow> PStr x)"

definition long_transaction_warning ::
  "real \<Rightarrow> real \<Rightarrow> string option \<Rightarrow> string option \<Rightarrow> string option \<Rightarrow> (string, pyval) dict \<Rightarrow> (string, pyval) dict" where
  "long_transaction_warning duration_ms threshold_ms database role outcome trace_context =
     log_payload ''database.transaction.long_running''
       (no_fields\<lparr>lf_database := database, lf_role := role, lf_duration_ms := Some (round3 duration_ms)\<rparr>)
       trace_context [(''threshold_ms'', PFloat threshold_ms), (''outcome'', or_null outcome)]"

definition bulk_batch_dropped_warning ::
  "string \<Rightarrow> string option \<Rightarrow> string \<Rightarrow> int \<Rightarrow> string option \<Rightarrow> (string, pyval) dict \<Rightarrow> (string, pyval) dict" where
  "bulk_batch_dropped_warning query_name database mode rows_dropped category trace_context =
     log_payload ''database.bulk.rows_dropped''
       (no_fields\<lparr>lf_query_name := Some query_name, lf_database := database\<rparr>)
       trace_context [(''mode'', PStr mode), (''rows_dropped'', PInt rows_dropped), (''error_category'', or_null category)]"

end
