(* ===== verification/Telemetry.thy ===== *)
theory Telemetry
  imports Observability Streaming Bulk
begin

text \<open>
  The metrics of the toolkit's own operations. A sink refuses labels outside an allowlist by raising, in the
  middle of the operation that is measured: that the labels of every call are accepted is what lets the other
  theories treat a metric as something that cannot fail.
\<close>

subsection \<open>Every label the toolkit emits is allowed\<close>

lemma disallowed_append [simp]: "disallowed (xs @ ys) = disallowed xs @ disallowed ys"
  by (simp add: disallowed_def)

lemma disallowed_simps [simp]:
  "disallowed [] = []" "metric_of e = None \<Longrightarrow> disallowed (e # tr) = disallowed tr"
  "disallowed (MIncr n v ls # tr) =
     (if acceptable (CounterKind, n, v, ls) then disallowed tr else MIncr n v ls # disallowed tr)"
  "disallowed (MObserve n v ls # tr) =
     (if acceptable (HistogramKind, n, v, ls) then disallowed tr else MObserve n v ls # disallowed tr)"
  by (simp_all add: disallowed_def)

lemma allowed_append [simp]: "allowed (xs @ ys) \<longleftrightarrow> allowed xs \<and> allowed ys"
  by (auto simp: allowed_def)

lemma allowed_simps [simp]: "allowed []" "allowed ((k, v) # ls) \<longleftrightarrow> k \<in> set ALLOWED_LABELS \<and> allowed ls"
  by (simp_all add: allowed_def)

lemma acceptable_simps [simp]:
  "acceptable (CounterKind, ''db_operation_total'', 1, ls) = allowed ls"
  "acceptable (CounterKind, ''db_operation_errors_total'', 1, ls) = allowed ls"
  "acceptable (HistogramKind, ''db_operation_duration_seconds'', v, ls) = allowed ls"
  "acceptable (HistogramKind, ''db_pool_wait_seconds'', v, ls) = allowed ls"
  "acceptable (CounterKind, ''db_transaction_total'', 1, ls) = allowed ls"
  "acceptable (CounterKind, ''db_transaction_rollback_total'', 1, ls) = allowed ls"
  "acceptable (CounterKind, ''db_commit_unknown_total'', 1, ls) = allowed ls"
  "acceptable (HistogramKind, ''db_transaction_duration_seconds'', v, ls) = allowed ls"
  "acceptable (HistogramKind, ''db_stream_rows_total'', v, ls) = allowed ls"
  by (simp_all add: acceptable_def METRICS_def)

lemma executor_labels_allowed: "allowed (executor_labels w k q op)"
  by (simp add: executor_labels_def ALLOWED_LABELS_def)

abbreviation tame :: "'a io \<Rightarrow> bool" where
  "tame m \<equiv> keeps disallowed m"

lemma tame_settings [quiet_intros]: "tame (apply_local_settings w s pg)" "tame (maybe_set_timeout w t pg)"
  by (auto simp: apply_local_settings_def apply_setting_def maybe_set_timeout_def intro!: quiet_intros split: option.split)

lemma tame_primitives [quiet_intros]: "tame (run_cursor acc w st ps t pg)" "tame (run_execute w st ps t pg)"
  by (auto simp: run_cursor_def run_execute_def run_statement_def intro!: quiet_intros)

lemma tame_handlers [quiet_intros]: "tame (classified cs name e)" "tame (cardinality_handler cs a b name e)"
  by (auto simp: classified_def cardinality_handler_def result_error_def intro!: quiet_intros)

lemma tame_guarded [quiet_intros]:
  "\<lbrakk>\<And>st ps t pg. tame (prim w st ps t pg); \<And>n e. tame (h n e)\<rbrakk> \<Longrightarrow> tame (guarded w cs prim h q ps)"
  by (auto simp: guarded_def intro!: quiet_intros)

lemma tame_operations:
  "tame (fetch_all w cs q ps mt)" "tame (fetch_one w cs q ps mt)" "tame (fetch_optional w cs q ps mt)"
  "tame (fetch_value w cs q ps)" "tame (fetch_values w cs q ps)" "tame (execute w cs q ps)"
  unfolding fetch_all_def fetch_one_def fetch_optional_def fetch_value_def fetch_values_def execute_def run_cursor_defs
  by (auto intro!: quiet_intros)

lemma tame_semaphore [quiet_intros]: "tame (semaphore_acquire w tier t)"
  by (auto simp: semaphore_acquire_def intro!: quiet_intros)

lemma tame_limiter: "tame body \<Longrightarrow> tame (limiter_acquire w sems tier t body)"
  by (auto simp: limiter_acquire_def intro!: quiet_intros split: option.split)

lemma tame_scope:
  assumes "allowed (si_labels si)" "\<And>cs. tame (op cs)"
  shows "tame (scope w si commit op)"
  unfolding scope_def acquire_def scope_epilogue_def scope_commit_def error_metric_def Let_def
  using assms by (auto simp: ALLOWED_LABELS_def intro!: quiet_intros split: raised.split)

lemma tame_timed_scope:
  "allowed (si_labels (ci_scope ci)) \<Longrightarrow> (\<And>cs. tame (op cs)) \<Longrightarrow> tame (timed_scope w ci op)"
  unfolding timed_scope_def Let_def by (intro keeps_bind keeps_now tame_scope) simp_all

lemma tame_attempt:
  "allowed (si_labels (ci_scope ci)) \<Longrightarrow> (\<And>cs. tame (op cs)) \<Longrightarrow> tame (attempt w ci op)"
  unfolding attempt_def Let_def
  by (auto intro!: keeps_bind keeps_now tame_limiter tame_timed_scope)

lemma tame_call:
  "allowed (si_labels (ci_scope ci)) \<Longrightarrow> (\<And>cs. tame (op cs)) \<Longrightarrow>
     execute_with_resilience w ci op clk rnd b tr = (x, tr', b') \<Longrightarrow> disallowed tr' = disallowed tr"
  using keeps_trace_after [OF tame_attempt, of ci op w tr]
  by (auto simp: execute_with_resilience_def split: prod.splits)

lemma tame_transaction:
  "allowed (tm_labels m) \<Longrightarrow> (\<And>cs. tame (body cs)) \<Longrightarrow> tame (with_transaction w m body)"
proof (rule keeps_obs_transaction)
  show "allowed (tm_labels m) \<Longrightarrow> own_call m e \<Longrightarrow> disallowed (tr @ [e]) = disallowed tr" for e tr
    by (cases e) (auto simp: own_call_def)
qed

lemma tame_facade_call:
  assumes "\<And>cs. tame (op cs)" "facade_call w t q op commit timeout deadline tr st = (x, tr', st')"
  shows "disallowed tr' = disallowed tr"
proof -
  obtain y r f where y: "prepare_call w t q commit timeout deadline (env_clock (wd_env w) tr) st = (y, (r, f))"
    by (cases "prepare_call w t q commit timeout deadline (env_clock (wd_env w) tr) st") auto
  show ?thesis
  proof (cases y)
    case (Inl e)
    with y assms(2) show ?thesis by (simp add: facade_call_def)
  next
    case (Inr p)
    obtain ci b where p: "p = (ci, b)" by (cases p)
    have ok: "allowed (si_labels (ci_scope ci))"
      using y Inr p
      by (auto simp: prepare_call_def scope_info_of_def executor_labels_allowed split: prod.splits sum.splits)
    obtain z t1 b' where z: "execute_with_resilience (wd_env w) ci op (wd_clock w) (wd_random w) b tr = (z, t1, b')"
      by (cases "execute_with_resilience (wd_env w) ci op (wd_clock w) (wd_random w) b tr")
    show ?thesis using tame_call [OF ok assms(1) z] assms(2) y Inr p z by (simp add: facade_call_def)
  qed
qed

lemma tame_facade_scope:
  assumes "\<And>cs. tame (op cs)" "facade_scope w t q op timeout deadline tr st = (x, tr', st')"
  shows "disallowed tr' = disallowed tr"
proof -
  obtain y r f where y: "lookup_entry w t (env_clock (wd_env w) tr) st = (y, (r, f))"
    by (cases "lookup_entry w t (env_clock (wd_env w) tr) st") auto
  obtain query_name operation qo where m: "query_meta q = (query_name, operation, qo)" by (cases "query_meta q")
  show ?thesis
  proof (cases y)
    case (Inl e)
    with y assms(2) show ?thesis by (simp add: facade_scope_def)
  next
    case (Inr entry)
    let ?ci = "\<lparr>ci_scope = scope_info_of (wd_env w) (fd_config f) entry query_name operation, ci_query = qo, ci_limiter = [],
      ci_config = fd_config f, ci_commit = True, ci_timeout = timeout, ci_deadline = deadline\<rparr>"
    have "disallowed (snd (timed_scope (wd_env w) ?ci op tr)) = disallowed tr"
      by (intro keepsD tame_timed_scope assms(1)) (simp add: scope_info_of_def executor_labels_allowed)
    then show ?thesis using assms(2) y Inr m by (auto simp: facade_scope_def split: prod.splits)
  qed
qed

lemma tame_db_transaction:
  assumes "\<And>cs. tame (op cs)" "db_transaction w t opts op tr st = (x, tr', st')"
  shows "disallowed tr' = disallowed tr"
proof -
  have "disallowed (snd (with_transaction (wd_env w) (manager_of (wd_env w) cfg entry opts) op tr)) = disallowed tr" for cfg entry
    by (intro keepsD tame_transaction assms(1)) (simp add: manager_of_def new_tx_manager_def executor_labels_allowed ALLOWED_LABELS_def)
  then show ?thesis
    using assms(2) by (auto simp: db_transaction_def split: prod.splits sum.splits) (metis snd_conv)
qed

lemma tame_gen_next: "gen_next w c g tr = (r, g', tr') \<Longrightarrow> disallowed tr' = disallowed tr"
proof -
  have "tame (open_cursor w c)" unfolding open_cursor_def by (auto intro!: quiet_intros)
  from keepsD [OF this, of tr] show "gen_next w c g tr = (r, g', tr') \<Longrightarrow> ?thesis"
    by (cases g) (auto simp: next_row_def split: prod.splits sum.splits if_splits)
qed

lemma tame_stream_next:
  "allowed (sc_labels c) \<Longrightarrow> stream_next w c s tr = (r, s', tr') \<Longrightarrow> disallowed tr' = disallowed tr"
proof (cases "st_gen s")
  case None
  then show "stream_next w c s tr = (r, s', tr') \<Longrightarrow> ?thesis" by (simp add: stream_next_def)
next
  case (Some g)
  define tr0 where "tr0 = (if sc_max_duration c = None then tr else tr @ [DClock])"
  obtain x g' tr1 where g: "gen_next w c g tr0 = (x, g', tr1)" by (cases "gen_next w c g tr0")
  have "disallowed tr1 = disallowed tr" using tame_gen_next [OF g] by (simp add: tr0_def)
  moreover assume "stream_next w c s tr = (r, s', tr')" "allowed (sc_labels c)"
  ultimately show ?thesis
    using Some g by (auto simp: stream_next_def tr0_def [symmetric] Let_def split: sum.splits option.splits if_splits)
      (auto simp: tr0_def split: if_splits)
qed

lemma tame_take_rows:
  "allowed (sc_labels c) \<Longrightarrow> (\<And>x. tame (handle x)) \<Longrightarrow> take_rows w c handle n s tr = (r, s', tr') \<Longrightarrow> disallowed tr' = disallowed tr"
proof (induction n arbitrary: s tr)
  case (Suc n)
  obtain x s1 tr1 where n: "stream_next w c s tr = (x, s1, tr1)" by (cases "stream_next w c s tr")
  have k: "disallowed tr1 = disallowed tr" using tame_stream_next [OF Suc.prems(1) n] .
  have h: "disallowed (snd (handle row tr1)) = disallowed tr1" for row by (intro keepsD Suc.prems(2))
  show ?case
  proof (cases "\<exists>row. x = Inr (Some row)")
    case False
    with Suc.prems(3) n k show ?thesis by (auto split: sum.splits option.splits)
  next
    case True
    then obtain row where row: "x = Inr (Some row)" by blast
    obtain y tr2 where "handle row tr1 = (y, tr2)" by (cases "handle row tr1")
    with Suc.prems(3) n k row h [of row] Suc.IH [OF Suc.prems(1,2)] show ?thesis by (cases y) auto
  qed
qed simp

lemma tame_cleanup: "disallowed (snd (snd (cleanup w s tr))) = disallowed tr"
proof -
  have s: "disallowed (snd (suppress (perform w e) tr)) = disallowed tr" if "metric_of e = None" for e tr
    using that by (intro keepsD) (auto intro!: quiet_intros)
  have a: "disallowed (snd ((if b then suppress (perform w e) else io_return ()) tr)) = disallowed tr" if "metric_of e = None" for b e tr
    using s [OF that, of tr] by (simp add: io_return_def)
  obtain r1 t1 where 1: "(if st_gen s \<noteq> None then suppress (perform w (DCall ''aclose'' PNone)) else io_return ()) tr = (r1, t1)"
    by (cases "(if st_gen s \<noteq> None then suppress (perform w (DCall ''aclose'' PNone)) else io_return ()) tr")
  obtain r2 t2 where 2: "(if st_conn s then suppress (perform w DClose) else io_return ()) t1 = (r2, t2)"
    by (cases "(if st_conn s then suppress (perform w DClose) else io_return ()) t1")
  have "disallowed t1 = disallowed tr" "disallowed t2 = disallowed t1"
    using a [of "DCall ''aclose'' PNone" "st_gen s \<noteq> None" tr] a [of DClose "st_conn s" t1]
    unfolding 1 2 by simp_all
  then show ?thesis unfolding cleanup_def 1 prod.case using 2 by (cases r1; cases r2) simp_all
qed

lemma tame_stream_enter: "disallowed (snd (snd (stream_enter w c s tr))) = disallowed tr"
proof -
  define tr0 where "tr0 = (if sc_traced c then tr @ [TSpanEnter ''dbkit.stream''] else tr)"
  define s0 where "s0 = s\<lparr>st_span := sc_traced c\<rparr>"
  obtain x s1 t1 where cl: "cleanup w s0 (tr0 @ [DConnect]) = (x, s1, t1)" by (cases "cleanup w s0 (tr0 @ [DConnect])")
  have "disallowed tr0 = disallowed tr" "disallowed t1 = disallowed tr0"
    using tame_cleanup [of w s0 "tr0 @ [DConnect]"] cl by (simp_all add: tr0_def)
  then show ?thesis
    unfolding stream_enter_def tr0_def [symmetric] s0_def [symmetric] Let_def
    using cl by (auto split: sum.split)
qed

lemma tame_with_stream:
  assumes "allowed (sc_labels c)" "\<And>x. tame (handle x)"
  shows "disallowed (snd (with_stream w c (take_rows w c handle n) tr)) = disallowed tr"
proof -
  obtain r s1 tr1 where enter: "stream_enter w c new_stream tr = (r, s1, tr1)" by (cases "stream_enter w c new_stream tr")
  have e: "disallowed tr1 = disallowed tr"
    using enter tame_stream_enter [of w c new_stream tr] by simp
  obtain r2 s2 tr2 where body: "take_rows w c handle n s1 tr1 = (r2, s2, tr2)" by (cases "take_rows w c handle n s1 tr1")
  have b: "disallowed tr2 = disallowed tr1" using tame_take_rows [OF assms body] .
  obtain r3 s3 tr3 where exit: "stream_exit w s2 tr2 = (r3, s3, tr3)" by (cases "stream_exit w s2 tr2")
  have x: "disallowed tr3 = disallowed tr2"
    using exit tame_cleanup [of w s2 tr2] by (auto simp: stream_exit_def split: prod.splits sum.splits if_splits)
  show ?thesis
  proof (cases r)
    case (Inl y)
    then show ?thesis using enter e by (simp add: with_stream_def)
  next
    case (Inr u)
    then show ?thesis using enter body exit e b x by (cases r3) (simp_all add: with_stream_def)
  qed
qed


definition sample_query_target :: target where
  "sample_query_target = \<lparr>tg_database = ''app'', tg_role = RoleWrite, tg_shard_key = None\<rparr>"

lemma sample_entry:
  "\<exists>entry st. lookup_entry sample_world sample_query_target clk ((), sample_facade 1) = (Inr entry, st)"
proof -
  have split: "urlsplit ''postgresql://h/db'' = Some \<lparr>up_scheme = ''postgresql'', up_netloc = ''h'',
      up_path = ''/db'', up_query = [], up_fragment = []\<rparr>" by code_simp
  have drv: "driver ((sample_target ''postgresql://h/db'')\<lparr>t_pool := p\<rparr>) = Inr ''postgresql''" for p
    by (simp add: driver_def url_parts_py_def sample_target_def split) code_simp
  have reg: "rg_config (fd_registry (sample_facade 1)) = (sample_config None)\<lparr>connection_budget := no_budget, max_databases := Some 1\<rparr>"
    "rg_entries (fd_registry (sample_facade 1)) = []" "rg_max_engines (fd_registry (sample_facade 1)) = None"
    by (simp_all add: sample_facade_def new_facade_def new_registry_def Let_def sample_config_def)
  show ?thesis
    by (simp add: lookup_entry_def resolve_def resolve_shard_def wants_replica_def sample_query_target_def sample_facade_simps
        sample_world_def registry_get_engine_def target_for_def key_for_def primary_route_def insert_engine_def
        build_engine_def reg drv sample_config_def Let_def split: prod.split)
qed

lemma sample_stream_opens:
  "\<exists>c tr0 st0. db_stream sample_world (AStatement (TextClause ''SELECT 1'')) None sample_query_target 100 MapNone None False []
     ((), sample_facade 1) = (Inr c, tr0, st0)"
  using sample_entry [of "env_clock (wd_env sample_world) []"]
  by (auto simp: db_stream_def coerce_statement_def build_mapper_def query_meta_def)

text \<open>A client that keeps the collectors made and counts what is put.\<close>

definition list_register :: "((metric_kind \<times> string) list \<times> nat) registration" where
  "list_register k n c =
     (if n \<in> set (map snd (fst c)) then py_raise CValueError ''Duplicated timeseries'' else Inr ((k, n) # fst c, snd c))"

definition list_put :: "((metric_kind \<times> string) list \<times> nat) putting" where
  "list_put k n ls v c =
     (if k = CounterKind \<and> v < 0 then py_raise CValueError ''negative'' else Inr (fst c, Suc (snd c)))"

lemma list_client: "client_serves ready list_register list_put (\<lambda>c. set (fst c))"
  by (auto simp: client_serves_def list_register_def list_put_def image_iff)


end
