(* ===== verification/Pool.thy ===== *)
theory Pool
  imports Observability
begin

text \<open>
  Pool instrumentation (\<^verbatim>\<open>_pool.py\<close>): listeners on the events of a SQLAlchemy pool count
  connections and remember, for every connection that is out, since when. The pool's connection records are
  numbered; \<open>pr_info\<close> is the \<^verbatim>\<open>info\<close> dictionary each carries. The clock reading a listener makes is an
  argument; what it reports to the metrics sink and the log is a list of signals.
\<close>

subsection \<open>The listeners\<close>

record checkout =
  co_since :: real
  co_context :: "string option"
  co_owner :: "string option"

record record_info =
  ri_checkout_at :: "real option"
  ri_context :: "string option"
  ri_owner :: "string option"

definition no_info :: record_info where
  "no_info = \<lparr>ri_checkout_at = None, ri_context = None, ri_owner = None\<rparr>"

record instrumentation =
  pi_key :: string
  pi_labels :: labels
  pi_long_hold :: real
  pi_created :: nat
  pi_closed :: nat
  pi_invalidations :: nat
  pi_checked_out :: "(nat, checkout) dict"
  pi_info :: "nat \<Rightarrow> record_info"

datatype signal =
    SgIncr string
  | SgObserve string real
  | SgGauge string real
  | SgLog "(string, pyval) dict"

definition new_instrumentation :: "string \<Rightarrow> labels \<Rightarrow> real \<Rightarrow> instrumentation" where
  "new_instrumentation key labels long_hold =
     \<lparr>pi_key = key, pi_labels = labels, pi_long_hold = long_hold, pi_created = 0, pi_closed = 0,
      pi_invalidations = 0, pi_checked_out = [], pi_info = (\<lambda>_. no_info)\<rparr>"

definition on_connect :: "instrumentation \<Rightarrow> instrumentation \<times> signal list" where
  "on_connect p = (p\<lparr>pi_created := pi_created p + 1\<rparr>, [SgIncr ''db_connections_created_total''])"

definition on_checkout :: "nat \<Rightarrow> real \<Rightarrow> instrumentation \<Rightarrow> instrumentation \<times> signal list" where
  "on_checkout rec clk p =
     (let info = (pi_info p rec)\<lparr>ri_checkout_at := Some clk\<rparr> in
      (p\<lparr>pi_info := (pi_info p)(rec := info),
         pi_checked_out := dict_set rec \<lparr>co_since = clk, co_context = ri_context info, co_owner = ri_owner info\<rparr> (pi_checked_out p)\<rparr>,
       []))"

definition long_hold_event :: "instrumentation \<Rightarrow> real \<Rightarrow> (string, pyval) dict \<Rightarrow> (string, pyval) dict" where
  "long_hold_event p hold trace_context =
     log_payload ''database.pool.long_hold''
       (no_fields\<lparr>lf_database := dict_get (pi_labels p) ''database'', lf_role := dict_get (pi_labels p) ''role'',
                  lf_duration_ms := Some (round3 (hold * 1000))\<rparr>)
       trace_context [(''pool'', PStr (pi_key p))]"

definition on_checkin :: "nat \<Rightarrow> real \<Rightarrow> (string, pyval) dict \<Rightarrow> instrumentation \<Rightarrow> instrumentation \<times> signal list" where
  "on_checkin rec clk trace_context p =
     (p\<lparr>pi_info := (pi_info p)(rec := no_info), pi_checked_out := dict_pop rec (pi_checked_out p)\<rparr>,
      case ri_checkout_at (pi_info p rec) of
        None \<Rightarrow> []
      | Some started \<Rightarrow>
          (let hold = clk - started in
           SgObserve ''db_connection_hold_duration_seconds'' hold
           # (if hold \<ge> pi_long_hold p then [SgLog (long_hold_event p hold trace_context)] else [])))"

definition on_invalidate :: "instrumentation \<Rightarrow> instrumentation \<times> signal list" where
  "on_invalidate p = (p\<lparr>pi_invalidations := pi_invalidations p + 1\<rparr>, [SgIncr ''db_pool_invalidations_total''])"

definition on_close :: "instrumentation \<Rightarrow> instrumentation \<times> signal list" where
  "on_close p = (p\<lparr>pi_closed := pi_closed p + 1\<rparr>, [SgIncr ''db_connections_closed_total''])"

subsection \<open>Snapshots\<close>

definition longest_current_hold :: "real \<Rightarrow> instrumentation \<Rightarrow> real" where
  "longest_current_hold clk p =
     (case map (\<lambda>(_, c). co_since c) (pi_checked_out p) of
        [] \<Rightarrow> 0
      | t # ts \<Rightarrow> clk - fold min ts t)"

record pool_snapshot =
  ps_key :: string
  ps_size :: int
  ps_checked_out :: int
  ps_checked_in :: int
  ps_overflow :: int
  ps_max_overflow :: int
  ps_created :: nat
  ps_closed :: nat
  ps_invalidations :: nat
  ps_longest_current_hold :: real

definition total_capacity :: "pool_snapshot \<Rightarrow> int" where
  "total_capacity s = ps_size s + max (ps_max_overflow s) 0"

definition utilization :: "pool_snapshot \<Rightarrow> real" where
  "utilization s = (if total_capacity s = 0 then 0 else of_int (ps_checked_out s) / of_int (total_capacity s))"

definition snapshot_to_dict :: "pool_snapshot \<Rightarrow> (string, pyval) dict" where
  "snapshot_to_dict s =
     [(''key'', PStr (ps_key s)), (''size'', PInt (ps_size s)), (''checked_out'', PInt (ps_checked_out s)),
      (''checked_in'', PInt (ps_checked_in s)), (''overflow'', PInt (ps_overflow s)), (''created'', PInt (int (ps_created s))),
      (''closed'', PInt (int (ps_closed s))), (''invalidations'', PInt (int (ps_invalidations s))),
      (''utilization'', PFloat (round3 (utilization s))),
      (''longest_current_hold_seconds'', PFloat (round3 (ps_longest_current_hold s)))]"

text \<open>The pool is SQLAlchemy's: \<open>ask\<close> answers its methods, \<open>None\<close> where a pool has no such method or it
  raises.\<close>

definition ask_or_zero :: "(string \<Rightarrow> int option) \<Rightarrow> string \<Rightarrow> int" where
  "ask_or_zero ask name = (case ask name of Some n \<Rightarrow> n | None \<Rightarrow> 0)"

definition snapshot :: "(string \<Rightarrow> int option) \<Rightarrow> real \<Rightarrow> instrumentation \<Rightarrow> pool_snapshot \<times> signal list" where
  "snapshot ask clk p =
     (let s = \<lparr>ps_key = pi_key p, ps_size = ask_or_zero ask ''size'', ps_checked_out = ask_or_zero ask ''checkedout'',
               ps_checked_in = ask_or_zero ask ''checkedin'', ps_overflow = max (ask_or_zero ask ''overflow'') 0,
               ps_max_overflow = ask_or_zero ask ''_max_overflow'', ps_created = pi_created p, ps_closed = pi_closed p,
               ps_invalidations = pi_invalidations p, ps_longest_current_hold = longest_current_hold clk p\<rparr>
      in (s, [SgGauge ''db_pool_size'' (of_int (ps_size s)), SgGauge ''db_pool_checked_out'' (of_int (ps_checked_out s)),
              SgGauge ''db_pool_overflow'' (of_int (ps_overflow s))]))"

subsection \<open>What the listeners know\<close>

datatype pool_event =
    PvConnect
  | PvCheckout nat real
  | PvCheckin nat real
  | PvInvalidate
  | PvClose

fun pool_step :: "instrumentation \<Rightarrow> pool_event \<Rightarrow> instrumentation" where
  "pool_step p PvConnect = fst (on_connect p)"
| "pool_step p (PvCheckout rec clk) = fst (on_checkout rec clk p)"
| "pool_step p (PvCheckin rec clk) = fst (on_checkin rec clk [] p)"
| "pool_step p PvInvalidate = fst (on_invalidate p)"
| "pool_step p PvClose = fst (on_close p)"

definition pool_run :: "instrumentation \<Rightarrow> pool_event list \<Rightarrow> instrumentation" where
  "pool_run p evs = foldl pool_step p evs"

text \<open>The specification: a connection is out since its last checkout if no checkin followed. The history is
  given backwards.\<close>

fun out_since :: "pool_event list \<Rightarrow> nat \<Rightarrow> real option" where
  "out_since [] rec = None"
| "out_since (PvCheckout r t # past) rec = (if r = rec then Some t else out_since past rec)"
| "out_since (PvCheckin r t # past) rec = (if r = rec then None else out_since past rec)"
| "out_since (_ # past) rec = out_since past rec"

definition oldest_checkout :: "real option \<Rightarrow> pool_event list \<Rightarrow> bool" where
  "oldest_checkout t evs \<longleftrightarrow>
     (case t of
        None \<Rightarrow> \<forall>rec. out_since (rev evs) rec = None
      | Some t \<Rightarrow> (\<exists>rec. out_since (rev evs) rec = Some t) \<and> (\<forall>rec u. out_since (rev evs) rec = Some u \<longrightarrow> t \<le> u))"

definition tracks :: "pool_event list \<Rightarrow> instrumentation \<Rightarrow> bool" where
  "tracks evs p \<longleftrightarrow> dict_wf (pi_checked_out p)
     \<and> (\<forall>rec. map_option co_since (dict_get (pi_checked_out p) rec) = out_since (rev evs) rec)
     \<and> (\<forall>rec. ri_checkout_at (pi_info p rec) = out_since (rev evs) rec)"

lemma step_tracks: "tracks evs p \<Longrightarrow> tracks (evs @ [e]) (pool_step p e)"
  by (cases e) (auto simp: tracks_def on_connect_def on_checkout_def on_checkin_def on_invalidate_def on_close_def
      no_info_def Let_def dict_get_set dict_get_pop)

lemma run_tracks: "tracks evs (pool_run (new_instrumentation key labels long_hold) evs)"
proof (induction evs rule: rev_induct)
  case Nil
  then show ?case by (simp add: tracks_def pool_run_def new_instrumentation_def no_info_def)
next
  case (snoc e evs)
  then show ?case using step_tracks by (simp add: pool_run_def)
qed

lemma fold_min: "fold min (ts :: real list) t = Min (set (t # ts))"
proof (induction ts arbitrary: t)
  case (Cons a ts)
  then show ?case by (cases "ts = []") (simp_all add: ac_simps)
qed simp

lemma longest_hold_spec:
  assumes "tracks evs p"
  shows "(longest_current_hold clk p = 0 \<and> oldest_checkout None evs)
    \<or> (\<exists>t. oldest_checkout (Some t) evs \<and> longest_current_hold clk p = clk - t)"
proof (cases "pi_checked_out p")
  case Nil
  then have "out_since (rev evs) rec = None" for rec
    using assms by (metis tracks_def map_of.simps(1) option.map(1))
  then have "oldest_checkout None evs" by (simp add: oldest_checkout_def)
  with Nil show ?thesis by (simp add: longest_current_hold_def)
next
  case (Cons x xs)
  let ?ts = "map (\<lambda>(_, c). co_since c) (pi_checked_out p)"
  have eq: "map_option co_since (dict_get (pi_checked_out p) r) = out_since (rev evs) r" for r
    using assms by (simp add: tracks_def)
  have wf: "dict_wf (pi_checked_out p)" using assms by (simp add: tracks_def)
  define m where "m = Min (set ?ts)"
  have hold: "longest_current_hold clk p = clk - m"
    using Cons fold_min by (simp add: longest_current_hold_def m_def split: prod.split)
  have "m \<in> set ?ts" unfolding m_def using Cons by (intro Min_in) auto
  then obtain rec c where "(rec, c) \<in> set (pi_checked_out p)" "m = co_since c" by auto
  then have "out_since (rev evs) rec = Some m"
    using eq [of rec] wf by (simp add: dict_wf_def)
  moreover have "m \<le> u" if out: "out_since (rev evs) r = Some u" for r u
  proof -
    obtain c where "dict_get (pi_checked_out p) r = Some c" "co_since c = u"
      using eq [of r] out by (cases "dict_get (pi_checked_out p) r") auto
    then have "(r, c) \<in> set (pi_checked_out p)" by (auto dest: map_of_SomeD)
    with \<open>co_since c = u\<close> have "u \<in> set ?ts" by force
    then show ?thesis unfolding m_def by (intro Min_le) auto
  qed
  ultimately have "oldest_checkout (Some m) evs" by (auto simp: oldest_checkout_def)
  with hold show ?thesis by blast
qed

text \<open>C29. The listeners refine the history of the pool: after any sequence of events the connections they list as
  checked out are exactly those whose last checkout no checkin followed, each with the time of that checkout, and
  the longest current hold is the age of the oldest of them, or zero when none is out.\<close>

theorem pool_tracks_holds:
  "map_option co_since (dict_get (pi_checked_out (pool_run (new_instrumentation key labels long_hold) evs)) rec)
     = out_since (rev evs) rec
   \<and> ((longest_current_hold clk (pool_run (new_instrumentation key labels long_hold) evs) = 0 \<and> oldest_checkout None evs)
    \<or> (\<exists>t. oldest_checkout (Some t) evs
         \<and> longest_current_hold clk (pool_run (new_instrumentation key labels long_hold) evs) = clk - t))"
  using run_tracks [of evs key labels long_hold] longest_hold_spec [OF run_tracks, of clk key labels long_hold evs]
  by (simp add: tracks_def)

end
