(* ===== verification/Lint.thy ===== *)
theory Lint
  imports Query Redaction
begin

text \<open>
  The idempotency lint (\<^verbatim>\<open>_core/idempotency_lint.py\<close>): a heuristic over the text of a write that is
  marked idempotent. Its regular expressions are matchers; as each word of a guard begins with a letter and is
  separated by white space, greedy matching never backtracks.
\<close>

subsection \<open>The patterns\<close>

definition word_char :: "char \<Rightarrow> bool" where
  "word_char c \<longleftrightarrow> alpha_char c \<or> digit_char c \<or> c = CHR ''_''
     \<or> (let n = of_char c :: nat in n \<in> {170, 178, 179, 181, 185, 186, 188, 189, 190}
          \<or> (192 \<le> n \<and> n \<le> 214) \<or> (216 \<le> n \<and> n \<le> 246) \<or> 248 \<le> n)"

definition starts_outside_word :: "string \<Rightarrow> bool" where
  "starts_outside_word s \<longleftrightarrow> (case s of [] \<Rightarrow> True | c # _ \<Rightarrow> \<not> word_char c)"

text \<open>A word, in any case, at the front of a text; and words separated by white space.\<close>

fun strip_word :: "string \<Rightarrow> string \<Rightarrow> string option" where
  "strip_word [] s = Some s"
| "strip_word (c # w) [] = None"
| "strip_word (c # w) (d # s) = (if lower_char d = c then strip_word w s else None)"

fun match_words :: "string list \<Rightarrow> string \<Rightarrow> string option" where
  "match_words [] s = Some s"
| "match_words [w] s = strip_word w s"
| "match_words (w # v # ws) s =
     (case strip_word w s of
        None \<Rightarrow> None
      | Some rest \<Rightarrow>
          (case rest of
             c # _ \<Rightarrow> if ws_char c then match_words (v # ws) (dropWhile ws_char rest) else None
           | [] \<Rightarrow> None))"

definition matches_here :: "string list \<Rightarrow> string \<Rightarrow> bool" where
  "matches_here words s \<longleftrightarrow> (case match_words words s of None \<Rightarrow> False | Some rest \<Rightarrow> starts_outside_word rest)"

text \<open>\<^verbatim>\<open>pattern.search\<close>: the pattern begins with a word character, so its leading \<^verbatim>\<open>\b\<close>
  asks that the character before is not one.\<close>

fun search_words :: "string list \<Rightarrow> bool \<Rightarrow> string \<Rightarrow> bool" where
  "search_words words in_word s =
     ((\<not> in_word \<and> matches_here words s)
      \<or> (case s of [] \<Rightarrow> False | c # rest \<Rightarrow> search_words words (word_char c) rest))"

declare search_words.simps [simp del]

definition GUARD_PATTERNS :: "string list list" where
  "GUARD_PATTERNS = [[''on'', ''conflict''], [''where'', ''not'', ''exists''], [''merge''], [''insert'', ''ignore'']]"

definition matches_insert :: "string \<Rightarrow> bool" where
  "matches_insert s \<longleftrightarrow> matches_here [''insert''] (dropWhile ws_char s)"

definition statement_text :: "query \<Rightarrow> string option" where
  "statement_text q = (case q_statement q of TextClause t \<Rightarrow> Some t | _ \<Rightarrow> None)"

definition looks_unsafe_to_retry :: "query \<Rightarrow> bool" where
  "looks_unsafe_to_retry q =
     (if \<not> (is_write q \<and> q_idempotent q) then False
      else
        (case statement_text q of
           None \<Rightarrow> False
         | Some text \<Rightarrow>
             if \<not> matches_insert text then False
             else \<not> list_ex (\<lambda>p. search_words p False text) GUARD_PATTERNS))"

subsection \<open>What the patterns mean\<close>

text \<open>A text spells a pattern: its words in any case, separated by white space.\<close>

fun spells :: "string list \<Rightarrow> string \<Rightarrow> bool" where
  "spells [] u \<longleftrightarrow> u = []"
| "spells [w] u \<longleftrightarrow> lower u = w"
| "spells (w # v # ws) u \<longleftrightarrow>
     (\<exists>a sp b. u = a @ sp @ b \<and> lower a = w \<and> sp \<noteq> [] \<and> list_all ws_char sp \<and> spells (v # ws) b)"

definition lower_words :: "string list \<Rightarrow> bool" where
  "lower_words ws \<longleftrightarrow> list_all (\<lambda>w. w \<noteq> [] \<and> list_all (\<lambda>c. \<forall>d. lower_char d = c \<longrightarrow> \<not> ws_char d) w) ws"

definition contains_guard :: "string list \<Rightarrow> string \<Rightarrow> bool" where
  "contains_guard words s \<longleftrightarrow>
     (\<exists>pre u post. s = pre @ u @ post \<and> spells words u \<and> starts_outside_word post
        \<and> (pre = [] \<or> \<not> word_char (last pre)))"

lemma strip_word_iff: "strip_word w s = Some rest \<longleftrightarrow> (\<exists>a. s = a @ rest \<and> lower a = w)"
proof (induction w s rule: strip_word.induct)
  case (3 c w d s)
  then show ?case by (auto simp: lower_def Cons_eq_append_conv)
qed (auto simp: lower_def)

lemma dropWhile_ws:
  "list_all ws_char sp \<Longrightarrow> (b = [] \<or> \<not> ws_char (hd b)) \<Longrightarrow> dropWhile ws_char (sp @ b) = b"
  by (induction sp) (auto simp: dropWhile_eq_self_iff)

lemma spells_front: "spells (w # ws) u \<Longrightarrow> w \<noteq> [] \<Longrightarrow> u \<noteq> [] \<and> lower_char (hd u) = hd w"
  by (cases ws) (auto simp: lower_def hd_append hd_map split: if_splits)

lemma match_words_iff:
  "ws \<noteq> [] \<Longrightarrow> lower_words ws \<Longrightarrow> match_words ws s = Some rest \<longleftrightarrow> (\<exists>u. s = u @ rest \<and> spells ws u)"
proof (induction ws s rule: match_words.induct)
  case (2 w s)
  then show ?case by (simp add: strip_word_iff)
next
  case (3 w v ws s)
  have lw: "lower_words (v # ws)" "v \<noteq> []" using 3(3) by (simp_all add: lower_words_def)
  show ?case
  proof
    assume "match_words (w # v # ws) s = Some rest"
    then obtain c r where r: "strip_word w s = Some (c # r)" "ws_char c"
      "match_words (v # ws) (dropWhile ws_char (c # r)) = Some rest"
      by (auto split: option.splits list.splits if_splits)
    then obtain u where u: "dropWhile ws_char (c # r) = u @ rest" "spells (v # ws) u"
      using 3(1) [OF r(1) refl r(2)] lw by auto
    obtain a where a: "s = a @ c # r" "lower a = w" using r(1) by (auto simp: strip_word_iff)
    let ?sp = "takeWhile ws_char (c # r)"
    have "c # r = ?sp @ u @ rest" using u(1) by (metis takeWhile_dropWhile_id)
    then have "s = (a @ ?sp @ u) @ rest" using a(1) by (simp del: takeWhile.simps)
    moreover have "spells (w # v # ws) (a @ ?sp @ u)"
      unfolding spells.simps using a(2) u(2) r(2)
      by (intro exI [of _ a] exI [of _ ?sp] exI [of _ u] conjI) (auto simp: list_all_iff dest: set_takeWhileD)
    ultimately show "\<exists>u. s = u @ rest \<and> spells (w # v # ws) u" by blast
  next
    assume "\<exists>u. s = u @ rest \<and> spells (w # v # ws) u"
    then obtain a sp b where s: "s = a @ sp @ b @ rest" "lower a = w" "sp \<noteq> []" "list_all ws_char sp" "spells (v # ws) b"
      by auto
    then obtain c r where sp: "sp = c # r" "ws_char c" by (cases sp) auto
    have strip: "strip_word w s = Some (c # r @ b @ rest)" using s sp by (auto simp: strip_word_iff)
    have "b \<noteq> []" "\<not> ws_char (hd b)"
      using spells_front [OF s(5) lw(2)] lw by (auto simp: lower_words_def list_all_iff)
    then have drop: "dropWhile ws_char (c # r @ b @ rest) = b @ rest"
      using dropWhile_ws [of sp "b @ rest"] s(4) sp by simp
    have "match_words (v # ws) (b @ rest) = Some rest"
      using 3(1) [OF strip refl sp(2)] lw s(5) drop by auto
    then show "match_words (w # v # ws) s = Some rest" using strip sp(2) drop by simp
  qed
qed simp

lemma matches_here_iff:
  "ws \<noteq> [] \<Longrightarrow> lower_words ws \<Longrightarrow>
     matches_here ws s \<longleftrightarrow> (\<exists>u post. s = u @ post \<and> spells ws u \<and> starts_outside_word post)"
proof (cases "match_words ws s")
  case None
  assume "ws \<noteq> []" "lower_words ws"
  from match_words_iff [OF this, of s] None show ?thesis by (auto simp: matches_here_def)
next
  case (Some rest)
  assume "ws \<noteq> []" "lower_words ws"
  note iff = match_words_iff [OF this, of s]
  from Some have "matches_here ws s \<longleftrightarrow> starts_outside_word rest" by (simp add: matches_here_def)
  moreover obtain u where "s = u @ rest" "spells ws u" using Some iff by auto
  moreover have "post = rest" if "s = u @ post" "spells ws u" for u post using that Some iff [of post] by auto
  ultimately show ?thesis by blast
qed

lemma search_words_iff:
  assumes "ws \<noteq> []" "lower_words ws"
  shows "search_words ws in_word s \<longleftrightarrow>
    (\<exists>pre u post. s = pre @ u @ post \<and> spells ws u \<and> starts_outside_word post
       \<and> (if pre = [] then \<not> in_word else \<not> word_char (last pre)))"
proof (induction s arbitrary: in_word)
  case Nil
  show ?case using matches_here_iff [OF assms, of "[]"] by (subst search_words.simps) auto
next
  case (Cons c s)
  let ?P = "\<lambda>in_word s pre u post. s = pre @ u @ post \<and> spells ws u \<and> starts_outside_word post
       \<and> (if pre = [] then \<not> in_word else \<not> word_char (last pre))"
  have "search_words ws in_word (c # s) \<longleftrightarrow>
      (\<not> in_word \<and> matches_here ws (c # s)) \<or> search_words ws (word_char c) s"
    by (subst search_words.simps) simp
  also have "\<dots> \<longleftrightarrow> (\<exists>u post. ?P in_word (c # s) [] u post) \<or> (\<exists>pre u post. ?P (word_char c) s pre u post)"
    using matches_here_iff [OF assms, of "c # s"] Cons.IH by auto
  also have "\<dots> \<longleftrightarrow> (\<exists>pre u post. ?P in_word (c # s) pre u post)"
  proof
    assume "(\<exists>u post. ?P in_word (c # s) [] u post) \<or> (\<exists>pre u post. ?P (word_char c) s pre u post)"
    then show "\<exists>pre u post. ?P in_word (c # s) pre u post"
    proof
      assume "\<exists>pre u post. ?P (word_char c) s pre u post"
      then obtain pre u post where "?P (word_char c) s pre u post" by blast
      then have "?P in_word (c # s) (c # pre) u post" by (auto split: if_splits)
      then show ?thesis by blast
    qed blast
  next
    assume "\<exists>pre u post. ?P in_word (c # s) pre u post"
    then obtain pre u post where p: "?P in_word (c # s) pre u post" by blast
    show "(\<exists>u post. ?P in_word (c # s) [] u post) \<or> (\<exists>pre u post. ?P (word_char c) s pre u post)"
    proof (cases pre)
      case Nil
      with p show ?thesis by blast
    next
      case (Cons d ds)
      with p have "?P (word_char c) s ds u post" by (auto split: if_splits)
      then show ?thesis by blast
    qed
  qed
  finally show ?case .
qed

lemma contains_guard_iff:
  "ws \<noteq> [] \<Longrightarrow> lower_words ws \<Longrightarrow> search_words ws False s \<longleftrightarrow> contains_guard ws s"
  unfolding search_words_iff contains_guard_def by (rule ex_cong1)+ auto

lemma ws_lower: "ws_char d \<Longrightarrow> lower_char d = d"
  by (auto simp: ws_char_def lower_char_def Let_def)

lemma lower_wordsI: "list_all (\<lambda>w. w \<noteq> [] \<and> list_all (\<lambda>c. \<not> ws_char c) w) ws \<Longrightarrow> lower_words ws"
  using ws_lower by (fastforce simp: lower_words_def list_all_iff)

lemma guards_lower: "p \<in> set GUARD_PATTERNS \<Longrightarrow> p \<noteq> [] \<and> lower_words p"
proof -
  have "list_all (\<lambda>p. p \<noteq> [] \<and> list_all (\<lambda>w. w \<noteq> [] \<and> list_all (\<lambda>c. \<not> ws_char c) w) p) GUARD_PATTERNS"
    by code_simp
  then show "p \<in> set GUARD_PATTERNS \<Longrightarrow> ?thesis" by (auto simp: list_all_iff [of _ GUARD_PATTERNS] intro: lower_wordsI)
qed

lemma insert_lower: "lower_words [''insert'']"
  by (rule lower_wordsI) code_simp

definition begins_with_insert :: "string \<Rightarrow> bool" where
  "begins_with_insert s \<longleftrightarrow>
     (\<exists>sp u rest. s = sp @ u @ rest \<and> list_all ws_char sp \<and> lower u = ''insert'' \<and> starts_outside_word rest)"

lemma matches_insert_iff: "matches_insert s \<longleftrightarrow> begins_with_insert s"
proof -
  have here: "matches_here [''insert''] t \<longleftrightarrow> (\<exists>u post. t = u @ post \<and> lower u = ''insert'' \<and> starts_outside_word post)" for t
    using matches_here_iff [OF _ insert_lower, of t] by simp
  show ?thesis
  proof
    assume "matches_insert s"
    then obtain u post where "dropWhile ws_char s = u @ post" "lower u = ''insert''" "starts_outside_word post"
      by (auto simp: matches_insert_def here)
    moreover have "s = takeWhile ws_char s @ dropWhile ws_char s" by simp
    moreover have "list_all ws_char (takeWhile ws_char s)" by (auto simp: list_all_iff dest: set_takeWhileD)
    ultimately show "begins_with_insert s" unfolding begins_with_insert_def by metis
  next
    assume "begins_with_insert s"
    then obtain sp u rest where s: "s = sp @ u @ rest" "list_all ws_char sp" "lower u = ''insert''" "starts_outside_word rest"
      by (auto simp: begins_with_insert_def)
    then have "u \<noteq> []" by (auto simp: lower_def)
    moreover have "lower_char (hd u) = CHR ''i''" using s(3) \<open>u \<noteq> []\<close> by (cases u) (auto simp: lower_def)
    then have "\<not> ws_char (hd u)"
    proof -
      have "\<not> ws_char (CHR ''i'')" by (simp add: ws_char_def)
      then show ?thesis using ws_lower [of "hd u"] \<open>lower_char (hd u) = CHR ''i''\<close> by metis
    qed
    ultimately have "dropWhile ws_char s = u @ rest" using dropWhile_ws [of sp "u @ rest"] s(1,2) by simp
    then show "matches_insert s" using s(3,4) by (auto simp: matches_insert_def here)
  qed
qed

text \<open>What the lint flags: an idempotent write whose text begins with INSERT, in any case and after any white
  space, and holds none of the guards as whole words with any white space between them.\<close>

theorem lint_spec:
  "looks_unsafe_to_retry q \<longleftrightarrow>
     is_write q \<and> q_idempotent q
     \<and> (\<exists>text. q_statement q = TextClause text \<and> begins_with_insert text
          \<and> \<not> list_ex (\<lambda>guard. contains_guard guard text) GUARD_PATTERNS)"
proof -
  have "search_words p False t \<longleftrightarrow> contains_guard p t" if "p \<in> set GUARD_PATTERNS" for p t
    using contains_guard_iff guards_lower [OF that] by blast
  then have "list_ex (\<lambda>p. search_words p False t) GUARD_PATTERNS \<longleftrightarrow> list_ex (\<lambda>p. contains_guard p t) GUARD_PATTERNS" for t
    by (auto simp: list_ex_iff)
  then show ?thesis
    by (auto simp: looks_unsafe_to_retry_def statement_text_def matches_insert_iff split: statement_obj.splits)
qed

end
