(* ===== verification/Problem.thy ===== *)
theory Problem
  imports Observability
begin

text \<open>
  The web integration (\<^verbatim>\<open>integrations/fastapi.py\<close>): the handler that turns a
  \<^verbatim>\<open>DatabaseError\<close> into an RFC 7807 response. Starlette's response object is the record of the
  arguments it is built from; registering the handler with the application is not modelled.
\<close>

subsection \<open>The handler\<close>

text \<open>The \<^verbatim>\<open>database\<close> argument: absent, an object without the configuration asked for, or one with
  the breaker's \<^verbatim>\<open>open_seconds\<close>.\<close>

datatype facade_arg = NoFacade | OtherObject | OpenSeconds real

definition DEFAULT_RETRY_AFTER_SECONDS :: int where
  "DEFAULT_RETRY_AFTER_SECONDS = 2"

definition derive_retry_after :: "facade_arg \<Rightarrow> int" where
  "derive_retry_after database =
     (case database of
        NoFacade \<Rightarrow> DEFAULT_RETRY_AFTER_SECONDS
      | OtherObject \<Rightarrow> DEFAULT_RETRY_AFTER_SECONDS
      | OpenSeconds s \<Rightarrow> max (- \<lfloor>- s\<rfloor>) 1)"

definition retry_after_of :: "int option \<Rightarrow> facade_arg \<Rightarrow> int" where
  "retry_after_of explicit database = (case explicit of Some n \<Rightarrow> n | None \<Rightarrow> derive_retry_after database)"

record response =
  rs_body :: "(string, pyval) dict"
  rs_status :: int
  rs_headers :: "(string, string) dict option"
  rs_media_type :: string

definition problem ::
  "string \<Rightarrow> string \<Rightarrow> string \<Rightarrow> int \<Rightarrow> string option \<Rightarrow> (string, string) dict option \<Rightarrow> response" where
  "problem path slug title status detail headers =
     \<lparr>rs_body = [(''type'', PStr (''urn:problem:'' @ slug)), (''title'', PStr title), (''status'', PInt status),
                 (''instance'', PStr path)]
                @ (case detail of None \<Rightarrow> [] | Some d \<Rightarrow> [(''detail'', PStr d)]),
      rs_status = status, rs_headers = headers, rs_media_type = ''application/problem+json''\<rparr>"

fun class_name :: "error_class \<Rightarrow> string" where
  "class_name DatabaseError = ''DatabaseError''"
| "class_name DatabaseConfigurationError = ''DatabaseConfigurationError''"
| "class_name DatabaseRoutingError = ''DatabaseRoutingError''"
| "class_name DatabaseUnavailableError = ''DatabaseUnavailableError''"
| "class_name DatabaseConnectionError = ''DatabaseConnectionError''"
| "class_name DatabasePoolTimeoutError = ''DatabasePoolTimeoutError''"
| "class_name DatabaseQueryTimeoutError = ''DatabaseQueryTimeoutError''"
| "class_name DatabaseLockTimeoutError = ''DatabaseLockTimeoutError''"
| "class_name DatabaseDeadlockError = ''DatabaseDeadlockError''"
| "class_name DatabaseSerializationError = ''DatabaseSerializationError''"
| "class_name DatabaseIntegrityError = ''DatabaseIntegrityError''"
| "class_name DatabaseUniqueViolationError = ''DatabaseUniqueViolationError''"
| "class_name DatabaseForeignKeyViolationError = ''DatabaseForeignKeyViolationError''"
| "class_name DatabaseNotNullViolationError = ''DatabaseNotNullViolationError''"
| "class_name DatabaseCheckViolationError = ''DatabaseCheckViolationError''"
| "class_name DatabaseProgrammingError = ''DatabaseProgrammingError''"
| "class_name DatabaseSyntaxError = ''DatabaseSyntaxError''"
| "class_name DatabasePermissionError = ''DatabasePermissionError''"
| "class_name DatabaseReadOnlyError = ''DatabaseReadOnlyError''"
| "class_name DatabaseTransactionError = ''DatabaseTransactionError''"
| "class_name DatabaseCommitUnknownError = ''DatabaseCommitUnknownError''"
| "class_name DatabaseCancellationError = ''DatabaseCancellationError''"
| "class_name DatabaseResultError = ''DatabaseResultError''"
| "class_name DatabaseMappingError = ''DatabaseMappingError''"
| "class_name DatabaseCircuitOpenError = ''DatabaseCircuitOpenError''"
| "class_name DatabaseOverloadedError = ''DatabaseOverloadedError''"
| "class_name DatabaseUnsupportedOperationError = ''DatabaseUnsupportedOperationError''"

text \<open>The response, and what is logged on the way.\<close>

definition database_error_handler ::
  "int \<Rightarrow> bool \<Rightarrow> (string, pyval) dict \<Rightarrow> string \<Rightarrow> db_error \<Rightarrow> response \<times> (string, pyval) dict list" where
  "database_error_handler retry_after expose_detail trace_context path exc =
     (let detail = (if expose_detail then Some (err_message exc) else None) in
      if err_category exc \<in> set TIMEOUT_CATEGORIES then
        (problem path ''database-timeout'' ''Database query exceeded its time budget'' 504 detail None, [])
      else if err_category exc \<in> set OVERLOAD_CATEGORIES then
        (problem path ''database-overloaded'' ''Database is temporarily overloaded'' 503 detail
           (Some [(''Retry-After'', show_int retry_after)]), [])
      else
        (problem path ''database-error'' ''An unexpected database error occurred'' 500 detail None,
         [log_payload ''database.unhandled_error'' no_fields trace_context
            [(''category'', PStr (category_value (err_category exc))), (''error'', PStr (class_name (err_class exc)))]]))"

definition respond :: "int option \<Rightarrow> facade_arg \<Rightarrow> bool \<Rightarrow> string \<Rightarrow> db_error \<Rightarrow> response" where
  "respond explicit database expose_detail path exc =
     fst (database_error_handler (retry_after_of explicit database) expose_detail [] path exc)"

subsection \<open>What a client sees\<close>

text \<open>The classes of the hierarchy by the answer they get.\<close>

definition shed_classes :: "error_class list" where
  "shed_classes = [DatabaseError, DatabaseUnavailableError, DatabaseConnectionError, DatabasePoolTimeoutError,
     DatabaseSerializationError, DatabaseCircuitOpenError, DatabaseOverloadedError]"

definition late_classes :: "error_class list" where
  "late_classes = [DatabaseQueryTimeoutError, DatabaseLockTimeoutError, DatabaseDeadlockError, DatabaseCancellationError]"

lemma class_category_groups:
  "class_category c \<in> set TIMEOUT_CATEGORIES \<longleftrightarrow> c \<in> set late_classes"
  "class_category c \<in> set OVERLOAD_CATEGORIES \<longleftrightarrow> c \<in> set shed_classes"
  by (cases c; simp add: class_category_def TIMEOUT_CATEGORIES_def OVERLOAD_CATEGORIES_def late_classes_def shed_classes_def)+

text \<open>The answer of every error: the class of an error built by the toolkit decides the status, 504 for the
  time-outs and lock conflicts, 503 for shed load and an unreachable backend, 500 for everything else; exactly the
  503 carries \<^verbatim>\<open>Retry-After\<close>, and a derived value is a whole number of seconds, at least one and never
  before the breaker can let a call through.\<close>

theorem response_by_class:
  "(let r = respond None database expose path (new_error c msg (kw\<lparr>kw_category := None\<rparr>)) in
      rs_status r = (if c \<in> set late_classes then 504 else if c \<in> set shed_classes then 503 else 500)
      \<and> rs_headers r = (if c \<in> set shed_classes then Some [(''Retry-After'', show_int (derive_retry_after database))] else None))
    \<and> 1 \<le> derive_retry_after database
    \<and> (case database of OpenSeconds s \<Rightarrow> s \<le> of_int (derive_retry_after database) | _ \<Rightarrow> True)"
proof -
  have disj: "c \<in> set late_classes \<Longrightarrow> c \<notin> set shed_classes"
    by (auto simp: late_classes_def shed_classes_def)
  have d: "1 \<le> derive_retry_after database"
    by (simp add: derive_retry_after_def DEFAULT_RETRY_AFTER_SECONDS_def split: facade_arg.split)
  have s: "case database of OpenSeconds s \<Rightarrow> s \<le> of_int (derive_retry_after database) | _ \<Rightarrow> True"
  proof (cases database)
    case (OpenSeconds s)
    have "s \<le> of_int (- \<lfloor>- s\<rfloor>)" using of_int_floor_le [of "- s"] by linarith
    also have "\<dots> \<le> of_int (max (- \<lfloor>- s\<rfloor>) 1)" by (simp only: of_int_le_iff max.cobounded1)
    finally show ?thesis using OpenSeconds by (simp add: derive_retry_after_def)
  qed simp_all
  show ?thesis
    using disj d s
    by (simp add: respond_def database_error_handler_def problem_def retry_after_of_def class_category_groups Let_def)
qed

text \<open>Unless details are exposed, a client learns nothing of an error but its category: two errors of one
  category get the same response.\<close>

theorem hidden_details_indistinguishable:
  assumes "err_category e1 = err_category e2"
  shows "respond explicit database False path e1 = respond explicit database False path e2"
  using assms by (simp add: respond_def database_error_handler_def Let_def)

theorem hidden_details_indistinguishable_witness:
  "respond None NoFacade False ''/users'' (new_error DatabaseSyntaxError ''syntax error near hunter2'' no_kwargs)
   = respond None NoFacade False ''/users'' (new_error DatabaseProgrammingError ''no such column'' no_kwargs)"
  by (rule hidden_details_indistinguishable) (simp add: class_category_def)

text \<open>A bug can be answered as an overload: an exception that is neither the driver's nor SQLAlchemy's nor a
  lost connection is classified as a plain \<^verbatim>\<open>DatabaseError\<close>, whose category is availability, so it is
  answered with 503 and \<^verbatim>\<open>Retry-After\<close>, and is not logged.\<close>

theorem unclassified_is_answered_503:
  assumes "class_of_foreign x = DatabaseError" "\<not> isinstance x CTimeoutError"
  shows "case database_error_handler n expose tc path (classify (Foreign x) ctx) of
      (r, logs) \<Rightarrow> rs_status r = 503 \<and> rs_headers r = Some [(''Retry-After'', show_int n)] \<and> logs = []"
  using assms class_category_groups [of DatabaseError]
  by (simp add: database_error_handler_def Let_def problem_def classify_foreign_category classified_class_def
      late_classes_def shed_classes_def)

theorem unclassified_is_answered_503_witness:
  "rs_status (fst (database_error_handler 2 False [] ''/users'' (classify (Foreign (plain_exn [CException, CKeyError] ''id'')) no_context))) = 503"
proof -
  have "class_of_foreign (plain_exn [CException, CKeyError] ''id'') = DatabaseError" by code_simp
  moreover have "\<not> isinstance (plain_exn [CException, CKeyError] ''id'') CTimeoutError" by code_simp
  ultimately show ?thesis
    using unclassified_is_answered_503 [of "plain_exn [CException, CKeyError] ''id''" 2 False "[]" "''/users''" no_context]
    by (simp split: prod.splits)
qed

end
