(* ===== verification/Console.thy ===== *)
theory Console
  imports Loading Health Lint
begin

text \<open>
  The command line (\<^verbatim>\<open>cli/main.py\<close>): every command as the lines it prints and how it ends. Typer's
  argument parsing is left out; \<open>read\<close> is the file system and the YAML parser (\<open>None\<close> for a file that does
  not exist). The commands \<^verbatim>\<open>pools\<close> and \<^verbatim>\<open>metrics\<close> are in \<open>Status\<close>.
\<close>

subsection \<open>Output\<close>

datatype line = Out string | Err string

datatype finish = Exit int | Crash raised

type_synonym report = "line list \<times> finish"

definition list_text :: "string list \<Rightarrow> string" where
  "list_text xs = ''['' @ join_with '', '' (map quoted xs) @ '']''"

definition bool_text :: "bool \<Rightarrow> string" where
  "bool_text b = (if b then ''True'' else ''False'')"

text \<open>\<^verbatim>\<open>_load_config\<close>; a document with values outside the modelled types is \<open>None\<close>.\<close>

definition load_config ::
  "(string \<Rightarrow> pyval py option) \<Rightarrow> (string \<Rightarrow> real option) \<Rightarrow> (string, string) dict \<Rightarrow> string \<Rightarrow> (report + dbkit_config) option" where
  "load_config read rf environ path =
     (case read path of
        None \<Rightarrow> Some (Inl ([Err (''config file not found: '' @ path)], Exit 1))
      | Some (Inl e) \<Rightarrow> Some (Inl ([], Crash e))
      | Some (Inr doc) \<Rightarrow>
          (case from_document rf environ path doc of
             Loaded c \<Rightarrow> Some (Inr c)
           | Untyped \<Rightarrow> None
           | Failed e \<Rightarrow>
               (case e of
                  DbErr d \<Rightarrow>
                    if error_isa d DatabaseConfigurationError
                    then Some (Inl ([Err (''configuration error: '' @ err_message d)], Exit 1))
                    else Some (Inl ([], Crash e))
                | Foreign _ \<Rightarrow> Some (Inl ([], Crash e)))))"

definition operational_warnings :: "dbkit_config \<Rightarrow> line list py" where
  "operational_warnings c = sum_bind (tls_warnings c) (\<lambda>tls.
     Inr (map (\<lambda>w. Out (''  [WARNING] '' @ w)) (budget_enforcement_warnings c @ tls)))"

text \<open>Print, then go on unless it failed.\<close>

definition print_then :: "line list \<Rightarrow> line list py \<Rightarrow> report \<Rightarrow> report" where
  "print_then before lines rest =
     (case lines of
        Inl e \<Rightarrow> (before, Crash e)
      | Inr ls \<Rightarrow> (before @ ls @ fst rest, snd rest))"

subsection \<open>The commands that do not connect\<close>

definition target_line :: "string \<Rightarrow> target_config \<Rightarrow> string \<Rightarrow> line" where
  "target_line name t kind = Out (''  '' @ name @ ''.'' @ kind @ '': '' @ t_url t)"

definition database_lines :: "string \<times> database_config \<Rightarrow> line list" where
  "database_lines p =
     target_line (fst p) (db_primary (snd p)) ''primary''
     # map (\<lambda>r. target_line (fst p) r (''replica:'' @ t_name r)) (db_replicas (snd p))"

definition config_validate :: "dbkit_config \<Rightarrow> report" where
  "config_validate c =
     print_then
       ([Out (''environment: '' @ environment c), Out (''databases: '' @ list_text (dict_keys (databases c)))]
        @ concat (map database_lines (databases (redacted c)))
        @ [Out ''configuration is valid''])
       (operational_warnings c) ([], Exit 0)"

definition engine_lines :: "string \<times> database_config \<Rightarrow> line list py" where
  "engine_lines p =
     sum_bind (driver (db_primary (snd p))) (\<lambda>d.
     sum_bind (map_sum (\<lambda>r. sum_bind (driver r) (\<lambda>dr.
         Inr (Out (fst p @ ''.replica:'' @ t_name r @ ''  driver='' @ dr @ ''  weight='' @ show_int (t_weight r)))))
       (db_replicas (snd p))) (\<lambda>ls.
       Inr (Out (fst p @ ''.primary  driver='' @ d @ ''  required='' @ bool_text (t_required (db_primary (snd p)))) # ls)))"

fun print_each :: "('a \<Rightarrow> line list py) \<Rightarrow> 'a list \<Rightarrow> report" where
  "print_each f [] = ([], Exit 0)"
| "print_each f (x # xs) = print_then [] (f x) (print_each f xs)"

definition engines_command :: "dbkit_config \<Rightarrow> report" where
  "engines_command c = print_each engine_lines (databases c)"

definition connection_budget_command :: "dbkit_config \<Rightarrow> int \<Rightarrow> report" where
  "connection_budget_command c replicas =
     (let per_process = max_connections_per_process c in
      ([Out (''per-process:    '' @ show_int per_process), Out (''app replicas:   '' @ show_int replicas),
        Out (''cluster total:  '' @ show_int (per_process * max replicas 1))]
       @ (case maximum_per_process (connection_budget c) of
            None \<Rightarrow> []
          | Some limit \<Rightarrow>
              [Out (''configured per-process budget: '' @ show_int limit @ '' (''
                 @ (if per_process \<le> limit then ''OK'' else ''EXCEEDS budget'') @ '')'')]), Exit 0))"

definition query_line :: "query_ref \<Rightarrow> line" where
  "query_line r =
     Out (q_name (snd r) @ ''  operation='' @ operation_value (q_operation (snd r)) @ ''  idempotent=''
        @ bool_text (q_idempotent (snd r))
        @ (if looks_unsafe_to_retry (snd r)
           then ''  [WARNING: idempotent=True but no ON CONFLICT/guard detected - verify this write is actually safe to run twice]''
           else ''''))"

definition query_list :: "query_registry \<Rightarrow> report" where
  "query_list reg =
     (if names reg = [] then ([Out ''no queries registered in the default registry''], Exit 0)
      else (map query_line (all_queries reg), Exit 0))"

subsection \<open>The commands that connect\<close>

text \<open>Start, run, and close whatever happened; a failed start leaves nothing to close.\<close>

definition cli_session :: "('r, 's) world \<Rightarrow> bool \<Rightarrow> ('r, 's, 'a) facade_op \<Rightarrow> ('r, 's, 'a) facade_op" where
  "cli_session w warm body tr st =
     (case db_start w warm tr st of
        (Inl e, tr1, st1) \<Rightarrow> (Inl e, tr1, st1)
      | (Inr _, tr1, st1) \<Rightarrow>
          (case body tr1 st1 of (x, tr2, (r, f)) \<Rightarrow> (x, tr2, (r, snd (close f)))))"

definition status_text :: "target_health \<Rightarrow> string" where
  "status_text t = (if th_healthy t then ''OK'' else ''FAILED: '' @ (case th_error t of None \<Rightarrow> ''None'' | Some e \<Rightarrow> e))"

text \<open>\<^verbatim>\<open>_run\<close>: a \<^verbatim>\<open>DatabaseError\<close> is printed and ends with status 1; an unready
  report ends with status 1 too.\<close>

definition finish_run :: "line list \<Rightarrow> (health_report \<Rightarrow> line list) \<Rightarrow> line list \<Rightarrow> health_report py \<Rightarrow> report" where
  "finish_run before show_report after r =
     (case r of
        Inl (DbErr d) \<Rightarrow> (before @ [Err (''error: '' @ err_message d)], Exit 1)
      | Inl e \<Rightarrow> (before, Crash e)
      | Inr rep \<Rightarrow>
          if hr_ready rep then (before @ show_report rep @ after, Exit 0)
          else (before @ show_report rep, Exit 1))"

definition check_command :: "('r, 's) world \<Rightarrow> ('r, 's, report) facade_op" where
  "check_command w tr st =
     (let c = fd_config (snd st);
          ok = [Out (''configuration OK: '' @ show_nat (length (databases c)) @ '' database(s), environment='' @ quoted (environment c))]
      in case operational_warnings c of
           Inl e \<Rightarrow> (Inr (ok, Crash e), tr, st)
         | Inr ws \<Rightarrow>
             (case cli_session w False (health w) tr st of
                (r, tr1, st1) \<Rightarrow>
                  (Inr (finish_run (ok @ ws)
                     (\<lambda>rep. map (\<lambda>t. Out (''  '' @ th_key t @ '': '' @ status_text t)) (hr_targets rep))
                     [Out ''all required databases are ready''] r), tr1, st1)))"

definition health_command :: "('r, 's) world \<Rightarrow> string option \<Rightarrow> ('r, 's, report) facade_op" where
  "health_command w database tr st =
     (case cli_session w False (health w) tr st of
        (r, tr1, st1) \<Rightarrow>
          (Inr (finish_run []
             (\<lambda>rep. map (\<lambda>t. Out (th_key t @ '': '' @ status_text t))
                (filter (\<lambda>t. \<not> truthy_str database
                     \<or> take (length (the database) + 1) (th_key t) = the database @ ''.'') (hr_targets rep)))
             [] r), tr1, st1))"

subsection \<open>Passwords never reach the output\<close>

text \<open>Two URLs that differ in the password only. Neither the user nor the passwords may hold a character that
  ends the network location or makes it malformed: a DSN has those percent-encoded.\<close>

definition location_char :: "char \<Rightarrow> bool" where
  "location_char c \<longleftrightarrow> dsn_user_char c \<and> dsn_pw_char c \<and> c \<notin> set ''?#[]'' \<and> (of_char c :: nat) > 32"

definition password_char :: "char \<Rightarrow> bool" where
  "password_char c \<longleftrightarrow> dsn_pw_char c \<and> c \<notin> set ''?#[]'' \<and> (of_char c :: nat) > 32"

definition dsn_scheme :: "string \<Rightarrow> bool" where
  "dsn_scheme sch \<longleftrightarrow> sch \<noteq> [] \<and> list_all dsn_scheme_char sch \<and> alpha_char (hd sch)"

definition differ_in_password :: "string \<Rightarrow> string \<Rightarrow> bool" where
  "differ_in_password u1 u2 \<longleftrightarrow>
     (\<exists>sch usr pw1 pw2 rest. dsn_scheme sch \<and> usr \<noteq> [] \<and> list_all location_char usr
        \<and> pw1 \<noteq> [] \<and> list_all password_char pw1 \<and> pw2 \<noteq> [] \<and> list_all password_char pw2
        \<and> u1 = sch @ ''://'' @ usr @ '':'' @ pw1 @ ''@'' @ rest \<and> u2 = sch @ ''://'' @ usr @ '':'' @ pw2 @ ''@'' @ rest)"

lemma location_chars:
  "list_all location_char s \<Longrightarrow> list_all password_char s" "list_all location_char s \<Longrightarrow> list_all dsn_user_char s"
  "list_all password_char s \<Longrightarrow> list_all dsn_pw_char s"
  by (auto simp: location_char_def password_char_def list_all_iff)

lemma password_clean:
  assumes "list_all password_char s"
  shows "filter (\<lambda>c. (of_char c :: nat) \<notin> {9, 10, 13}) s = s" "\<forall>c \<in> set s. c \<notin> set ''/?#''"
    "CHR ''['' \<notin> set s" "CHR '']'' \<notin> set s"
proof -
  have char: "(of_char c :: nat) > 32 \<and> c \<notin> set ''/?#[]''" if "c \<in> set s" for c
    using assms that by (auto simp: list_all_iff password_char_def dsn_pw_char_def)
  have plain: "n \<notin> {9, 10, 13}" if "32 < n" for n :: nat using that by auto
  show "filter (\<lambda>c. (of_char c :: nat) \<notin> {9, 10, 13}) s = s"
    by (rule filter_True) (use char plain in blast)
  show "\<forall>c \<in> set s. c \<notin> set ''/?#''" "CHR ''['' \<notin> set s" "CHR '']'' \<notin> set s" using char by auto
qed

lemma scheme_clean:
  assumes "dsn_scheme sch"
  shows "filter (\<lambda>c. (of_char c :: nat) \<notin> {9, 10, 13}) sch = sch" "CHR '':'' \<notin> set sch" "list_all url_scheme_char sch"
    "\<not> (of_char (hd sch) :: nat) \<le> 32"
proof -
  have char: "(of_char c :: nat) > 32 \<and> c \<noteq> CHR '':'' \<and> url_scheme_char c" if "c \<in> set sch" for c
  proof -
    have "dsn_scheme_char c" using assms that by (simp add: dsn_scheme_def list_all_iff)
    moreover have "\<not> dsn_scheme_char (CHR '':'')" by simp
    ultimately show ?thesis
      by (auto simp: dsn_scheme_char_def url_scheme_char_def alpha_char_def digit_char_def Let_def)
  qed
  have plain: "n \<notin> {9, 10, 13}" if "32 < n" for n :: nat using that by auto
  show "filter (\<lambda>c. (of_char c :: nat) \<notin> {9, 10, 13}) sch = sch"
    by (rule filter_True) (use char plain in blast)
  show "CHR '':'' \<notin> set sch" "list_all url_scheme_char sch" using char by (auto simp: list_all_iff)
  have "hd sch \<in> set sch" using assms by (simp add: dsn_scheme_def)
  then show "\<not> (of_char (hd sch) :: nat) \<le> 32" using char by force
qed

definition tail_parts :: "string \<Rightarrow> string option" where
  "tail_parts rest =
     (let r = filter (\<lambda>c. (of_char c :: nat) \<notin> {9, 10, 13}) rest;
          host = takeWhile (\<lambda>c. c \<notin> set ''/?#'') r
      in if (CHR ''['' \<in> set host) \<noteq> (CHR '']'' \<in> set host) then None
         else Some (snd (snd (partition_at (CHR ''?'') (fst (partition_at (CHR ''#'') (dropWhile (\<lambda>c. c \<notin> set ''/?#'') r)))))))"

lemma urlsplit_query:
  assumes "dsn_scheme sch" "list_all location_char usr" "list_all password_char pw"
  shows "map_option up_query (urlsplit (sch @ ''://'' @ usr @ '':'' @ pw @ ''@'' @ rest)) = tail_parts rest"
proof -
  let ?ok = "\<lambda>c. (of_char c :: nat) \<notin> {9, 10, 13}" and ?in = "\<lambda>c. c \<notin> set ''/?#''"
  let ?r = "filter ?ok rest"
  note u = password_clean [OF location_chars(1) [OF assms(2)]] and p = password_clean [OF assms(3)] and s = scheme_clean [OF assms(1)]
  have drop: "dropWhile (\<lambda>c. (of_char c :: nat) \<le> 32) (sch @ x) = sch @ x" for x
    using assms(1) s(4) by (cases sch) (simp_all add: dsn_scheme_def)
  have url0: "filter ?ok (sch @ ''://'' @ usr @ '':'' @ pw @ ''@'' @ rest) = sch @ ''://'' @ usr @ '':'' @ pw @ ''@'' @ ?r"
    using u(1) p(1) s(1) by simp
  have front: "takeWhile (\<lambda>c. c \<noteq> CHR '':'') (sch @ CHR '':'' # x) = sch" for x
    using s(2) by (induction sch) auto
  have loc: "takeWhile ?in (usr @ '':'' @ pw @ ''@'' @ ?r) = usr @ '':'' @ pw @ ''@'' @ takeWhile ?in ?r"
    "dropWhile ?in (usr @ '':'' @ pw @ ''@'' @ ?r) = dropWhile ?in ?r"
    using u(2) p(2) by (simp_all add: takeWhile_append2 dropWhile_append2)
  have "0 < length sch" "alpha_char (sch ! 0)" using assms(1) by (auto simp: dsn_scheme_def hd_conv_nth)
  then show ?thesis
    unfolding urlsplit_def drop Let_def url0
    using s(3) u(3,4) p(3,4)
    by (simp add: front loc [simplified] tail_parts_def nth_append Let_def split: prod.splits)
qed

lemma has_explicit_tls_hides:
  assumes "differ_in_password (t_url t1) (t_url t2)"
  shows "has_explicit_tls_setting t1 = has_explicit_tls_setting t2"
proof -
  from assms have eq: "map_option up_query (urlsplit (t_url t1)) = map_option up_query (urlsplit (t_url t2))"
    unfolding differ_in_password_def using urlsplit_query by metis
  then show ?thesis
    by (cases "urlsplit (t_url t1)"; cases "urlsplit (t_url t2)")
      (simp_all add: has_explicit_tls_setting_def url_parts_py_def value_error_def)
qed

lemma redact_hides:
  assumes "differ_in_password u1 u2" shows "redact_dsn u1 = redact_dsn u2"
proof -
  from assms obtain sch usr pw1 pw2 rest where d: "dsn_scheme sch" "usr \<noteq> []" "list_all location_char usr"
    "pw1 \<noteq> []" "list_all password_char pw1" "pw2 \<noteq> []" "list_all password_char pw2"
    "u1 = sch @ ''://'' @ usr @ '':'' @ pw1 @ ''@'' @ rest" "u2 = sch @ ''://'' @ usr @ '':'' @ pw2 @ ''@'' @ rest"
    unfolding differ_in_password_def by blast
  have "dsn_sub ([] @ u1) = dsn_sub ([] @ u2)"
    unfolding d(8,9) using d(1-7) location_chars by (intro dsn_sub_hides) (auto simp: dsn_scheme_def)
  then show ?thesis by (simp add: redact_dsn_def)
qed

text \<open>Configurations that differ in the passwords of their URLs only.\<close>

definition similar_target :: "target_config \<Rightarrow> target_config \<Rightarrow> bool" where
  "similar_target t1 t2 \<longleftrightarrow> t2 = t1\<lparr>t_url := t_url t2\<rparr> \<and> (t_url t1 = t_url t2 \<or> differ_in_password (t_url t1) (t_url t2))"

definition similar_database :: "string \<times> database_config \<Rightarrow> string \<times> database_config \<Rightarrow> bool" where
  "similar_database p1 p2 \<longleftrightarrow> fst p1 = fst p2
     \<and> snd p2 = (snd p1)\<lparr>db_primary := db_primary (snd p2), db_replicas := db_replicas (snd p2)\<rparr>
     \<and> similar_target (db_primary (snd p1)) (db_primary (snd p2))
     \<and> list_all2 similar_target (db_replicas (snd p1)) (db_replicas (snd p2))"

definition similar_config :: "dbkit_config \<Rightarrow> dbkit_config \<Rightarrow> bool" where
  "similar_config c1 c2 \<longleftrightarrow> c2 = c1\<lparr>databases := databases c2\<rparr> \<and> list_all2 similar_database (databases c1) (databases c2)"

lemma similar_target_facts:
  assumes "similar_target t1 t2"
  shows "redact_target t1 = redact_target t2" "t_name t1 = t_name t2"
    "target_tls_warning env name t1 = target_tls_warning env name t2"
proof -
  from assms have t2: "t2 = t1\<lparr>t_url := t_url t2\<rparr>" by (simp add: similar_target_def)
  then show name: "t_name t1 = t_name t2" by (metis target_config.select_convs(2) target_config.surjective target_config.update_convs(1))
  have "redact_dsn (t_url t1) = redact_dsn (t_url t2)" using assms redact_hides by (auto simp: similar_target_def)
  then show "redact_target t1 = redact_target t2"
    by (subst t2) (simp add: redact_target_def)
  have "has_explicit_tls_setting t1 = has_explicit_tls_setting t2"
    using assms has_explicit_tls_hides by (auto simp: similar_target_def has_explicit_tls_setting_def)
  then show "target_tls_warning env name t1 = target_tls_warning env name t2"
    unfolding target_tls_warning_def \<open>t_name t1 = t_name t2\<close> by (simp only:)
qed

lemma similar_budget:
  "similar_database p1 p2 \<Longrightarrow> fst p1 = fst p2 \<and> db_connection_budget (snd p1) = db_connection_budget (snd p2)"
  unfolding similar_database_def
  by (metis (no_types) database_config.select_convs(4) database_config.surjective database_config.update_convs(1,2))

lemma list_all2_map_eq: "list_all2 P xs ys \<Longrightarrow> (\<And>x y. P x y \<Longrightarrow> f x = f y) \<Longrightarrow> map f xs = map f ys"
  by (induction rule: list_all2_induct) auto

lemma map_sum_cong2: "map f xs = map g ys \<Longrightarrow> map_sum f xs = map_sum g ys"
proof (induction xs arbitrary: ys)
  case (Cons x xs)
  then show ?case by (cases ys) auto
qed simp

definition named_targets :: "(string, database_config) dict \<Rightarrow> (string \<times> target_config) list" where
  "named_targets dbs = concat (map (\<lambda>(name, db). map (\<lambda>t. (name, t)) (all_targets db)) dbs)"

lemma similar_databases_facts:
  assumes "list_all2 similar_database ds1 ds2"
  shows "map (\<lambda>(name, db). (name, db\<lparr>db_primary := redact_target (db_primary db), db_replicas := map redact_target (db_replicas db)\<rparr>)) ds1
      = map (\<lambda>(name, db). (name, db\<lparr>db_primary := redact_target (db_primary db), db_replicas := map redact_target (db_replicas db)\<rparr>)) ds2"
    and "map (\<lambda>(name, t). target_tls_warning env name t) (named_targets ds1) = map (\<lambda>(name, t). target_tls_warning env name t) (named_targets ds2)"
  using assms
proof (induction rule: list_all2_induct)
  case (Cons p1 ds1 p2 ds2)
  obtain n1 d1 n2 d2 where p: "p1 = (n1, d1)" "p2 = (n2, d2)" by (cases p1; cases p2)
  have d2: "d2 = d1\<lparr>db_primary := db_primary d2, db_replicas := db_replicas d2\<rparr>" and n: "n2 = n1"
    and prim: "similar_target (db_primary d1) (db_primary d2)" and reps: "list_all2 similar_target (db_replicas d1) (db_replicas d2)"
    using Cons(1) by (simp_all add: similar_database_def p)
  have "map redact_target (db_replicas d1) = map redact_target (db_replicas d2)"
    using reps by (rule list_all2_map_eq) (rule similar_target_facts(1))
  then have r: "d1\<lparr>db_primary := redact_target (db_primary d1), db_replicas := map redact_target (db_replicas d1)\<rparr>
      = d2\<lparr>db_primary := redact_target (db_primary d2), db_replicas := map redact_target (db_replicas d2)\<rparr>"
    using similar_target_facts(1) [OF prim] by (subst d2) simp
  have "map (target_tls_warning env n1) (db_replicas d1) = map (target_tls_warning env n1) (db_replicas d2)"
    using reps by (rule list_all2_map_eq) (rule similar_target_facts(3))
  then have t: "map (target_tls_warning env n1) (all_targets d1) = map (target_tls_warning env n1) (all_targets d2)"
    using similar_target_facts(3) [OF prim] by (simp add: all_targets_def)
  {
    case 1 then show ?case using Cons r by (simp add: p n)
  next
    case 2 then show ?case using Cons t by (simp add: p n named_targets_def comp_def)
  }
qed (simp_all add: named_targets_def)


definition password_config :: "string \<Rightarrow> dbkit_config" where
  "password_config pw =
     (sample_config None)\<lparr>environment := ''production'',
       databases := [(''app'', sample_database\<lparr>db_primary := sample_target (''postgresql'' @ ''://'' @ ''app'' @ '':'' @ pw @ ''@'' @ ''db/app'')\<rparr>)]\<rparr>"


subsection \<open>What an exit status means\<close>

lemma session_cases:
  assumes "cli_session w False body tr (r, f) = (x, tr', st')"
  obtains e where "x = Inl e" "tr' = tr"
  | f1 r2 f2 where "databases (fd_config f1) = databases (fd_config f)"
      "body tr (r, f1) = (x, tr', (r2, f2))" "st' = (r2, snd (close f2))"
proof -
  obtain y ds f1 where s: "start (wd_create w) (env_clock (wd_env w) tr) f = (y, ds, f1)"
    by (cases "start (wd_create w) (env_clock (wd_env w) tr) f")
  show thesis
  proof (cases y)
    case (Inl e)
    then have "x = Inl e" "tr' = tr" using assms s by (simp_all add: cli_session_def db_start_cold)
    then show thesis by (rule that(1))
  next
    case (Inr u)
    obtain z t2 r2 f2 where b: "body tr (r, f1) = (z, t2, (r2, f2))" by (cases "body tr (r, f1)") auto
    have "databases (fd_config f1) = databases (fd_config f)"
      using start_cases [of "wd_create w" "env_clock (wd_env w) tr" f] s by (auto simp: fd_config_def)
    moreover have "x = z" "tr' = t2" "st' = (r2, snd (close f2))"
      using assms s b Inr by (simp_all add: cli_session_def db_start_cold)
    ultimately show thesis using that(2) b by blast
  qed
qed


text \<open>A concrete run: one required database, a driver that answers everything.\<close>

definition ready_facade :: "round_robin facade" where
  "ready_facade = new_facade (sample_config None) (default_selector (sample_config None))"

lemma ready_facade_simps [simp]:
  "fd_config ready_facade = sample_config None" "rg_entries (fd_registry ready_facade) = []"
  "rg_max_engines (fd_registry ready_facade) = None" "rg_config (fd_registry ready_facade) = sample_config None"
  "fd_started ready_facade = False"
  by (simp_all add: ready_facade_def new_facade_def new_registry_def fd_config_def sample_config_def)

lemma sample_driver: "driver ((sample_target ''postgresql://h/db'')\<lparr>t_pool := p\<rparr>) = Inr ''postgresql''"
proof -
  have "urlsplit ''postgresql://h/db'' = Some \<lparr>up_scheme = ''postgresql'', up_netloc = ''h'',
      up_path = ''/db'', up_query = [], up_fragment = []\<rparr>" by code_simp
  then show ?thesis by (simp add: driver_def url_parts_py_def sample_target_def) code_simp
qed

lemma ready_primary:
  assumes "rg_config reg = sample_config None" "rg_max_engines reg = None"
  shows "\<exists>entry ds reg'. registry_get_engine (\<lambda>_ _. Inr 1) t (primary_route ''app'' ''default'') reg = (Inr entry, ds, reg')
    \<and> rg_config reg' = sample_config None \<and> rg_max_engines reg' = None"
  using assms
  by (simp add: registry_get_engine_def target_for_def key_for_def primary_route_def insert_engine_def touch_def
        build_engine_def sample_driver [unfolded sample_target_def, simplified] sample_config_def sample_target_def
        Let_def split: option.split)

lemma ready_start: "\<exists>f1. start (\<lambda>_ _. Inr 1) t ready_facade = (Inr (), [], f1)
    \<and> rg_config (fd_registry f1) = sample_config None \<and> rg_max_engines (fd_registry f1) = None"
proof -
  obtain entry ds reg' where "registry_get_engine (\<lambda>_ _. Inr 1) t (primary_route ''app'' ''default'') (fd_registry ready_facade) = (Inr entry, ds, reg')"
    "rg_config reg' = sample_config None" "rg_max_engines reg' = None"
    using ready_primary [of "fd_registry ready_facade" t] by auto
  moreover have "ds = []" using calculation(1)
    by (auto simp: registry_get_engine_def insert_engine_def Let_def split: sum.splits)
  moreover have "databases (sample_config None) = [(''app'', snd (hd (databases (sample_config None))))]"
    "t_required (db_primary (snd (hd (databases (sample_config None)))))"
    by (simp_all add: sample_config_def sample_target_def)
  ultimately show ?thesis
    by (subst start_def, simp only: ready_facade_simps sample_config_valid) (simp add: sample_config_def sample_target_def)
qed

lemma ready_ping: "\<exists>tr'. ping (sample_env True []) t tr = (Inr (), tr')"
  by (simp add: ping_def ping_body_def timeout_scope_def io_defs)

lemma ready_health:
  assumes "rg_config (fd_registry f1) = sample_config None" "rg_max_engines (fd_registry f1) = None"
  shows "\<exists>ts tr' st'. health sample_world tr ((), f1) = (Inr \<lparr>hr_live = True, hr_ready = True, hr_targets = ts\<rparr>, tr', st')"
proof -
  obtain entry ds reg' where g: "registry_get_engine (\<lambda>_ _. Inr 1) (env_clock (sample_env True []) tr) (primary_route ''app'' ''default'') (fd_registry f1) = (Inr entry, ds, reg')"
    using ready_primary [OF assms] by blast
  obtain tr' where "ping (sample_env True []) (ping_timeout (f1\<lparr>fd_registry := reg'\<rparr>)) tr = (Inr (), tr')"
    using ready_ping by blast
  with g assms show ?thesis
    by (simp add: health_def fd_config_def sample_config_def check_target_def primary_engine_def sample_world_def sample_target_def)
qed


end
