(* ===== verification/Generator.thy ===== *)
theory Generator
  imports Query Redaction
begin

text \<open>
  The generator of the synchronous frontend (\<^verbatim>\<open>tools/run_unasync.py\<close>): markers, the replacement of
  tokens, the files written, and \<^verbatim>\<open>--check\<close>. The two package directories are dictionaries from
  relative paths (their parts) to the text on disk; directories named like a Python file are left out.
\<close>

subsection \<open>Reading text\<close>

type_synonym path = "string list"
type_synonym files = "(path, string) dict"

abbreviation (input) CR :: char where "CR \<equiv> CHR 0x0D"
abbreviation (input) LF :: char where "LF \<equiv> CHR 0x0A"

text \<open>\<^verbatim>\<open>read_text\<close> in text mode, and \<^verbatim>\<open>str.splitlines\<close>.\<close>

fun read_text :: "string \<Rightarrow> string" where
  "read_text [] = []"
| "read_text (c # s) =
     (if c = CR then LF # (case s of d # r \<Rightarrow> if d = LF then read_text r else read_text s | [] \<Rightarrow> [])
      else c # read_text s)"

definition line_break :: "char \<Rightarrow> bool" where
  "line_break c \<longleftrightarrow> (let n = of_char c :: nat in (10 \<le> n \<and> n \<le> 13) \<or> (28 \<le> n \<and> n \<le> 30) \<or> n = 133)"

fun lines_from :: "string \<Rightarrow> string \<Rightarrow> string list" where
  "lines_from line [] = (if line = [] then [] else [line])"
| "lines_from line (c # s) =
     (if c = CR then line # (case s of d # r \<Rightarrow> if d = LF then lines_from [] r else lines_from [] s | [] \<Rightarrow> [])
      else if line_break c then line # lines_from [] s
      else lines_from (line @ [c]) s)"

definition splitlines :: "string \<Rightarrow> string list" where
  "splitlines s = lines_from [] s"

subsection \<open>Markers\<close>

text \<open>\<^verbatim>\<open>#\s*unasync:\s*word\s*$\<close> at the front of a text, and anywhere in a line. What follows each
  \<^verbatim>\<open>\s*\<close> is no white space, so greedy matching never backtracks.\<close>

definition marker_here :: "string \<Rightarrow> string \<Rightarrow> bool" where
  "marker_here word s =
     (case s of
        [] \<Rightarrow> False
      | c # r \<Rightarrow>
          c = CHR ''#''
          \<and> (let u = dropWhile ws_char r; v = dropWhile ws_char (drop 8 u) in
               take 8 u = ''unasync:'' \<and> take (length word) v = word \<and> list_all ws_char (drop (length word) v)))"

fun has_marker :: "string \<Rightarrow> string \<Rightarrow> bool" where
  "has_marker word [] = False"
| "has_marker word (c # s) = (marker_here word (c # s) \<or> has_marker word s)"

abbreviation removed_line :: "string \<Rightarrow> bool" where "removed_line \<equiv> has_marker ''remove''"
abbreviation starts_block :: "string \<Rightarrow> bool" where "starts_block \<equiv> has_marker ''remove-start''"
abbreviation ends_block :: "string \<Rightarrow> bool" where "ends_block \<equiv> has_marker ''remove-end''"

subsection \<open>Tokens\<close>

definition TOKENS :: "(string, string) dict" where
  "TOKENS =
     [(''sqlalchemy.ext.asyncio'', ''sqlalchemy''),
      (''import asyncio'', ''import threading''),
      (''AsyncAdaptedQueuePool'', ''QueuePool''),
      (''create_async_engine'', ''create_engine''),
      (''async_sessionmaker'', ''sessionmaker''),
      (''_AsyncTransactionManager'', ''_TransactionManager''),
      (''AsyncTransactionScope'', ''TransactionScope''),
      (''AsyncConnectionScope'', ''ConnectionScope''),
      (''AsyncEngineRegistry'', ''EngineRegistry''),
      (''AsyncResultStream'', ''ResultStream''),
      (''AsyncDatabase'', ''Database''),
      (''AsyncConnection'', ''Connection''),
      (''AsyncEngine'', ''Engine''),
      (''AbstractAsyncContextManager'', ''AbstractContextManager''),
      (''AsyncExitStack'', ''ExitStack''),
      (''enter_async_context'', ''enter_context''),
      (''asyncio.BoundedSemaphore'', ''threading.BoundedSemaphore''),
      (''asyncio.Semaphore'', ''threading.Semaphore''),
      (''asyncio.Lock'', ''threading.Lock''),
      (''__aenter__'', ''__enter__''),
      (''__aexit__'', ''__exit__''),
      (''__aiter__'', ''__iter__''),
      (''__anext__'', ''__next__''),
      (''StopAsyncIteration'', ''StopIteration''),
      (''async def'', ''def''),
      (''async with'', ''with''),
      (''async for'', ''for''),
      (''await '', ''''),
      (''AsyncIterator'', ''Iterator''),
      (''AsyncGenerator'', ''Generator''),
      (''asynccontextmanager'', ''contextmanager''),
      (''aclose'', ''close''),
      (''aiter('', ''iter(''),
      (''anext('', ''next(''),
      (''_async'', ''_sync'')]"

text \<open>Longest key first; \<^verbatim>\<open>sorted\<close> is stable, reversed as well.\<close>

definition COMPILED :: "(string, string) dict" where
  "COMPILED = sort_key (\<lambda>kv. - int (length (fst kv))) TOKENS"

definition translate_line :: "string \<Rightarrow> string" where
  "translate_line line = fold (\<lambda>kv l. replace_all (fst kv) (snd kv) l) COMPILED line"

fun transform_lines :: "bool \<Rightarrow> string list \<Rightarrow> string list" where
  "transform_lines skipping [] = []"
| "transform_lines skipping (line # ls) =
     (if skipping then transform_lines (\<not> ends_block line) ls
      else if starts_block line then transform_lines True ls
      else if removed_line line then transform_lines False ls
      else translate_line line # transform_lines False ls)"

definition header :: "string \<Rightarrow> string" where
  "header name =
     ''# This file is GENERATED from ../_async/'' @ name @ '' by tools/run_unasync.py.'' @ [LF]
     @ ''# Do not edit by hand. Run `make unasync` after changing the async source.'' @ [LF]"

definition generated_body :: "string \<Rightarrow> string" where
  "generated_body source =
     (let body = join_with [LF] (transform_lines False (splitlines source)) in
      if body \<noteq> [] \<and> last body \<noteq> LF then body @ [LF] else body)"

definition transform :: "string \<Rightarrow> string \<Rightarrow> string" where
  "transform source filename = header filename @ [LF] @ generated_body source"

subsection \<open>The command\<close>

definition HANDWRITTEN :: "string list" where
  "HANDWRITTEN = [''_compat.py'']"

definition as_posix :: "path \<Rightarrow> string" where
  "as_posix p = join_with ''/'' p"

definition python_file :: "path \<Rightarrow> bool" where
  "python_file p \<longleftrightarrow> p \<noteq> [] \<and> drop (length (last p) - 3) (last p) = ''.py''"

definition handwritten :: "path \<Rightarrow> bool" where
  "handwritten p \<longleftrightarrow> last p \<in> set HANDWRITTEN"

definition generate :: "files \<Rightarrow> files" where
  "generate async_dir =
     fold (\<lambda>src result.
         if handwritten src then result
         else (case dict_get async_dir src of
                 None \<Rightarrow> result
               | Some raw \<Rightarrow> dict_set src (transform (read_text raw) (as_posix src)) result))
       (sort (filter python_file (dict_keys async_dir))) []"

datatype tool_line = Stdout string | Stderr string

definition shown_path :: "path \<Rightarrow> string" where
  "shown_path p = ''src/dbkit/_sync/'' @ as_posix p"

definition stale_files :: "files \<Rightarrow> files \<Rightarrow> string list" where
  "stale_files async_dir sync_dir =
     (let generated = generate async_dir in
      map (\<lambda>(dst, content). shown_path dst)
        (filter (\<lambda>(dst, content). map_option read_text (dict_get sync_dir dst) \<noteq> Some content) generated)
      @ map (\<lambda>existing. shown_path existing @ '' (orphaned)'')
          (filter (\<lambda>existing. \<not> handwritten existing \<and> existing \<notin> set (dict_keys generated))
             (filter python_file (dict_keys sync_dir))))"

definition check_main :: "files \<Rightarrow> files \<Rightarrow> tool_line list \<times> int" where
  "check_main async_dir sync_dir =
     (let stale = stale_files async_dir sync_dir in
      if stale \<noteq> [] then
        (Stderr ''Sync package is stale. Run `make unasync`:'' # map (\<lambda>s. Stderr (''  - '' @ s)) (sort stale), 1)
      else ([Stdout ''Sync package is up to date.''], 0))"

definition write_main :: "files \<Rightarrow> files \<Rightarrow> (tool_line list \<times> int) \<times> files" where
  "write_main async_dir sync_dir =
     (let generated = generate async_dir in
      ((map (\<lambda>(dst, content). Stdout (''wrote '' @ shown_path dst)) generated, 0),
       fold (\<lambda>(dst, content) written. dict_set dst content written) generated sync_dir))"

text \<open>\<^verbatim>\<open>main\<close>: the exit status with the lines printed, and the synchronous package afterwards.\<close>

definition generator_main :: "bool \<Rightarrow> files \<Rightarrow> files \<Rightarrow> (tool_line list \<times> int) \<times> files" where
  "generator_main check async_dir sync_dir =
     (if check then (check_main async_dir sync_dir, sync_dir) else write_main async_dir sync_dir)"

subsection \<open>Replacement\<close>

lemma replace_all_Nil [simp]: "replace_all p n [] = []"
  by (simp add: replace_all.simps)

lemma replace_all_hit: "p \<noteq> [] \<Longrightarrow> replace_all p n (p @ s) = n @ replace_all p n s"
  by (subst replace_all.simps) simp

lemma replace_all_miss: "take (length p) (c # s) \<noteq> p \<Longrightarrow> replace_all p n (c # s) = c # replace_all p n s"
  by (cases p; subst replace_all.simps) auto

lemma set_replace_all: "set (replace_all p n s) \<subseteq> set n \<union> set s"
proof (induction p n s rule: replace_all.induct)
  case (1 p n s)
  show ?case
  proof (cases "p \<noteq> [] \<and> s \<noteq> []")
    case True
    then show ?thesis
      using 1 set_drop_subset [of "length p" s] list.set_sel [of s]
      by (subst replace_all.simps) (auto split: if_splits dest: list.set_sel(2))
  qed (subst replace_all.simps, auto)
qed

text \<open>A text without the first character of what is put in is in the result only where it was before; so
  what the replacement cannot overlap is gone once replaced.\<close>

lemma replace_all_prefix:
  assumes "n = h # n'" "h \<notin> set w" "take (length w) (replace_all p n s) = w"
  shows "take (length w) s = w"
  using assms(2,3)
proof (induction w arbitrary: s)
  case (Cons a w)
  show ?case
  proof (cases s)
    case (Cons c r)
    have "take (length p) s \<noteq> p \<or> p = []"
    proof (rule ccontr)
      assume "\<not> ?thesis"
      then have "replace_all p n s = n @ replace_all p n (drop (length p) s)"
        by (subst replace_all.simps) (auto simp: Cons)
      with Cons.prems assms(1) show False by simp
    qed
    then have "replace_all p n s = c # (if p = [] then r else replace_all p n r)"
      by (subst replace_all.simps) (auto simp: Cons)
    with Cons.prems Cons.IH [of r] Cons show ?thesis by (auto split: if_splits)
  qed (use Cons.prems in simp)
qed simp

lemma is_substring_Cons: "p \<noteq> [] \<Longrightarrow> is_substring p (c # s) \<longleftrightarrow> take (length p) (c # s) = p \<or> is_substring p s"
  by simp

lemma no_async_left: "\<not> is_substring ''_async'' (replace_all ''_async'' ''_sync'' s)"
proof (induction s rule: length_induct)
  case (1 s)
  show ?case
  proof (cases s)
    case (Cons c r)
    show ?thesis
    proof (cases "take (length ''_async'') s = ''_async''")
      case True
      then have "s = ''_async'' @ drop 6 s" using append_take_drop_id [of "length ''_async''" s] by (simp add: eval_nat_numeral)
      then have "replace_all ''_async'' ''_sync'' s = ''_sync'' @ replace_all ''_async'' ''_sync'' (drop 6 s)"
        using replace_all_hit [of "''_async''" "''_sync''" "drop 6 s"] by simp
      moreover have "\<not> is_substring ''_async'' (replace_all ''_async'' ''_sync'' (drop 6 s))"
        using 1 Cons by simp
      ultimately show ?thesis by simp
    next
      case False
      then have m: "replace_all ''_async'' ''_sync'' s = c # replace_all ''_async'' ''_sync'' r"
        using Cons by (simp add: replace_all_miss)
      have "take (length ''async'') (replace_all ''_async'' ''_sync'' r) \<noteq> ''async''" if "c = CHR ''_''"
        using replace_all_prefix [of "''_sync''" "CHR ''_''" "''sync''" "''async''" "''_async''" r] False Cons that by auto
      moreover have "\<not> is_substring ''_async'' (replace_all ''_async'' ''_sync'' r)" using 1 Cons by simp
      ultimately show ?thesis by (auto simp: m)
    qed
  qed simp
qed

lemma translate_line_ends: "\<exists>l. translate_line line = replace_all ''_async'' ''_sync'' l"
proof -
  have "COMPILED = butlast COMPILED @ [(''_async'', ''_sync'')]" by code_simp
  then obtain front where compiled: "COMPILED = front @ [(''_async'', ''_sync'')]" by blast
  have "translate_line line
      = replace_all ''_async'' ''_sync'' (fold (\<lambda>kv l. replace_all (fst kv) (snd kv) l) front line)"
    unfolding translate_line_def compiled by simp
  then show ?thesis by blast
qed

lemma transform_lines_out:
  "l \<in> set (transform_lines skipping ls) \<Longrightarrow> \<exists>line \<in> set ls. l = translate_line line"
  by (induction skipping ls rule: transform_lines.induct) (auto split: if_splits)

text \<open>A word without line breaks is in joined lines only where it is in one of them.\<close>

lemma is_substring_iff: "is_substring p s \<longleftrightarrow> (\<exists>a b. s = a @ p @ b)"
proof (induction s)
  case (Cons c s)
  show ?case
  proof
    assume "is_substring p (c # s)"
    then consider "take (length p) (c # s) = p" | "is_substring p s" by auto
    then show "\<exists>a b. c # s = a @ p @ b"
    proof cases
      case 1
      then show ?thesis by (metis append_Nil append_take_drop_id)
    next
      case 2
      with Cons show ?thesis by (metis append_Cons)
    qed
  next
    assume "\<exists>a b. c # s = a @ p @ b"
    then obtain a b where s: "c # s = a @ p @ b" by blast
    show "is_substring p (c # s)"
    proof (cases a)
      case Nil
      then have "take (length p) (c # s) = p" using s by simp
      then show ?thesis by simp
    next
      case (Cons d a')
      then have "is_substring p s" using s Cons.IH by auto
      then show ?thesis by simp
    qed
  qed
qed auto

lemma is_substring_break:
  assumes "p \<noteq> []" "c \<notin> set p" "is_substring p (s @ c # t)"
  shows "is_substring p s \<or> is_substring p t"
proof -
  obtain a b where ab: "s @ c # t = a @ p @ b" using assms(3) unfolding is_substring_iff by blast
  then consider u where "s = a @ u" "u @ c # t = p @ b" | u where "a = s @ u" "c # t = u @ p @ b"
    by (auto simp: append_eq_append_conv2)
  then show ?thesis
  proof cases
    case 1
    then obtain v where "u = p @ v \<or> p = u @ v \<and> c # t = v @ b" by (auto simp: append_eq_append_conv2)
    with 1 assms(2) have "\<exists>v. s = a @ p @ v" by (cases v) auto
    then show ?thesis unfolding is_substring_iff by blast
  next
    case 2
    with assms(1,2) show ?thesis unfolding is_substring_iff by (cases u; cases p) auto
  qed
qed

lemma is_substring_join:
  assumes "p \<noteq> []" "c \<notin> set p"
  shows "is_substring p (join_with [c] ls) \<Longrightarrow> \<exists>l \<in> set ls. is_substring p l"
proof (induction ls)
  case Nil
  with assms show ?case by (simp add: join_with_def)
next
  case (Cons l ls)
  show ?case
  proof (cases ls)
    case Nil
    with Cons.prems show ?thesis by (simp add: join_with_def)
  next
    case (Cons m ms)
    then have "join_with [c] (l # ls) = l @ c # join_with [c] ls" by (simp add: join_with_def)
    with Cons.prems is_substring_break [OF assms] Cons.IH show ?thesis by fastforce
  qed
qed

lemma body_without_async: "\<not> is_substring ''_async'' (generated_body source)"
proof -
  have "\<not> is_substring ''_async'' (join_with [LF] (transform_lines False (splitlines source)))"
  proof
    assume "is_substring ''_async'' (join_with [LF] (transform_lines False (splitlines source)))"
    with is_substring_join [of "''_async''" LF] obtain l where
      "l \<in> set (transform_lines False (splitlines source))" "is_substring ''_async'' l" by auto
    with transform_lines_out translate_line_ends no_async_left show False by metis
  qed
  moreover have "is_substring ''_async'' (s @ LF # []) \<Longrightarrow> is_substring ''_async'' s" for s
    using is_substring_break [of "''_async''" LF s "[]"] by auto
  ultimately show ?thesis unfolding generated_body_def Let_def by auto
qed

subsection \<open>What is generated\<close>

definition generated_path :: "path \<Rightarrow> bool" where
  "generated_path p \<longleftrightarrow> python_file p \<and> \<not> handwritten p"

definition generated_text :: "files \<Rightarrow> path \<Rightarrow> string option" where
  "generated_text async_dir p = map_option (\<lambda>raw. transform (read_text raw) (as_posix p)) (dict_get async_dir p)"

lemma dict_get_fold_generate:
  "dict_get (fold (\<lambda>src result.
         if handwritten src then result
         else (case dict_get d src of None \<Rightarrow> result
               | Some raw \<Rightarrow> dict_set src (transform (read_text raw) (as_posix src)) result)) xs acc) p
   = (if p \<in> set xs \<and> \<not> handwritten p \<and> dict_get d p \<noteq> None then generated_text d p else dict_get acc p)"
proof (induction xs arbitrary: acc)
  case (Cons x xs)
  show ?case
    by (simp add: Cons.IH) (auto simp: generated_text_def dict_get_set split: option.splits)
qed simp

lemma dict_get_generate:
  "dict_get (generate d) p = (if generated_path p then generated_text d p else None)"
  using dict_get_None_iff [of d p]
  by (auto simp: generate_def dict_get_fold_generate generated_path_def generated_text_def)

lemma wf_fold_generate:
  "dict_wf acc \<Longrightarrow> dict_wf (fold (\<lambda>src result.
         if handwritten src then result
         else (case dict_get d src of None \<Rightarrow> result
               | Some raw \<Rightarrow> dict_set src (transform (read_text raw) (as_posix src)) result)) xs acc)"
  by (induction xs arbitrary: acc) (auto split: option.split)

lemma wf_generate [simp]: "dict_wf (generate d)"
  by (simp add: generate_def wf_fold_generate)

lemma generated_item: "(p, content) \<in> set (generate d) \<longleftrightarrow> dict_get (generate d) p = Some content"
  using wf_generate [of d] by (simp add: dict_wf_def)

lemma dict_get_written:
  "distinct (map fst g) \<Longrightarrow> dict_get (fold (\<lambda>(dst, content) written. dict_set dst content written) g s) p
     = (case dict_get g p of None \<Rightarrow> dict_get s p | Some content \<Rightarrow> Some content)"
proof (induction g arbitrary: s)
  case (Cons kv g)
  then show ?case
    using dict_get_None_iff [of g "fst kv"]
    by (cases kv) (auto simp: dict_get_set split: option.splits)
qed simp

lemma dict_get_write_main:
  "dict_get (snd (write_main d s)) p
     = (case dict_get (generate d) p of None \<Rightarrow> dict_get s p | Some content \<Rightarrow> Some content)"
  using wf_generate [of d] by (simp add: write_main_def Let_def dict_get_written dict_wf_def)

lemma not_stale_iff:
  "stale_files d s = [] \<longleftrightarrow>
     (\<forall>p. generated_path p \<longrightarrow> map_option read_text (dict_get s p) = generated_text d p)"
proof -
  have "stale_files d s = [] \<longleftrightarrow>
      (\<forall>p content. dict_get (generate d) p = Some content \<longrightarrow> map_option read_text (dict_get s p) = Some content)
      \<and> (\<forall>p. dict_get s p \<noteq> None \<longrightarrow> python_file p \<longrightarrow> \<not> handwritten p \<longrightarrow> dict_get (generate d) p \<noteq> None)"
    by (auto simp: stale_files_def Let_def filter_empty_conv generated_item [symmetric] dict_get_None_iff split: prod.splits)
  also have "\<dots> \<longleftrightarrow> (\<forall>p. generated_path p \<longrightarrow> map_option read_text (dict_get s p) = generated_text d p)"
  proof (intro iffI conjI allI impI)
    fix p assume a: "(\<forall>p content. dict_get (generate d) p = Some content \<longrightarrow> map_option read_text (dict_get s p) = Some content)
      \<and> (\<forall>p. dict_get s p \<noteq> None \<longrightarrow> python_file p \<longrightarrow> \<not> handwritten p \<longrightarrow> dict_get (generate d) p \<noteq> None)"
      and g: "generated_path p"
    then have "dict_get (generate d) p = generated_text d p" by (simp add: dict_get_generate)
    with a g show "map_option read_text (dict_get s p) = generated_text d p"
      by (cases "generated_text d p") (auto simp: generated_path_def)
  next
    fix p content
    assume a: "\<forall>p. generated_path p \<longrightarrow> map_option read_text (dict_get s p) = generated_text d p"
      and "dict_get (generate d) p = Some content"
    then show "map_option read_text (dict_get s p) = Some content"
      by (metis dict_get_generate option.distinct(1))
  next
    fix p
    assume "\<forall>p. generated_path p \<longrightarrow> map_option read_text (dict_get s p) = generated_text d p"
      and "dict_get s p \<noteq> None" "python_file p" "\<not> handwritten p"
    then show "dict_get (generate d) p \<noteq> None"
      unfolding dict_get_generate generated_path_def by (metis option.map_disc_iff)
  qed
  finally show ?thesis .
qed

lemma check_status: "snd (check_main d s) = (if stale_files d s = [] then 0 else 1)"
  by (simp add: check_main_def)

subsection \<open>What is written is what is read\<close>

lemma read_text_id: "CR \<notin> set s \<Longrightarrow> read_text s = s"
  by (induction s rule: read_text.induct) auto

lemma lines_without_CR: "CR \<notin> set acc \<Longrightarrow> \<forall>l \<in> set (lines_from acc s). CR \<notin> set l"
proof (induction s arbitrary: acc rule: length_induct)
  case (1 s)
  then have IH: "length r < length s \<Longrightarrow> CR \<notin> set a \<Longrightarrow> \<forall>l \<in> set (lines_from a r). CR \<notin> set l" for a r by blast
  show ?case
  proof (cases s)
    case (Cons c r)
    consider "c = CR" | "c \<noteq> CR" "line_break c" | "c \<noteq> CR" "\<not> line_break c" by blast
    then show ?thesis
    proof cases
      case 1
      then show ?thesis
        using \<open>CR \<notin> set acc\<close> IH [of r "[]"] IH [of "tl r" "[]"] Cons by (cases r) simp_all
    next
      case 2
      then show ?thesis using \<open>CR \<notin> set acc\<close> IH [of r "[]"] Cons by simp
    next
      case 3
      then show ?thesis using \<open>CR \<notin> set acc\<close> IH [of r "acc @ [c]"] Cons by simp
    qed
  qed (use \<open>CR \<notin> set acc\<close> in simp)
qed

lemma replacements_without_CR: "kv \<in> set COMPILED \<Longrightarrow> CR \<notin> set (snd kv)"
  by (simp add: COMPILED_def TOKENS_def) (elim disjE; simp)

lemma fold_replace_without:
  "(\<forall>kv \<in> set ts. c \<notin> set (snd kv)) \<Longrightarrow> c \<notin> set line
     \<Longrightarrow> c \<notin> set (fold (\<lambda>kv l. replace_all (fst kv) (snd kv) l) ts line)"
proof (induction ts arbitrary: line)
  case (Cons kv ts)
  then show ?case using set_replace_all [of "fst kv" "snd kv" line] by auto
qed simp

lemma set_join_with: "set (join_with sep ls) \<subseteq> set sep \<union> (\<Union>l \<in> set ls. set l)"
  by (auto simp: join_with_def split: list.splits)

lemma body_without_CR: "CR \<notin> set (generated_body source)"
proof -
  have "CR \<notin> set l" if "l \<in> set (transform_lines False (splitlines source))" for l
  proof -
    from transform_lines_out [OF that] obtain line where
      l: "line \<in> set (lines_from [] source)" "l = translate_line line" by (auto simp: splitlines_def)
    have "CR \<notin> set line" using lines_without_CR [of "[]" source] l(1) by simp
    with l(2) show ?thesis
      unfolding translate_line_def using fold_replace_without replacements_without_CR by blast
  qed
  then show ?thesis
    using set_join_with [of "[LF]" "transform_lines False (splitlines source)"]
    by (auto simp: generated_body_def Let_def)
qed

lemma generated_read_back:
  assumes "\<forall>part \<in> set p. CR \<notin> set part"
  shows "read_text (transform source (as_posix p)) = transform source (as_posix p)"
proof (rule read_text_id)
  have "CR \<notin> set (as_posix p)"
    using assms set_join_with [of "''/''" p] by (auto simp: as_posix_def)
  with body_without_CR [of source] show "CR \<notin> set (transform source (as_posix p))"
    by (auto simp: transform_def header_def)
qed

subsection \<open>The properties\<close>

lemma check_main_status:
  "snd (fst (generator_main True d s)) = 0 \<longleftrightarrow>
     (\<forall>p. generated_path p \<longrightarrow> map_option read_text (dict_get s p) = generated_text d p)"
  by (simp add: generator_main_def check_status not_stale_iff)

text \<open>C40. What \<^verbatim>\<open>--check\<close> accepts: status 0 exactly if every Python file of the synchronous
  package, the hand-written one apart, is the translation of the asynchronous file of the same path, and there is one
  for every asynchronous file; nothing is written.\<close>

theorem check_accepts_translation:
  "snd (fst (generator_main True d s)) = (if \<forall>p. generated_path p \<longrightarrow>
        map_option read_text (dict_get s p)
          = map_option (\<lambda>raw. transform (read_text raw) (as_posix p)) (dict_get d p) then 0 else 1)
   \<and> snd (generator_main True d s) = s"
  by (simp add: generator_main_def check_status not_stale_iff generated_text_def)

text \<open>C39. Generating is enough: what was written passes \<^verbatim>\<open>--check\<close> exactly if no file of the synchronous
  package has lost its source; generating again changes nothing, no hand-written file is touched, and apart from
  its header no generated text names the asynchronous package.\<close>

theorem generated_passes_check:
  fixes d s :: files
  assumes "\<forall>p \<in> set (dict_keys d). \<forall>part \<in> set p. CR \<notin> set part"
  defines "s' \<equiv> snd (generator_main False d s)"
  shows "(snd (fst (generator_main True d s')) = 0 \<longleftrightarrow>
            (\<forall>p. generated_path p \<longrightarrow> dict_get s p \<noteq> None \<longrightarrow> dict_get d p \<noteq> None))
    \<and> dict_get (snd (generator_main False d s')) = dict_get s'
    \<and> (\<forall>p. handwritten p \<longrightarrow> dict_get s' p = dict_get s p)
    \<and> (\<forall>p raw. generated_path p \<longrightarrow> dict_get d p = Some raw \<longrightarrow>
          (\<exists>body. dict_get s' p = Some (header (as_posix p) @ [LF] @ body) \<and> \<not> is_substring ''_async'' body))"
proof -
  have s': "dict_get s' p = (if generated_path p \<and> dict_get d p \<noteq> None then generated_text d p else dict_get s p)" for p
    by (simp add: s'_def generator_main_def dict_get_write_main dict_get_generate generated_text_def split: option.split)
  have reread: "map_option read_text (generated_text d p) = generated_text d p" for p
  proof (cases "dict_get d p")
    case (Some raw)
    then have "p \<in> set (dict_keys d)" using dict_get_None_iff [of d p] by simp
    with assms(1) have "\<forall>part \<in> set p. CR \<notin> set part" by blast
    with Some show ?thesis by (simp add: generated_text_def generated_read_back)
  qed (simp add: generated_text_def)
  have "(map_option read_text (dict_get s' p) = generated_text d p) = (dict_get s p \<noteq> None \<longrightarrow> dict_get d p \<noteq> None)"
    if "generated_path p" for p
    using that by (cases "dict_get d p") (simp add: s' generated_text_def, simp add: s' reread)
  then have "snd (fst (generator_main True d s')) = 0 \<longleftrightarrow>
            (\<forall>p. generated_path p \<longrightarrow> dict_get s p \<noteq> None \<longrightarrow> dict_get d p \<noteq> None)"
    unfolding check_main_status by blast
  moreover have "dict_get (snd (generator_main False d s')) = dict_get s'"
    by (rule ext) (simp add: generator_main_def dict_get_write_main dict_get_generate s' generated_text_def split: option.split)
  moreover have "handwritten p \<Longrightarrow> dict_get s' p = dict_get s p" for p
    by (simp add: s' generated_path_def)
  moreover have "\<exists>body. dict_get s' p = Some (header (as_posix p) @ [LF] @ body) \<and> \<not> is_substring ''_async'' body"
    if "generated_path p" "dict_get d p = Some raw" for p raw
    using that body_without_async [of "read_text raw"] by (simp add: s' generated_text_def transform_def)
  ultimately show ?thesis by blast
qed

lemma check_accepts_translation_witness:
  "snd (fst (generator_main True [([''db.py''], ''await x'')] [([''db.py''], header ''db.py'' @ [LF, CHR ''x'', LF])])) = 0
   \<and> snd (fst (generator_main True [([''db.py''], ''await x'')] [])) = 1"
proof -
  have t: "transform (read_text ''await x'') (as_posix [''db.py'']) = header ''db.py'' @ [LF, CHR ''x'', LF]"
    "read_text (header ''db.py'' @ [LF, CHR ''x'', LF]) = header ''db.py'' @ [LF, CHR ''x'', LF]"
    "generated_path [''db.py'']"
    by code_simp+
  have "\<exists>p. generated_path p \<and> map_option read_text (dict_get [] p)
      \<noteq> map_option (\<lambda>raw. transform (read_text raw) (as_posix p)) (dict_get [([''db.py''], ''await x'')] p)"
    by (rule exI [of _ "[''db.py'']"]) (simp add: t del: read_text.simps)
  then show ?thesis
    using check_accepts_translation [of "[([''db.py''], ''await x'')]" "[([''db.py''], header ''db.py'' @ [LF, CHR ''x'', LF])]"]
      check_accepts_translation [of "[([''db.py''], ''await x'')]" "[]"]
    by (auto simp: t simp del: read_text.simps split: if_splits)
qed

lemma generated_passes_check_witness:
  "snd (fst (generator_main True [([''db.py''], ''await x'')]
      (snd (generator_main False [([''db.py''], ''await x'')] [([''_compat.py''], ''IS_ASYNC = False'')])))) = 0"
  using generated_passes_check [of "[([''db.py''], ''await x'')]" "[([''_compat.py''], ''IS_ASYNC = False'')]"]
  by (auto simp: generated_path_def handwritten_def HANDWRITTEN_def split: if_splits)

end
