(* ===== verification/Reach.thy ===== *)
theory Reach
  imports Facade
begin

text \<open>
  Calls and the engines they reach. The registry caches engines by the text of their key, while databases come
  and go (\<^verbatim>\<open>register_database\<close> and its kin), engines are drained (\<^verbatim>\<open>drain_engine\<close>) and
  evicted. Here the facade and its registry run as one machine, with the lookups every call makes as events, and
  the engine a lookup hands out is shown to be the one of the target that is configured now.
\<close>

subsection \<open>Draining\<close>

text \<open>\<^verbatim>\<open>AsyncDatabase.drain_engine\<close> and \<^verbatim>\<open>AsyncDatabase.engine_count\<close>\<close>

definition drain_engine :: "string \<Rightarrow> 's facade \<Rightarrow> bool \<times> nat list \<times> 's facade" where
  "drain_engine key f = (case dispose_one key (fd_registry f) of (x, ds, r) \<Rightarrow> (x, ds, f\<lparr>fd_registry := r\<rparr>))"

definition live_engines :: "'s facade \<Rightarrow> nat" where
  "live_engines f = engine_count (fd_registry f)"

subsection \<open>The machine\<close>

datatype reach_event =
    RvFacade facade_event
  | RvLookup target real
  | RvDrain string

fun reach_step ::
  "('r, 's) world \<Rightarrow> (string \<Rightarrow> string list \<Rightarrow> 's \<Rightarrow> 's) \<Rightarrow> ('r, 's) fstate \<Rightarrow> reach_event \<Rightarrow> unit \<times> ('r, 's) fstate" where
  "reach_step w set_replicas st (RvFacade ev) =
     ((), snd (facade_step (wd_create w) (wd_shards w) (wd_select w) set_replicas st ev))"
| "reach_step w set_replicas st (RvLookup t clk) = ((), snd (lookup_entry w t clk st))"
| "reach_step w set_replicas st (RvDrain key) = ((), (fst st, snd (snd (drain_engine key (snd st)))))"

subsection \<open>Keys and targets\<close>

text \<open>Names without the separator of the key.\<close>

definition plain_database :: "string \<Rightarrow> database_config \<Rightarrow> bool" where
  "plain_database n db \<longleftrightarrow> plain n \<and> list_all plain (replica_names db)"

definition plain_config :: "dbkit_config \<Rightarrow> bool" where
  "plain_config cfg \<longleftrightarrow> (\<forall>n db. dict_get (databases cfg) n = Some db \<longrightarrow> plain_database n db)"

fun plain_event :: "reach_event \<Rightarrow> bool" where
  "plain_event (RvFacade (FvRegister n db c t)) = plain_database n db"
| "plain_event (RvFacade (FvEnsure n db c t)) = plain_database n db"
| "plain_event _ = True"

definition plain_shards :: "'r shard_fn \<Rightarrow> bool" where
  "plain_shards shards \<longleftrightarrow> (\<forall>r q s. fst (shards r q) = Inr s \<longrightarrow> plain s)"

text \<open>An entry is current when the configuration gives its target and its key to a route.\<close>

definition current :: "dbkit_config \<Rightarrow> engine_entry \<Rightarrow> bool" where
  "current cfg e \<longleftrightarrow> (\<exists>rt. plain (rt_shard_id rt) \<and> target_for cfg rt = Inr (ee_target e)
     \<and> key_for cfg rt (ee_target e) = Inr (ee_key e))"

definition all_current :: "engine_registry \<Rightarrow> bool" where
  "all_current r \<longleftrightarrow> filed (rg_entries r) \<and> (\<forall>(k, e) \<in> set (rg_entries r). current (rg_config r) e)"

lemma key_for_database: "key_for cfg rt tgt = Inr k \<Longrightarrow> ek_database k = rt_database rt"
  by (auto simp: key_for_def sum_bind_Inr_iff)

lemma key_for_shard: "key_for cfg rt tgt = Inr k \<Longrightarrow> ek_shard_id k = rt_shard_id rt"
  by (auto simp: key_for_def sum_bind_Inr_iff)

lemma target_database: "target_for cfg rt = Inr tgt \<Longrightarrow> \<exists>db. dict_get (databases cfg) (rt_database rt) = Some db"
  by (auto simp: target_for_def split: option.splits)

lemma target_replica:
  assumes "target_for cfg rt = Inr tgt" "rt_role rt = Replica" "plain_config cfg"
  shows "\<exists>n. rt_replica_name rt = Some n \<and> plain n"
proof -
  obtain db where db: "dict_get (databases cfg) (rt_database rt) = Some db"
    using target_database [OF assms(1)] by blast
  with assms(1,2) have "find (\<lambda>t. Some (t_name t) = rt_replica_name rt) (db_replicas db) = Some tgt"
    by (auto simp: target_for_def split: option.splits)
  then have "Some (t_name tgt) = rt_replica_name rt" "tgt \<in> set (db_replicas db)"
    by (auto simp: find_Some_iff)
  with db assms(3) show ?thesis
    by (intro exI [of _ "t_name tgt"]) (auto simp: plain_config_def plain_database_def replica_names_def list_all_iff)
qed

text \<open>Routes with equal key texts have the same target.\<close>

lemma route_role_text:
  "rt_role rt = Primary \<or> rt_replica_name rt = Some n \<Longrightarrow>
   (if rt_role rt = Primary then ''primary'' else ''replica:'' @ replica_text (rt_replica_name rt))
     = key_role (if rt_role rt = Primary then None else rt_replica_name rt)"
  by (auto simp: key_role_def replica_text_def)

lemma same_key_same_target:
  assumes k1: "target_for cfg rt1 = Inr t1" "key_for cfg rt1 t1 = Inr k1" "plain (rt_shard_id rt1)"
    and k2: "target_for cfg rt2 = Inr t2" "key_for cfg rt2 t2 = Inr k2" "plain (rt_shard_id rt2)"
    and cfg: "plain_config cfg" and eq: "key_text k1 = key_text k2"
  shows "t1 = t2 \<and> rt_database rt1 = rt_database rt2 \<and> rt_shard_id rt1 = rt_shard_id rt2"
proof -
  define role1 where "role1 = (if rt_role rt1 = Primary then None else rt_replica_name rt1)"
  define role2 where "role2 = (if rt_role rt2 = Primary then None else rt_replica_name rt2)"
  have named: "rt_role rt = Primary \<or> (\<exists>n. rt_replica_name rt = Some n \<and> plain n)" if "target_for cfg rt = Inr t" for rt t
    using target_replica [OF that _ cfg] by (cases "rt_role rt") auto
  have role: "(if rt_role rt1 = Primary then ''primary'' else ''replica:'' @ replica_text (rt_replica_name rt1)) = key_role role1"
    "(if rt_role rt2 = Primary then ''primary'' else ''replica:'' @ replica_text (rt_replica_name rt2)) = key_role role2"
    using named [OF k1(1)] named [OF k2(1)] route_role_text unfolding role1_def role2_def by blast+
  have pl: "\<And>x. role1 = Some x \<Longrightarrow> plain x" "\<And>x. role2 = Some x \<Longrightarrow> plain x"
    using named [OF k1(1)] named [OF k2(1)] by (auto simp: role1_def role2_def split: if_splits)
  have db: "plain (rt_database rt1)" "plain (rt_database rt2)"
    using target_database [OF k1(1)] target_database [OF k2(1)] cfg by (auto simp: plain_config_def plain_database_def)
  obtain d1 d2 where "rt_database rt1 @ '':'' @ (rt_shard_id rt1 @ '':'' @ (key_role role1 @ '':'' @ d1))
      = rt_database rt2 @ '':'' @ (rt_shard_id rt2 @ '':'' @ (key_role role2 @ '':'' @ d2))"
    using eq k1(2) k2(2) by (auto simp: key_for_def sum_bind_Inr_iff key_text_def role)
  from plain_split [OF db this] have 1: "rt_database rt1 = rt_database rt2"
    "rt_shard_id rt1 @ '':'' @ (key_role role1 @ '':'' @ d1) = rt_shard_id rt2 @ '':'' @ (key_role role2 @ '':'' @ d2)" by auto
  from plain_split [OF k1(3) k2(3) 1(2)] have 2: "rt_shard_id rt1 = rt_shard_id rt2"
    "key_role role1 @ '':'' @ d1 = key_role role2 @ '':'' @ d2" by auto
  have "role1 = role2" using role_driver_inj [OF pl 2(2)] by blast
  then have "rt_role rt1 = rt_role rt2 \<and> (rt_role rt1 = Replica \<longrightarrow> rt_replica_name rt1 = rt_replica_name rt2)"
    using named [OF k1(1)] named [OF k2(1)] unfolding role1_def role2_def
    by (cases "rt_role rt1"; cases "rt_role rt2") auto
  then have "target_for cfg rt1 = target_for cfg rt2"
    using 1(1) by (cases "rt_role rt1") (auto simp: target_for_def split: option.split)
  with k1(1) k2(1) 1(1) 2(1) show ?thesis by simp
qed

subsection \<open>The operations keep the entries current\<close>

lemma all_current_sub:
  assumes "all_current r" "filed d" "set d \<subseteq> set (rg_entries r)"
  shows "all_current (r\<lparr>rg_entries := d\<rparr>)"
  using assms by (auto simp: all_current_def)

lemma current_touched: "current cfg (e\<lparr>ee_last_used := t\<rparr>) = current cfg e"
  by (simp add: current_def)

lemma touch_current:
  assumes "all_current r"
  shows "all_current (touch k t r)"
proof (cases "dict_get (rg_entries r) k")
  case (Some e)
  have f: "filed (rg_entries r)" using assms by (simp add: all_current_def)
  then have "k = key_text (ee_key e)" using Some by (rule filed_key)
  moreover have "current (rg_config r) e" using assms Some by (auto simp: all_current_def dest: map_of_SomeD)
  ultimately show ?thesis
    using assms Some set_dict_set [of k "e\<lparr>ee_last_used := t\<rparr>" "rg_entries r"] f
    by (auto simp: touch_def all_current_def filed_set current_touched)
qed (use assms in \<open>simp add: touch_def\<close>)

lemma pop_lru_current:
  assumes "all_current r"
  shows "all_current (snd (pop_lru r)) \<and> rg_config (snd (pop_lru r)) = rg_config r"
proof -
  have f: "filed (rg_entries r)" using assms by (simp add: all_current_def)
  show ?thesis
    using assms f set_dict_pop [of _ "rg_entries r"]
    by (auto simp: pop_lru_def intro!: all_current_sub filed_pop split: option.split)
qed

lemma insert_current:
  assumes ok: "all_current r" and "plain (rt_shard_id rt)" "target_for (rg_config r) rt = Inr tgt"
    "key_for (rg_config r) rt tgt = Inr key"
  shows "all_current (snd (snd (insert_engine create t key tgt r)))"
proof -
  let ?full = "case rg_max_engines r of None \<Rightarrow> False | Some n \<Rightarrow> int (length (rg_entries r)) \<ge> n"
  obtain victim r1 where room: "(if ?full then pop_lru r else (None, r)) = (victim, r1)"
    by (cases "if ?full then pop_lru r else (None, r)")
  have r1: "all_current r1" "rg_config r1 = rg_config r"
    using pop_lru_current [OF ok] ok room by (auto split: if_splits)
  have "all_current (r1\<lparr>rg_entries := dict_set (key_text key) e (rg_entries r1)\<rparr>)"
    if "ee_key e = key" "ee_target e = tgt" for e
  proof -
    have "current (rg_config r1) e" using assms(2-4) r1(2) that unfolding current_def by auto
    with r1(1) that show ?thesis
      using set_dict_set [of "key_text key" e "rg_entries r1"] by (auto simp: all_current_def filed_set)
  qed
  with ok r1(1) show ?thesis unfolding insert_engine_def Let_def room by (auto split: sum.split)
qed

lemma get_current:
  assumes "all_current r" "plain (rt_shard_id rt)"
  shows "all_current (snd (snd (registry_get_engine create t rt r)))"
proof (cases "target_for (rg_config r) rt")
  case (Inr tgt)
  then show ?thesis
    using assms touch_current [OF assms(1)] insert_current [OF assms Inr]
    by (cases "key_for (rg_config r) rt tgt") (auto simp: registry_get_engine_def split: option.split)
qed (use assms in \<open>simp add: registry_get_engine_def\<close>)

lemma dispose_one_current: "all_current r \<Longrightarrow> all_current (snd (snd (dispose_one k r)))"
  using set_dict_pop [of k "rg_entries r"]
  by (auto simp: dispose_one_def intro!: all_current_sub filed_pop split: option.split) (simp add: all_current_def)

lemma dispose_all_current: "all_current r \<Longrightarrow> all_current (snd (dispose_all r))"
  by (simp add: dispose_all_def all_current_def filed_def)

text \<open>A database whose engines are disposed may be replaced or leave the configuration.\<close>

lemma without_database:
  assumes "all_current r" "\<And>n'. n' \<noteq> n \<Longrightarrow> dict_get dbs n' = dict_get (databases (rg_config r)) n'"
  shows "all_current ((snd (snd (dispose_database n r)))\<lparr>rg_config := (rg_config r)\<lparr>databases := dbs\<rparr>\<rparr>)"
proof -
  have "current ((rg_config r)\<lparr>databases := dbs\<rparr>) e" if e: "current (rg_config r) e" "ek_database (ee_key e) \<noteq> n" for e
  proof -
    obtain rt where rt: "plain (rt_shard_id rt)" "target_for (rg_config r) rt = Inr (ee_target e)"
      "key_for (rg_config r) rt (ee_target e) = Inr (ee_key e)" using e(1) unfolding current_def by blast
    then have "rt_database rt \<noteq> n" using e(2) key_for_database by metis
    with rt assms(2) [of "rt_database rt"] show ?thesis
      unfolding current_def by (intro exI [of _ rt]) (simp add: target_for_def key_for_def)
  qed
  with assms(1) show ?thesis
    by (auto simp: all_current_def dispose_database_def Let_def filed_filter)
qed

lemma absent_database:
  assumes "all_current r" "dict_get (databases (rg_config r)) n = None"
  shows "snd (snd (dispose_database n r)) = r"
proof -
  have "ek_database (ee_key e) \<noteq> n" if "(k, e) \<in> set (rg_entries r)" for k e
    using that assms key_for_database target_database by (fastforce simp: all_current_def current_def)
  then have "filter (\<lambda>(k, e). ek_database (ee_key e) \<noteq> n) (rg_entries r) = rg_entries r"
    by (auto simp: filter_id_conv)
  then show ?thesis by (simp add: dispose_database_def Let_def)
qed

subsection \<open>The facade keeps its engines current\<close>

definition facade_current :: "'s facade \<Rightarrow> bool" where
  "facade_current f \<longleftrightarrow> all_current (fd_registry f) \<and> plain_config (fd_config f)"

lemma facade_current_frame [simp]:
  "facade_current (f\<lparr>fd_selector := s\<rparr>) = facade_current f" "facade_current (f\<lparr>fd_dynamic_lru := l\<rparr>) = facade_current f"
  "facade_current (f\<lparr>fd_started := b\<rparr>) = facade_current f" "facade_current (f\<lparr>fd_executor := e\<rparr>) = facade_current f"
  by (simp_all add: facade_current_def fd_config_def)

lemma touch_dynamic_current [simp]: "facade_current (touch_dynamic n f) = facade_current f"
  by (simp add: touch_dynamic_def)

lemma registry_current:
  "facade_current f \<Longrightarrow> all_current r \<Longrightarrow> rg_config r = rg_config (fd_registry f) \<Longrightarrow> facade_current (f\<lparr>fd_registry := r\<rparr>)"
  by (simp add: facade_current_def fd_config_def)

lemma facade_get_current:
  assumes "facade_current f" "plain (rt_shard_id rt)"
  shows "facade_current (f\<lparr>fd_registry := snd (snd (registry_get_engine create t rt (fd_registry f)))\<rparr>)"
  using assms get_current [of "fd_registry f" rt create t] registry_get_config [of create t rt "fd_registry f"]
  by (intro registry_current) (simp_all add: facade_current_def)

lemma purge_registry: "fd_registry (snd (purge_database_state n f)) = snd (snd (dispose_database n (fd_registry f)))"
  by (simp add: purge_database_state_def split: prod.split)

lemma swapped_current:
  assumes "facade_current f" "fd_registry g = snd (snd (dispose_database n (fd_registry f)))"
    and "\<And>n'. n' \<noteq> n \<Longrightarrow> dict_get dbs n' = dict_get (databases (fd_config f)) n'"
    and "\<And>db. dict_get dbs n = Some db \<Longrightarrow> plain_database n db"
  shows "facade_current (swap_databases dbs g)"
proof -
  have c: "rg_config (fd_registry g) = rg_config (fd_registry f)"
    using assms(2) by (simp add: dispose_database_def Let_def)
  have "all_current ((fd_registry g)\<lparr>rg_config := (rg_config (fd_registry f))\<lparr>databases := dbs\<rparr>\<rparr>)"
    unfolding assms(2) using assms(1,3) by (intro without_database) (auto simp: facade_current_def fd_config_def)
  moreover have "plain_config ((rg_config (fd_registry f))\<lparr>databases := dbs\<rparr>)"
    unfolding plain_config_def
  proof (intro allI impI)
    fix m db assume "dict_get (databases ((rg_config (fd_registry f))\<lparr>databases := dbs\<rparr>)) m = Some db"
    with assms(1) assms(3) [of m] assms(4) show "plain_database m db"
      by (cases "m = n") (auto simp: facade_current_def plain_config_def fd_config_def)
  qed
  ultimately show ?thesis
    by (simp add: facade_current_def swap_databases_def fd_config_def Let_def c)
qed

lemma removed_current:
  assumes "facade_current f" "fd_registry g = snd (snd (dispose_database n (fd_registry f)))"
    and "fd_config g = fd_config f"
  shows "facade_current (swap_databases (dict_pop n (databases (fd_config g))) g)"
  using assms(3) by (intro swapped_current [OF assms(1,2)]) (auto simp: dict_get_pop)

lemma evict_loop_current: "facade_current f \<Longrightarrow> facade_current (snd (snd (evict_loop clear limit lru f)))"
proof (induction lru arbitrary: f)
  case (Cons victim rest)
  obtain ds f1 where p: "purge_database_state victim (f\<lparr>fd_dynamic_lru := rest\<rparr>) = (ds, f1)"
    by (cases "purge_database_state victim (f\<lparr>fd_dynamic_lru := rest\<rparr>)")
  have "fd_registry f1 = snd (snd (dispose_database victim (fd_registry f)))"
    using purge_registry [of victim "f\<lparr>fd_dynamic_lru := rest\<rparr>"] p by simp
  moreover have "fd_config f1 = fd_config f"
    using purge_frame [where n = victim and f = "f\<lparr>fd_dynamic_lru := rest\<rparr>"] p by simp
  ultimately have "facade_current (swap_databases (dict_pop victim (databases (fd_config f1))) f1)"
    using Cons.prems by (intro removed_current)
  then have "facade_current (snd (snd (evict_loop clear limit rest
      ((swap_databases (dict_pop victim (databases (fd_config f1))) f1)
        \<lparr>fd_selector := clear victim (fd_selector (swap_databases (dict_pop victim (databases (fd_config f1))) f1))\<rparr>))))"
    by (intro Cons.IH) simp
  with p Cons.prems show ?case by (auto simp: Let_def split: prod.splits)
qed simp

lemma admitted_current:
  assumes ok: "facade_current f" and "plain_database n db"
  shows "facade_current (admitted set_replicas n db f)"
proof -
  have "fd_registry (snd (purged n f)) = snd (snd (dispose_database n (fd_registry f)))"
    using ok absent_database [of "fd_registry f" n] purge_registry [of n f]
    by (auto simp: purged_def facade_current_def fd_config_def)
  then have "facade_current (swap_databases (dict_set n db (databases (fd_config (snd (purged n f))))) (snd (purged n f)))"
    using assms by (intro swapped_current [OF ok]) (auto simp: dict_get_set purged_frame)
  then show ?thesis by (simp add: admitted_def Let_def)
qed

lemma register_states:
  fixes f :: "'s facade" and n :: string and db :: database_config
    and set_replicas :: "string \<Rightarrow> string list \<Rightarrow> 's \<Rightarrow> 's"
  defines "f5 \<equiv> snd (snd (evict_lru_databases (\<lambda>n. set_replicas n []) (admitted set_replicas n db f)))"
  shows "snd (snd (register_database create set_replicas t n db connect f))
     \<in> {f, f5, f5\<lparr>fd_registry := snd (snd (registry_get_engine create t (primary_route n ''default'') (fd_registry f5)))\<rparr>}"
proof (cases "admit_database n db f")
  case (Inr u)
  obtain x ds2 g where e: "evict_lru_databases (\<lambda>n. set_replicas n []) (admitted set_replicas n db f) = (x, ds2, g)"
    by (cases "evict_lru_databases (\<lambda>n. set_replicas n []) (admitted set_replicas n db f)") auto
  obtain y ds3 r where g: "registry_get_engine create t (primary_route n ''default'') (fd_registry g) = (y, ds3, r)"
    by (cases "registry_get_engine create t (primary_route n ''default'') (fd_registry g)") auto
  show ?thesis
    using e g unfolding f5_def register_unfold [OF Inr e g, of connect]
    by (auto split: sum.split)
qed (simp add: register_database_def)

lemma plain_default: "plain (rt_shard_id (primary_route n ''default''))"
  by (simp add: primary_route_def plain_def)

lemma register_current:
  assumes "facade_current f" "plain_database n db"
  shows "facade_current (snd (snd (register_database create set_replicas t n db connect f)))"
proof -
  let ?f5 = "snd (snd (evict_lru_databases (\<lambda>n. set_replicas n []) (admitted set_replicas n db f)))"
  have "facade_current ?f5"
    by (simp add: evict_lru_databases_def evict_loop_current admitted_current [OF assms] split: option.split)
  with facade_get_current [OF this plain_default] assms(1) show ?thesis
    using register_states [of create set_replicas t n db connect f] by (auto simp del: fd_config_update)
qed

lemma ensure_current:
  assumes "facade_current f" "plain_database n db"
  shows "facade_current (snd (snd (ensure_database create set_replicas t n db connect f)))"
  using assms register_current [OF assms, of create set_replicas t connect]
  by (auto simp: ensure_database_def split: prod.split sum.split)

lemma unregister_current:
  assumes "facade_current f"
  shows "facade_current (snd (snd (unregister_database set_replicas n f)))"
proof (cases "dict_get (databases (fd_config f)) n = None")
  case False
  obtain ds f1 where p: "purge_database_state n f = (ds, f1)" by (cases "purge_database_state n f")
  have "facade_current (swap_databases (dict_pop n (databases (fd_config f1))) f1)"
    using purge_registry [of n f] purge_frame [where n = n and f = f] p by (intro removed_current [OF assms]) simp_all
  with p False show ?thesis by (auto simp: unregister_database_def Let_def)
qed (use assms in \<open>simp add: unregister_database_def\<close>)

lemma start_engines_current: "all_current r \<Longrightarrow> all_current (snd (snd (start_engines create t dbs r)))"
proof (induction create t dbs r rule: start_engines.induct)
  case (2 create t name db dbs r)
  then show ?case
    using get_current [OF 2(3) plain_default, of create t name] by (auto split: prod.splits sum.splits)
qed simp

lemma start_current:
  assumes "facade_current f"
  shows "facade_current (snd (snd (start create t f)))"
proof -
  have "facade_current (f\<lparr>fd_registry := snd (snd (start_engines create t (databases (fd_config f)) (fd_registry f)))\<rparr>)"
    using assms start_engines_current [of "fd_registry f"] start_engines_config
    by (intro registry_current) (auto simp: facade_current_def)
  with assms show ?thesis
    by (auto simp: start_def facade_current_def fd_config_def split: sum.split prod.split)
qed

lemma close_current: "facade_current f \<Longrightarrow> facade_current (snd (close f))"
  using dispose_all_current [of "fd_registry f"]
  by (auto simp: close_def facade_current_def fd_config_def dispose_all_def)

lemma drain_current: "facade_current f \<Longrightarrow> facade_current (snd (snd (drain_engine k f)))"
  using dispose_one_current [of "fd_registry f" k]
  by (auto simp: drain_engine_def dispose_one_def facade_current_def fd_config_def split: option.split)

lemma resolve_plain:
  assumes "plain_shards shards" "fst (resolve shards select ryw cfg t st) = Inr rt"
  shows "plain (rt_shard_id rt)"
proof -
  have "plain ''default''" by (simp add: plain_def)
  then have "plain s" if "fst (resolve_shard shards t r) = Inr s" for s r
    using that assms(1) by (auto simp: resolve_shard_def plain_shards_def split: if_splits)
  then have "\<And>s r' r. resolve_shard shards t r = (Inr s, r') \<Longrightarrow> plain s" by (metis fst_conv)
  with assms(2) show ?thesis
    by (auto simp: resolve_def primary_route_def split: option.splits prod.splits sum.splits if_splits)
qed

lemma lookup_cases:
  assumes "lookup_entry w t clk (r, f) = (x, (r', f'))"
  obtains (unrouted) e where "fst (resolve (wd_shards w) (wd_select w) (wd_read_your_writes w) (fd_config f) t (r, fd_selector f)) = Inl e"
      "x = Inl e" "\<exists>s. f' = f\<lparr>fd_selector := s\<rparr>"
  | (routed) rt where "fst (resolve (wd_shards w) (wd_select w) (wd_read_your_writes w) (fd_config f) t (r, fd_selector f)) = Inr rt"
      "x = fst (registry_get_engine (wd_create w) clk rt (fd_registry f))"
      "\<exists>s. f' = f\<lparr>fd_selector := s, fd_registry := snd (snd (registry_get_engine (wd_create w) clk rt (fd_registry f)))\<rparr>"
  using assms by (auto simp: lookup_entry_def split: prod.splits sum.splits)

lemma lookup_current:
  assumes "plain_shards (wd_shards w)" "facade_current (snd st)"
  shows "facade_current (snd (snd (lookup_entry w t clk st)))"
proof -
  obtain r f where st: "st = (r, f)" by (cases st)
  obtain x r' f' where l: "lookup_entry w t clk (r, f) = (x, (r', f'))" by (cases "lookup_entry w t clk (r, f)") auto
  from l have "facade_current f'"
  proof (cases rule: lookup_cases)
    case (unrouted e)
    with assms(2) st show ?thesis by auto
  next
    case (routed rt)
    then obtain s where "f' = (f\<lparr>fd_selector := s\<rparr>)\<lparr>fd_registry :=
        snd (snd (registry_get_engine (wd_create w) clk rt (fd_registry (f\<lparr>fd_selector := s\<rparr>))))\<rparr>" by auto
    moreover have "facade_current (f\<lparr>fd_selector := s\<rparr>)" using assms(2) st by simp
    ultimately show ?thesis using facade_get_current resolve_plain [OF assms(1) routed(1)] by metis
  qed
  with st l show ?thesis by simp
qed

lemma reach_current:
  assumes "plain_shards (wd_shards w)" "facade_current (snd st)" "plain_event ev"
  shows "facade_current (snd (snd (reach_step w set_replicas st ev)))"
proof -
  obtain r f where st: "st = (r, f)" by (cases st)
  have ok: "facade_current f" using assms(2) st by simp
  show ?thesis
  proof (cases ev)
    case (RvFacade e)
    then show ?thesis
      using assms(3) st ok register_current [OF ok] ensure_current [OF ok] unregister_current [OF ok]
        start_current [OF ok] close_current [OF ok]
      by (cases e) (auto simp: case_prod_beta)
  next
    case (RvLookup t clk)
    then show ?thesis using lookup_current [OF assms(1,2)] by simp
  next
    case (RvDrain k)
    then show ?thesis using drain_current [OF ok] st by simp
  qed
qed

lemma reach_run:
  assumes "plain_shards (wd_shards w)" "facade_current (snd st)" "list_all plain_event evs"
  shows "facade_current (snd (snd (run_steps (reach_step w set_replicas) st evs)))"
  using assms(2,3)
proof (induction evs arbitrary: st)
  case (Cons ev evs)
  then show ?case
    using reach_current [OF assms(1) Cons.prems(1), of ev set_replicas] by (simp add: run_steps_Cons)
qed simp

lemma new_facade_current: "plain_config cfg \<Longrightarrow> facade_current (new_facade cfg s)"
  by (simp add: facade_current_def new_facade_def new_registry_def all_current_def filed_def fd_config_def)

lemma resolve_database: "fst (resolve shards select ryw cfg t st) = Inr rt \<Longrightarrow> rt_database rt = tg_database t"
  by (auto simp: resolve_def primary_route_def split: option.splits prod.splits sum.splits if_splits)

text \<open>What a lookup hands out: a cached entry under the key of the route, or a new one for it.\<close>

lemma registry_hit_cases:
  assumes "fst (registry_get_engine create clk rt r) = Inr entry"
  obtains tgt key where "target_for (rg_config r) rt = Inr tgt" "key_for (rg_config r) rt tgt = Inr key"
    "(\<exists>e. dict_get (rg_entries r) (key_text key) = Some e \<and> entry = e\<lparr>ee_last_used := clk\<rparr>)
     \<or> (dict_get (rg_entries r) (key_text key) = None \<and> ee_key entry = key \<and> ee_target entry = tgt
        \<and> build_engine create (rg_config r) tgt = Inr (ee_engine entry))"
proof -
  obtain tgt key where tk: "target_for (rg_config r) rt = Inr tgt" "key_for (rg_config r) rt tgt = Inr key"
    using assms by (auto simp: registry_get_engine_def sum_bind_Inr_iff split: sum.splits)
  then show ?thesis
    using assms that by (auto simp: registry_get_engine_def insert_engine_def pop_lru_def Let_def
        split: option.splits prod.splits sum.splits if_splits)
qed


text \<open>C18. Draining an engine makes the next call build a new one: it succeeds exactly for the key of a live engine,
  takes that engine and no other out of the registry and disposes it, and whatever lookup is answered next with an
  engine of this key has just built it.\<close>

theorem drain_forces_rebuild:
  fixes w :: "('r, 's) world" and f :: "'s facade"
  assumes "facade_current f"
  shows "case drain_engine key f of (x, ds, f') \<Rightarrow>
     (x \<longleftrightarrow> (\<exists>e. dict_get (rg_entries (fd_registry f)) key = Some e \<and> ds = [ee_engine e]))
     \<and> live_engines f = live_engines f' + (if x then 1 else 0)
     \<and> (\<forall>k. k \<noteq> key \<longrightarrow> dict_get (rg_entries (fd_registry f')) k = dict_get (rg_entries (fd_registry f)) k)
     \<and> (\<forall>r t clk entry. fst (lookup_entry w t clk (r, f')) = Inr entry \<longrightarrow> key_text (ee_key entry) = key \<longrightarrow>
          build_engine (wd_create w) (fd_config f') (ee_target entry) = Inr (ee_engine entry))"
proof -
  obtain x ds f' where d: "drain_engine key f = (x, ds, f')" by (cases "drain_engine key f")
  have f: "filed (rg_entries (fd_registry f))" using assms by (simp add: facade_current_def all_current_def)
  have cur: "facade_current f'" using drain_current [OF assms, of key] d by simp
  then have f': "filed (rg_entries (fd_registry f'))" by (simp add: facade_current_def all_current_def)
  have gone: "dict_get (rg_entries (fd_registry f')) key = None"
    and others: "k \<noteq> key \<Longrightarrow> dict_get (rg_entries (fd_registry f')) k = dict_get (rg_entries (fd_registry f)) k" for k
    using d by (auto simp: drain_engine_def dispose_one_def dict_get_pop split: option.splits)
  have count: "live_engines f = live_engines f' + (if x then 1 else 0)"
    using d length_dict_pop [of "rg_entries (fd_registry f)" key] f
    by (auto simp: drain_engine_def dispose_one_def live_engines_def engine_count_def filed_def split: option.splits)
  have built: "build_engine (wd_create w) (fd_config f') (ee_target entry) = Inr (ee_engine entry)"
    if e: "fst (lookup_entry w t clk (r, f')) = Inr entry" and k: "key_text (ee_key entry) = key" for r t clk entry
  proof -
    obtain y r2 f2 where l: "lookup_entry w t clk (r, f') = (y, (r2, f2))" by (cases "lookup_entry w t clk (r, f')") auto
    then show ?thesis
    proof (cases rule: lookup_cases)
      case (unrouted z)
      with e l show ?thesis by simp
    next
      case (routed rt)
      then have "fst (registry_get_engine (wd_create w) clk rt (fd_registry f')) = Inr entry" using e l by simp
      then show ?thesis
      proof (cases rule: registry_hit_cases)
        case (1 tgt k2)
        with gone k f' show ?thesis by (auto simp: fd_config_def dest: filed_key)
      qed
    qed
  qed
  have "x \<longleftrightarrow> (\<exists>e. dict_get (rg_entries (fd_registry f)) key = Some e \<and> ds = [ee_engine e])"
    using d by (auto simp: drain_engine_def dispose_one_def split: option.splits)
  with d count others built show ?thesis by auto
qed

subsection \<open>Names with a colon\<close>

definition colliding_config :: dbkit_config where
  "colliding_config = (sample_config None)\<lparr>connection_budget := no_budget, databases :=
     [(''app'', sample_database),
      (''app:eu'', sample_database\<lparr>db_primary := (sample_target ''postgresql://eu/db'')\<lparr>t_pool := None\<rparr>\<rparr>)]\<rparr>"

definition colliding_world :: "(directory, round_robin) world" where
  "colliding_world = \<lparr>wd_env = sample_env True [], wd_create = (\<lambda>url _. Inr (length url)), wd_shards = directory_resolve,
     wd_select = rr_select, wd_clock = real, wd_random = (\<lambda>_. 1), wd_read_your_writes = False\<rparr>"

definition colliding_state :: "(directory, round_robin) fstate" where
  "colliding_state =
     ([(Some (key_class (KInt 1)), ''eu:1''), (Some (key_class (KInt 2)), ''1'')],
      new_facade colliding_config (default_selector colliding_config))"

lemma sample_target_url [simp]: "t_url (sample_target u) = u"
  by (simp add: sample_target_def)

lemma eu_target_valid: "target_validate ((sample_target ''postgresql://eu/db'')\<lparr>t_pool := p\<rparr>) = Inr ()"
proof -
  have "urlsplit ''postgresql://eu/db'' = Some \<lparr>up_scheme = ''postgresql'', up_netloc = ''eu'',
      up_path = ''/db'', up_query = [], up_fragment = []\<rparr>" by code_simp
  then show ?thesis by (simp add: target_validate_def sample_target_def url_parts_py_def)
qed


subsection \<open>Witnesses\<close>

abbreviation app_target :: target where
  "app_target \<equiv> \<lparr>tg_database = ''app'', tg_role = RoleWrite, tg_shard_key = None\<rparr>"

lemma sample_plain: "plain_config (sample_config None)" "plain_shards (wd_shards sample_world)"
  by (simp_all add: plain_config_def plain_database_def plain_def replica_names_def sample_config_def
      plain_shards_def sample_world_def single_resolve_def)

lemma sample_lookup:
  assumes "dict_get (databases (fd_config f)) ''app'' = dict_get (databases (sample_config None)) ''app''"
    and "rg_entries (fd_registry f) = []" "rg_max_engines (fd_registry f) = None"
  shows "\<exists>entry. fst (lookup_entry sample_world app_target clk ((), f)) = Inr entry
    \<and> key_text (ee_key entry) = environment (fd_config f) @ '':app:default:primary:postgresql''"
proof -
  have d: "driver (sample_target ''postgresql://h/db''\<lparr>t_pool := None\<rparr>) = Inr ''postgresql''" by code_simp
  show ?thesis
    using assms(2,3) assms(1) [unfolded fd_config_def]
    by (simp add: lookup_entry_def sample_world_def fd_config_def resolve_def resolve_shard_def wants_replica_def
        sample_config_def primary_route_def registry_get_engine_def target_for_def key_for_def
        insert_engine_def build_engine_def key_text_def Let_def d)
qed


lemma live_sample:
  "\<exists>f :: round_robin facade. facade_current f \<and> live_engines f = 1
     \<and> fst (drain_engine ''development:app:default:primary:postgresql'' f)"
proof -
  let ?f0 = "new_facade (sample_config None) (default_selector (sample_config None))"
  let ?f = "snd (snd (lookup_entry sample_world app_target 0 ((), ?f0)))"
  let ?key = "''development:app:default:primary:postgresql''"
  have d: "driver (sample_target ''postgresql://h/db''\<lparr>t_pool := None\<rparr>) = Inr ''postgresql''" by code_simp
  have "\<exists>e. rg_entries (fd_registry ?f) = [(?key, e)]"
    by (simp add: lookup_entry_def sample_world_def fd_config_def resolve_def resolve_shard_def wants_replica_def
        sample_config_def primary_route_def registry_get_engine_def target_for_def key_for_def new_facade_def new_registry_def
        insert_engine_def build_engine_def key_text_def Let_def d)
  then have one: "live_engines ?f = 1" "\<exists>e. dict_get (rg_entries (fd_registry ?f)) ?key = Some e"
    by (auto simp: live_engines_def engine_count_def)
  have "facade_current ?f"
    using sample_plain new_facade_current [OF sample_plain(1), of "default_selector (sample_config None)"]
    by (intro lookup_current) simp_all
  with one show ?thesis
    by (intro exI [of _ ?f]) (auto simp: drain_engine_def dispose_one_def)
qed

lemma drain_forces_rebuild_witness:
  "\<exists>f :: round_robin facade. live_engines f = 1
     \<and> live_engines (snd (snd (drain_engine ''development:app:default:primary:postgresql'' f))) = 0"
proof -
  let ?key = "''development:app:default:primary:postgresql''"
  obtain f :: "round_robin facade" where f: "facade_current f" "live_engines f = 1" "fst (drain_engine ?key f)"
    using live_sample by blast
  from drain_forces_rebuild [OF f(1), of ?key sample_world] f(2,3)
  have "live_engines (snd (snd (drain_engine ?key f))) = 0" by (auto simp: case_prod_beta)
  with f(2) show ?thesis by blast
qed

end
