(* ===== verification/Status.thy ===== *)
theory Status
  imports Console Pool Reach
begin

text \<open>
  What the process says of its pools: the snapshots of the registry (\<^verbatim>\<open>_async/engine.py\<close>),
  \<^verbatim>\<open>AsyncDatabase.pool_status\<close>, and the commands \<^verbatim>\<open>pools\<close> and \<^verbatim>\<open>metrics\<close> of
  \<^verbatim>\<open>cli/main.py\<close>. The pools themselves are SQLAlchemy's: \<open>lp_events\<close> is what an engine's
  listeners were told since the engine was built, and \<open>lp_ask\<close> answers the methods of its pool now.
\<close>

subsection \<open>Snapshots of live engines\<close>

record live_pools =
  lp_events :: "nat \<Rightarrow> pool_event list"
  lp_ask :: "nat \<Rightarrow> string \<Rightarrow> int option"
  lp_clock :: "nat \<Rightarrow> real"

text \<open>The listeners that \<^verbatim>\<open>get\<close> attaches to the engine it builds: under the engine's key and labels,
  with the threshold of the pool it was built with.\<close>

definition engine_listeners :: "dbkit_config \<Rightarrow> engine_entry \<Rightarrow> instrumentation" where
  "engine_listeners cfg e =
     new_instrumentation (key_text (ee_key e)) (ee_labels e)
       (pool_long_hold_warning_seconds (resolved_pool (ee_target e) (defaults cfg)))"

definition entry_snapshot :: "live_pools \<Rightarrow> dbkit_config \<Rightarrow> engine_entry \<Rightarrow> pool_snapshot" where
  "entry_snapshot lp cfg e =
     fst (snapshot (lp_ask lp (ee_engine e)) (lp_clock lp (ee_engine e))
       (pool_run (engine_listeners cfg e) (lp_events lp (ee_engine e))))"

definition snapshots :: "live_pools \<Rightarrow> engine_registry \<Rightarrow> pool_snapshot list" where
  "snapshots lp r = map (\<lambda>(_, e). entry_snapshot lp (rg_config r) e) (rg_entries r)"

definition pool_status :: "live_pools \<Rightarrow> 's facade \<Rightarrow> pool_snapshot list" where
  "pool_status lp f = snapshots lp (fd_registry f)"

subsection \<open>The command \<^verbatim>\<open>pools\<close>\<close>

text \<open>\<open>percent\<close> is the format \<^verbatim>\<open>.0%\<close>.\<close>

definition pools_line :: "(real \<Rightarrow> string) \<Rightarrow> pool_snapshot \<Rightarrow> line" where
  "pools_line percent s =
     Out (ps_key s @ '': size='' @ show_int (ps_size s) @ '' checked_out='' @ show_int (ps_checked_out s)
       @ '' overflow='' @ show_int (ps_overflow s) @ '' utilization='' @ percent (round3 (utilization s))
       @ '' created='' @ show_nat (ps_created s) @ '' closed='' @ show_nat (ps_closed s)
       @ '' invalidations='' @ show_nat (ps_invalidations s))"

definition finish_with :: "('a \<Rightarrow> line list) \<Rightarrow> 'a py \<Rightarrow> report" where
  "finish_with show_result r =
     (case r of
        Inl (DbErr d) \<Rightarrow> ([Err (''error: '' @ err_message d)], Exit 1)
      | Inl e \<Rightarrow> ([], Crash e)
      | Inr x \<Rightarrow> (show_result x, Exit 0))"

definition pools_command :: "('r, 's) world \<Rightarrow> live_pools \<Rightarrow> (real \<Rightarrow> string) \<Rightarrow> ('r, 's, report) facade_op" where
  "pools_command w lp percent tr st =
     (case cli_session w True (\<lambda>tr st. (Inr (pool_status lp (snd st)), tr, st)) tr st of
        (r, tr1, st1) \<Rightarrow>
          (Inr (finish_with (\<lambda>snaps. if snaps = [] then [Out ''no engines created''] else map (pools_line percent) snaps) r),
           tr1, st1))"

subsection \<open>The command \<^verbatim>\<open>metrics\<close>\<close>

definition metrics_probe :: query_obj where
  "metrics_probe = AQuery
     \<lparr>q_name = ''dbkit.cli.metrics_probe'', q_statement = TextClause ''SELECT 1'', q_operation = OpRead, q_timeout = None,
      q_idempotent = False, q_expensive = False, q_sensitive_parameters = [], q_settings = None\<rparr>"

fun probe_databases :: "('r, 's) world \<Rightarrow> (string \<times> database_config) list \<Rightarrow> ('r, 's, unit) facade_op" where
  "probe_databases w [] tr st = (Inr (), tr, st)"
| "probe_databases w ((name, db) # dbs) tr st =
     (if \<not> t_required (db_primary db) then probe_databases w dbs tr st
      else
        (case new_target name RoleWrite None of
           Inl e \<Rightarrow> (Inl e, tr, st)
         | Inr t \<Rightarrow>
             (case db_fetch_value w metrics_probe None t None None tr st of
                (Inl e, tr1, st1) \<Rightarrow> (Inl e, tr1, st1)
              | (Inr _, tr1, st1) \<Rightarrow> probe_databases w dbs tr1 st1)))"

text \<open>\<open>installed\<close>: whether \<^verbatim>\<open>prometheus_client\<close> can be imported; \<open>latest\<close> is its
  \<^verbatim>\<open>generate_latest\<close>, over everything that was recorded while the command ran.\<close>

definition metrics_command :: "('r, 's) world \<Rightarrow> bool \<Rightarrow> (effect list \<Rightarrow> string) \<Rightarrow> ('r, 's, report) facade_op" where
  "metrics_command w installed latest tr st =
     (if \<not> installed then (Inr ([Err ''the `prometheus` extra is required: pip install dbkit-sql[prometheus]''], Exit 1), tr, st)
      else
        (case cli_session w True (\<lambda>tr st. probe_databases w (databases (fd_config (snd st))) tr st) tr st of
           (r, tr1, st1) \<Rightarrow> (Inr (finish_with (\<lambda>_. [Out (latest tr1)]) r), tr1, st1)))"

subsection \<open>Keys in, keys out\<close>

lemma pool_step_key: "pi_key (pool_step p e) = pi_key p"
  by (cases e) (simp_all add: on_connect_def on_checkout_def on_checkin_def on_invalidate_def on_close_def Let_def)

lemma pool_run_key: "pi_key (pool_run p evs) = pi_key p"
  by (induction evs arbitrary: p) (simp_all add: pool_run_def pool_step_key)

lemma entry_snapshot_key [simp]: "ps_key (entry_snapshot lp cfg e) = key_text (ee_key e)"
  by (simp add: entry_snapshot_def snapshot_def Let_def pool_run_key engine_listeners_def new_instrumentation_def)

lemma snapshot_keys:
  assumes "filed (rg_entries r)"
  shows "map ps_key (snapshots lp r) = dict_keys (rg_entries r)"
  using assms by (auto simp: snapshots_def filed_def)

text \<open>The keys that \<^verbatim>\<open>pool_status\<close> shows are the keys to drain by: one for each live engine, each
  different; \<^verbatim>\<open>drain_engine\<close> succeeds exactly for one of them, and afterwards the status shows the
  others as before and that one no more.\<close>

theorem status_keys_drain:
  assumes "facade_current f"
  shows "length (pool_status lp f) = live_engines f \<and> distinct (map ps_key (pool_status lp f))
    \<and> (case drain_engine key f of (x, ds, f') \<Rightarrow>
         (x \<longleftrightarrow> key \<in> set (map ps_key (pool_status lp f)))
         \<and> pool_status lp f' = filter (\<lambda>s. ps_key s \<noteq> key) (pool_status lp f))"
proof -
  let ?d = "rg_entries (fd_registry f)"
  have f: "filed ?d" using assms by (simp add: facade_current_def all_current_def)
  have keys: "map ps_key (pool_status lp f) = dict_keys ?d" using snapshot_keys [OF f] by (simp add: pool_status_def)
  have own: "k = key_text (ee_key e)" if "(k, e) \<in> set ?d" for k e using f that by (auto simp: filed_def)
  then have gone: "pool_status lp (f\<lparr>fd_registry := (fd_registry f)\<lparr>rg_entries := dict_pop key ?d\<rparr>\<rparr>)
      = filter (\<lambda>s. ps_key s \<noteq> key) (pool_status lp f)"
    by (auto simp: pool_status_def snapshots_def AList.delete_eq filter_map o_def case_prod_beta
        intro!: map_cong filter_cong)
  have none: "filter (\<lambda>s. ps_key s \<noteq> key) (pool_status lp f) = pool_status lp f" if "key \<notin> set (dict_keys ?d)"
    using that keys by (auto simp: filter_id_conv) (metis image_eqI list.set_map)
  have "case drain_engine key f of (x, ds, f') \<Rightarrow> (x \<longleftrightarrow> key \<in> set (dict_keys ?d))
      \<and> pool_status lp f' = filter (\<lambda>s. ps_key s \<noteq> key) (pool_status lp f)"
    using gone none dict_get_None_iff [of ?d key]
    by (auto simp: drain_engine_def dispose_one_def split: option.splits)
  moreover have "length (pool_status lp f) = live_engines f"
    by (simp add: pool_status_def snapshots_def live_engines_def engine_count_def)
  moreover have "distinct (dict_keys ?d)" using f by (simp add: filed_def dict_wf_def)
  ultimately show ?thesis unfolding keys by simp
qed

subsection \<open>What \<^verbatim>\<open>pools\<close> has done when it ends well\<close>

lemma warm_step:
  "t_required (db_primary db) \<Longrightarrow> warm_engines w True ((name, db) # dbs) tr st =
     (case check_target w name tr st of (Inl e, tr1, st1) \<Rightarrow> (Inl e, tr1, st1) | (Inr _, tr1, st1) \<Rightarrow> warm_engines w True dbs tr1 st1)"
  by (auto simp: check_target_def split: prod.split sum.split)

lemma warm_engines_spec:
  assumes "only_exceptions (wd_env w)" "warm_engines w True dbs tr st = (x, tr', st')"
  shows "(x = Inr () \<longrightarrow> served (wd_env w) tr + length (required_keys dbs) \<le> served (wd_env w) tr')
    \<and> (\<exists>Ls. connections Ls \<and> life tr' = life tr @ concat Ls)"
  using assms(2)
proof (induction dbs arbitrary: tr st)
  case Nil
  then show ?case by (auto simp: required_keys_def intro: exI [of _ "[]"])
next
  case (Cons p dbs)
  obtain name db where p: "p = (name, db)" by (cases p)
  show ?case
  proof (cases "t_required (db_primary db)")
    case False
    then show ?thesis using Cons.IH [of tr st] Cons.prems by (simp add: p required_keys_def)
  next
    case True
    obtain y tr1 st1 where c: "check_target w name tr st = (y, tr1, st1)" by (cases "check_target w name tr st")
    note one = check_target_spec [OF c assms(1)]
    obtain Ls1 where Ls1: "connections Ls1" "life tr1 = life tr @ concat Ls1" using one(3) by blast
    show ?thesis
    proof (cases y)
      case (Inl e)
      then have "x = Inl e" "tr' = tr1" using Cons.prems c True by (simp_all add: p warm_step del: warm_engines.simps)
      with Ls1 show ?thesis by blast
    next
      case (Inr u)
      then have "warm_engines w True dbs tr1 st1 = (x, tr', st')"
        using Cons.prems c True by (simp add: p warm_step del: warm_engines.simps)
      from Cons.IH [OF this] obtain Ls where rest:
        "x = Inr () \<longrightarrow> served (wd_env w) tr1 + length (required_keys dbs) \<le> served (wd_env w) tr'"
        "connections Ls" "life tr' = life tr1 @ concat Ls" by blast
      have "life tr' = life tr @ concat (Ls1 @ Ls)" "connections (Ls1 @ Ls)" using rest(2,3) Ls1 by auto
      moreover have "x = Inr () \<longrightarrow> served (wd_env w) tr + length (required_keys (p # dbs)) \<le> served (wd_env w) tr'"
        using rest(1) one(2) Inr True by (auto simp: p required_keys_def)
      ultimately show ?thesis by blast
    qed
  qed
qed

text \<open>Status 0 of \<^verbatim>\<open>pools\<close> means that every required database answered a statement while it ran;
  whatever the status, every connection was given back with nothing committed.\<close>

theorem pools_probes_every_database:
  assumes "only_exceptions (wd_env w)" "\<not> fd_started f"
    and "pools_command w lp percent tr (r, f) = (Inr (ls, status), tr', st')"
  shows "(\<exists>Ls. connections Ls \<and> life tr' = life tr @ concat Ls)
    \<and> (status = Exit 0 \<longrightarrow> served (wd_env w) tr + length (required_keys (databases (fd_config f))) \<le> served (wd_env w) tr')"
proof -
  obtain x t1 r1 f1 where s: "db_start w True tr (r, f) = (x, t1, (r1, f1))" by (cases "db_start w True tr (r, f)") auto
  have t: "tr' = t1" "status = Exit 0 \<longrightarrow> x = Inr ()"
    using assms(3) s by (auto simp: pools_command_def cli_session_def finish_with_def split: sum.splits raised.splits)
  show ?thesis
  proof (cases "validate (fd_config f)")
    case (Inl e)
    then show ?thesis using s t assms(2) by (auto simp: db_start_def intro: exI [of _ "[]"])
  next
    case (Inr u)
    obtain y t2 st2 where y: "warm_engines w True (databases (fd_config f)) tr (r, f) = (y, t2, st2)"
      by (cases "warm_engines w True (databases (fd_config f)) tr (r, f)")
    have "t1 = t2" "x = Inr () \<longrightarrow> y = Inr ()"
      using s y Inr assms(2) by (auto simp: db_start_def split: sum.splits prod.splits)
    with t warm_engines_spec [OF assms(1) y] show ?thesis by auto
  qed
qed

subsection \<open>Witnesses\<close>

definition idle_pools :: live_pools where
  "idle_pools = \<lparr>lp_events = (\<lambda>_. [PvConnect]), lp_ask = (\<lambda>_ _. Some 1), lp_clock = (\<lambda>_. 0)\<rparr>"

lemma status_keys_drain_witness:
  "\<exists>f :: round_robin facade. map ps_key (pool_status idle_pools f) = [''development:app:default:primary:postgresql'']
     \<and> fst (drain_engine ''development:app:default:primary:postgresql'' f)
     \<and> pool_status idle_pools (snd (snd (drain_engine ''development:app:default:primary:postgresql'' f))) = []"
proof -
  let ?key = "''development:app:default:primary:postgresql''"
  obtain f :: "round_robin facade" where f: "facade_current f" "live_engines f = 1" "fst (drain_engine ?key f)"
    using live_sample by blast
  from status_keys_drain [OF f(1), of idle_pools ?key] f(2,3)
  have "length (pool_status idle_pools f) = 1" "?key \<in> set (map ps_key (pool_status idle_pools f))"
    "pool_status idle_pools (snd (snd (drain_engine ?key f))) = filter (\<lambda>s. ps_key s \<noteq> ?key) (pool_status idle_pools f)"
    by (simp_all add: case_prod_beta)
  then show ?thesis using f(3) by (intro exI [of _ f]) (auto simp: length_Suc_conv)
qed

lemma pools_probes_every_database_witness:
  "case pools_command sample_world idle_pools (\<lambda>_. ''0%'') [] ((), ready_facade) of (x, tr', st') \<Rightarrow>
     \<exists>Ls. connections Ls \<and> life tr' = life [] @ concat Ls"
proof -
  have ex: "only_exceptions (wd_env sample_world)" by (simp add: only_exceptions_def sample_world_def)
  obtain x tr' st' where c: "pools_command sample_world idle_pools (\<lambda>_. ''0%'') [] ((), ready_facade) = (x, tr', st')"
    by (cases "pools_command sample_world idle_pools (\<lambda>_. ''0%'') [] ((), ready_facade)")
  moreover have "\<exists>ls status. x = Inr (ls, status)" using c by (auto simp: pools_command_def split: prod.splits)
  moreover have "\<not> fd_started ready_facade" by (simp add: ready_facade_simps)
  ultimately show ?thesis using pools_probes_every_database [OF ex, of ready_facade] by fastforce
qed

end
