(* ===== verification/Loops.thy ===== *)
theory Loops
  imports Database
begin

text \<open>
  The \<^verbatim>\<open>while\<close> statements of the package, written as the code has them: by an equation, with no
  argument that they end. Not returning is \<open>None\<close>, so that they return is a theorem here, and the total
  definitions that the other theories use are what they return. The three loops are the retries of
  \<^verbatim>\<open>_async/resilience.py\<close>, the eviction of databases in \<^verbatim>\<open>_async/database.py\<close> and the window of
  \<^verbatim>\<open>_core/circuit.py\<close>.
\<close>

subsection \<open>Retries\<close>

partial_function (option) retry_while ::
  "'a retry_call \<Rightarrow> real \<Rightarrow> int \<Rightarrow> retry_state \<Rightarrow> ('a py \<times> retry_state) option" where
  "retry_while c started done s =
     (let attempt = done + 1 in
      case gate c s of (allowed, s1) \<Rightarrow>
      if \<not> allowed then Some (Inl (DbErr (circuit_open_error c)), s1)
      else
        (let s2 = log_event (EAttempt attempt) s1 in
         case rc_op c attempt of
           Inr result \<Rightarrow> Some (Inr result, record_success c s2)
         | Inl (Foreign e) \<Rightarrow> Some (Inl (Foreign e), s2)
         | Inl (DbErr err) \<Rightarrow>
             (let s3 = record_failure c err s2 in
              if \<not> retries c err attempt then Some (Inl (DbErr err), s3)
              else
                (let delay = retry_delay c attempt in
                 case past_deadline c delay s3 of (late, s4) \<Rightarrow>
                 if late then Some (Inl (DbErr err), s4)
                 else
                   (case past_budget c started delay s4 of (over, s5) \<Rightarrow>
                    if over then Some (Inl (DbErr err), s5)
                    else
                      retry_while c started attempt
                        (log_event (ESleep (rs_ticks s5) delay) (log_event (ERetry attempt) s5)))))))"

definition run_while :: "'a retry_call \<Rightarrow> breaker option \<Rightarrow> ('a py \<times> retry_state) option" where
  "run_while c breaker =
     (case monotonic c \<lparr>rs_ticks = 0, rs_breaker = breaker, rs_log = []\<rparr> of
        (started, s) \<Rightarrow> retry_while c started 0 s)"

lemma retry_while_returns: "retry_while c started n s = Some (retry_loop c started n s)"
proof (induction c started n s rule: retry_loop.induct)
  case (1 c started n s)
  then show ?case
    by (subst retry_while.simps, subst retry_loop.simps) (auto simp: Let_def split: prod.splits sum.splits raised.splits)
qed

text \<open>C12. A resilient call always comes to an end: whatever the operation, the policy, the clock and the breaker do,
  the loop returns, after at most as many attempts as the policy has (one where it has none).\<close>

theorem retries_terminate:
  "\<exists>r s. run_while c breaker = Some (r, s) \<and> run_with_retries c breaker = (r, s)
     \<and> int (length (attempts_of (rs_log s))) \<le> max 1 (attempts (rc_config c))"
proof -
  obtain k where k: "attempts_of (rs_log (snd (run_with_retries c breaker))) = map (\<lambda>i. 1 + int i) [0..<k]"
    "legal c 0 k (fst (run_with_retries c breaker))" using run_legal by blast
  have "int k \<le> max 1 (attempts (rc_config c))" using legal_bound [OF k(2)] by simp
  moreover have "run_while c breaker = Some (run_with_retries c breaker)"
    by (simp add: run_while_def run_with_retries_def monotonic_def retry_while_returns)
  ultimately show ?thesis using k(1) by (cases "run_with_retries c breaker") simp
qed

subsection \<open>Eviction of databases\<close>

partial_function (option) evict_while ::
  "(string \<Rightarrow> 's \<Rightarrow> 's) \<Rightarrow> int \<Rightarrow> nat list \<Rightarrow> 's facade \<Rightarrow> (unit py \<times> nat list \<times> 's facade) option" where
  "evict_while clear limit disposed f =
     (if int (length (fd_dynamic_lru f)) > limit then
        (case fd_dynamic_lru f of
           [] \<Rightarrow> Some (Inl (Foreign (plain_exn [CException, CRuntimeError] ''coroutine raised StopIteration'')), disposed, f)
         | victim # rest \<Rightarrow>
             (case purge_database_state victim (f\<lparr>fd_dynamic_lru := rest\<rparr>) of
                (ds, f1) \<Rightarrow>
                  (let f2 = swap_databases (dict_pop victim (databases (fd_config f1))) f1
                   in evict_while clear limit (disposed @ ds) (f2\<lparr>fd_selector := clear victim (fd_selector f2)\<rparr>))))
      else Some (Inr (), disposed, f))"

lemma purge_lru: "purge_database_state n f = (ds, f1) \<Longrightarrow> fd_dynamic_lru f1 = fd_dynamic_lru f"
  by (auto simp: purge_database_state_def split: prod.splits)

lemma evict_while_returns:
  "evict_while clear limit disposed f =
     (case evict_loop clear limit (fd_dynamic_lru f) f of (x, ds, f') \<Rightarrow> Some (x, disposed @ ds, f'))"
proof (induction "fd_dynamic_lru f" arbitrary: f disposed)
  case Nil
  then have "fd_dynamic_lru f = []" by simp
  moreover from this have "f\<lparr>fd_dynamic_lru := []\<rparr> = f" by (cases f) simp
  ultimately show ?case by (subst evict_while.simps) simp
next
  case (Cons victim rest)
  obtain ds f1 where p: "purge_database_state victim (f\<lparr>fd_dynamic_lru := rest\<rparr>) = (ds, f1)"
    by (cases "purge_database_state victim (f\<lparr>fd_dynamic_lru := rest\<rparr>)")
  let ?f2 = "swap_databases (dict_pop victim (databases (fd_config f1))) f1"
  let ?f3 = "?f2\<lparr>fd_selector := clear victim (fd_selector ?f2)\<rparr>"
  have lru: "fd_dynamic_lru f = victim # rest" using Cons.hyps(2) by simp
  then have same: "f\<lparr>fd_dynamic_lru := victim # rest\<rparr> = f" by (cases f) simp
  have next_lru: "fd_dynamic_lru ?f3 = rest" using purge_lru [OF p] by simp
  have "evict_while clear limit (disposed @ ds) ?f3 =
      (case evict_loop clear limit rest ?f3 of (x, ds', f') \<Rightarrow> Some (x, (disposed @ ds) @ ds', f'))"
    using Cons.hyps(1) [of ?f3 "disposed @ ds"] next_lru by simp
  then show ?case
    using p same by (subst evict_while.simps) (simp add: lru Let_def split: prod.split)
qed

text \<open>Making room for databases always comes to an end, and so does registering one: the loop returns what
  \<open>evict_loop\<close> says, and under a limit that is not negative it leaves at most that many.\<close>

definition evict_databases_while ::
  "(string \<Rightarrow> 's \<Rightarrow> 's) \<Rightarrow> 's facade \<Rightarrow> (unit py \<times> nat list \<times> 's facade) option" where
  "evict_databases_while clear f =
     (case max_databases (fd_config f) of None \<Rightarrow> Some (Inr (), [], f) | Some limit \<Rightarrow> evict_while clear limit [] f)"

lemma eviction_terminates: "evict_databases_while clear f = Some (evict_lru_databases clear f)"
  by (simp add: evict_databases_while_def evict_lru_databases_def evict_while_returns split: option.split prod.split)

subsection \<open>The window of the breaker\<close>

partial_function (option) prune_while :: "real \<Rightarrow> real list \<Rightarrow> real list option" where
  "prune_while cutoff failures =
     (if failures \<noteq> [] \<and> hd failures < cutoff then prune_while cutoff (tl failures) else Some failures)"

lemma prune_terminates:
  "prune_while (time - window_seconds b) (br_failures b) = Some (br_failures (prune time b))"
proof -
  have "prune_while cutoff fs = Some (dropWhile (\<lambda>t. t < cutoff) fs)" for cutoff fs
    by (induction fs) (subst prune_while.simps, simp)+
  then show ?thesis by (simp add: prune_def)
qed

end
