(* ===== verification/Writes.thy ===== *)
theory Writes
  imports Facade Bulk
begin

text \<open>
  The bulk operations of the facade from the call to its result (\<^verbatim>\<open>_async/database.py\<close>):
  \<^verbatim>\<open>insert_many\<close>, \<^verbatim>\<open>upsert_many\<close> and \<^verbatim>\<open>copy_records\<close>. Here their targets are resolved
  by the facade, as often as the code does it: once for the entry whose dialect, limiter and labels are used,
  once more for the transaction, and once for each batch that is written on its own. The spans around them are left
  out: a span records and raises nothing.
\<close>

subsection \<open>Programs over the facade's state\<close>

definition lift_io :: "'a io \<Rightarrow> ('r, 's, 'a) facade_op" where
  "lift_io m tr st = (case m tr of (x, tr') \<Rightarrow> (x, tr', st))"

definition op_bind :: "('r, 's, 'a) facade_op \<Rightarrow> ('a \<Rightarrow> ('r, 's, 'b) facade_op) \<Rightarrow> ('r, 's, 'b) facade_op" where
  "op_bind m f tr st =
     (case m tr st of
        (Inl e, tr1, st1) \<Rightarrow> (Inl e, tr1, st1)
      | (Inr x, tr1, st1) \<Rightarrow> f x tr1 st1)"

definition op_except :: "('r, 's, 'a) facade_op \<Rightarrow> (raised \<Rightarrow> ('r, 's, 'a) facade_op) \<Rightarrow> ('r, 's, 'a) facade_op" where
  "op_except m h tr st =
     (case m tr st of
        (Inl e, tr1, st1) \<Rightarrow> if is_exception e then h e tr1 st1 else (Inl e, tr1, st1)
      | (Inr x, tr1, st1) \<Rightarrow> (Inr x, tr1, st1))"

fun op_each :: "('a \<Rightarrow> ('r, 's, unit) facade_op) \<Rightarrow> 'a list \<Rightarrow> ('r, 's, unit) facade_op" where
  "op_each f [] = lift_io (io_return ())"
| "op_each f (x # xs) = op_bind (f x) (\<lambda>_. op_each f xs)"

text \<open>\<^verbatim>\<open>limiter.acquire(tier)\<close> around a block that uses the facade.\<close>

definition op_acquire :: "env \<Rightarrow> (string, int) dict \<Rightarrow> string \<Rightarrow> ('r, 's, 'a) facade_op \<Rightarrow> ('r, 's, 'a) facade_op" where
  "op_acquire w sems tier body =
     (case dict_get sems tier of
        None \<Rightarrow> body
      | Some _ \<Rightarrow>
          op_bind (lift_io (semaphore_acquire w tier None)) (\<lambda>granted.
            if \<not> granted then
              lift_io (io_of (raise_db DatabaseOverloadedError
                (''concurrency limit reached for tier '' @ quoted tier @ ''; no slot freed up within the timeout'')))
            else (\<lambda>tr st. case body tr st of (x, tr1, st1) \<Rightarrow> (x, tr1 @ [DRelease tier], st1))))"

text \<open>What a bulk operation looks up first: the entry, and the limiter of its database.\<close>

definition bulk_lookup ::
  "('r, 's) world \<Rightarrow> target \<Rightarrow> real \<Rightarrow> ('r, 's) fstate \<Rightarrow> (engine_entry \<times> (string, int) dict) py \<times> ('r, 's) fstate" where
  "bulk_lookup w t clk st =
     (case lookup_entry w t clk st of
        (Inl e, st1) \<Rightarrow> (Inl e, st1)
      | (Inr entry, (r, f)) \<Rightarrow>
          (case limiter_for (ek_database (ee_key entry)) (fd_executor f) of
             (Inl e, ex) \<Rightarrow> (Inl e, (r, f\<lparr>fd_executor := ex\<rparr>))
           | (Inr slots, ex) \<Rightarrow> (Inr (entry, slots), (r, f\<lparr>fd_executor := ex\<rparr>))))"

definition write_options :: "real \<Rightarrow> tx_options" where
  "write_options timeout =
     \<lparr>to_isolation = None, to_read_only = False, to_deferrable = False, to_timeout = Some timeout, to_lock_timeout = None\<rparr>"

subsection \<open>Batches on their own\<close>

text \<open>The target of a batch is made from the database of the entry alone. The query name is a plain string, which
  \<^verbatim>\<open>query_meta\<close> takes for an ad-hoc statement.\<close>

definition batch_op :: "('r, 's) world \<Rightarrow> target \<Rightarrow> bool \<Rightarrow> bulk_plan \<Rightarrow> real \<Rightarrow> string \<Rightarrow> row list \<Rightarrow> ('r, 's, unit) facade_op" where
  "batch_op w t pg plan timeout query_name batch =
     op_bind (lift_io (io_of (for_batch plan batch))) (\<lambda>p.
       facade_scope w t (AStatement (BareStr query_name))
         (\<lambda>cs. io_then (run_plan (wd_env w) timeout pg p)
            (io_bind (perform (wd_env w) (DCursor ''rowcount'')) (\<lambda>k. emit (LCount (affected k (length batch))))))
         (Some timeout) None)"

definition row_op :: "('r, 's) world \<Rightarrow> target \<Rightarrow> bool \<Rightarrow> bulk_plan \<Rightarrow> real \<Rightarrow> string \<Rightarrow> row \<Rightarrow> ('r, 's, unit) facade_op" where
  "row_op w t pg plan timeout query_name row =
     op_bind (lift_io (io_of (for_batch plan [row]))) (\<lambda>p.
       facade_scope w t (AStatement (BareStr query_name))
         (\<lambda>cs. io_then (run_plan (wd_env w) timeout pg p) (emit (LCount 1))) (Some timeout) None)"

definition own_batch ::
  "('r, 's) world \<Rightarrow> target \<Rightarrow> bool \<Rightarrow> bulk_plan \<Rightarrow> failure_mode \<Rightarrow> real \<Rightarrow> string \<Rightarrow> row list \<Rightarrow> ('r, 's, unit) facade_op" where
  "own_batch w t pg plan mode timeout query_name batch =
     op_except (batch_op w t pg plan timeout query_name batch) (\<lambda>exc.
       if mode \<noteq> SplitOnFailure then lift_io (dropped (tg_database t) query_name (length batch))
       else op_each (\<lambda>row. op_except (row_op w t pg plan timeout query_name row)
              (\<lambda>row_exc. lift_io (dropped (tg_database t) query_name 1))) batch)"

definition best_effort_op ::
  "('r, 's) world \<Rightarrow> engine_entry \<Rightarrow> bulk_plan \<Rightarrow> row list list \<Rightarrow> failure_mode \<Rightarrow> real \<Rightarrow> string \<Rightarrow> ('r, 's, int) facade_op" where
  "best_effort_op w entry plan batches mode timeout query_name tr st =
     (case new_target (ek_database (ee_key entry)) RoleWrite None of
        Inl e \<Rightarrow> (Inl e, tr, st)
      | Inr t \<Rightarrow>
          (case op_each (own_batch w t (is_postgres (ee_target entry)) plan mode timeout query_name) batches tr st of
             (Inl e, tr1, st1) \<Rightarrow> (Inl e, tr1, st1)
           | (Inr _, tr1, st1) \<Rightarrow> (Inr (count_of tr1 - count_of tr), tr1, st1)))"

subsection \<open>The bulk write\<close>

definition bulk_labels :: "('r, 's) world \<Rightarrow> engine_entry \<Rightarrow> string \<Rightarrow> (string, string) dict" where
  "bulk_labels w entry query_name = executor_labels (wd_env w) (ee_key entry) query_name ''write''"

text \<open>\<^verbatim>\<open>_bulk_write\<close> for rows that are not empty, up to the number of rows written.\<close>

definition rows_op ::
  "('r, 's) world \<Rightarrow> (string \<Rightarrow> string option) \<Rightarrow> (pyval \<Rightarrow> nat) \<Rightarrow> target \<Rightarrow> bulk_call \<Rightarrow> ('r, 's, int) facade_op" where
  "rows_op w column_type str_bytes t c tr st =
     (case bulk_lookup w t (env_clock (wd_env w) tr) st of
        (Inl e, st1) \<Rightarrow> (Inl e, tr, st1)
      | (Inr (entry, slots), st1) \<Rightarrow>
          (let pg = is_postgres (ee_target entry);
               cfg = fd_config (snd st1);
               labels = bulk_labels w entry (bc_query_name c)
           in case plan_of column_type pg c of
                Inl e \<Rightarrow> (Inl e, tr, st1)
              | Inr plan \<Rightarrow>
                  (let batch_rows = batch_rows_of str_bytes (d_bulk (defaults cfg)) c;
                       batches = iter_batches (bc_rows c) batch_rows;
                       timeout = real_or (bc_timeout c) (d_transaction_timeout_seconds (defaults cfg))
                   in op_bind
                        (op_acquire (wd_env w) slots ''database'' (op_acquire (wd_env w) slots ''bulk''
                          (if bc_mode c = Atomic then
                             db_transaction w t (write_options timeout)
                               (\<lambda>cs. atomic_batches (wd_env w) plan timeout pg (bulk_context c) batches 0)
                           else best_effort_op w entry plan batches (bc_mode c) timeout (bc_query_name c))))
                        (\<lambda>written. lift_io (io_then (emit (MIncr ''db_bulk_rows_total'' (of_int written) labels)) (io_return written)))
                        (tr @ [MObserve ''db_bulk_batch_size'' (of_int batch_rows) labels]) st1)))"

definition as_row_count :: "('r, 's, int) facade_op \<Rightarrow> ('r, 's, pyval) facade_op" where
  "as_row_count m = op_bind m (\<lambda>n. lift_io (io_return (PInt n)))"

definition db_bulk_write ::
  "('r, 's) world \<Rightarrow> (string \<Rightarrow> string option) \<Rightarrow> (pyval \<Rightarrow> nat) \<Rightarrow> target \<Rightarrow> bulk_call \<Rightarrow> ('r, 's, execution_result) facade_op" where
  "db_bulk_write w column_type str_bytes t c tr st =
     (if bc_rows c = [] then
        (Inr (new_execution_result (PInt 0) (bc_query_name c) (tg_database t) 0), tr @ [DClock], st)
      else timed_result w t (bc_query_name c) (as_row_count (rows_op w column_type str_bytes t c)) tr st)"

text \<open>A table of SQLAlchemy: its columns with their types as PostgreSQL writes them, and the statements it makes.
  Making an upsert fails in SQLAlchemy where \<open>tb_upsert\<close> does; a column that the table does not have is refused
  before that.\<close>

record sql_table =
  tb_name :: string
  tb_column :: "string \<Rightarrow> string option"
  tb_insert :: statement_obj
  tb_upsert :: "string list \<Rightarrow> string list option \<Rightarrow> statement_obj py"

definition insert_call ::
  "sql_table \<Rightarrow> row list \<Rightarrow> target \<Rightarrow> failure_mode \<Rightarrow> insert_strategy \<Rightarrow> int option \<Rightarrow> real option \<Rightarrow> bulk_call" where
  "insert_call tb rows t mode strategy batch_size timeout =
     \<lparr>bc_table = tb_name tb, bc_statement = tb_insert tb, bc_rows = rows, bc_mode = mode, bc_strategy = strategy,
      bc_batch_size = batch_size, bc_timeout = timeout, bc_query_name = tb_name tb @ ''.insert_many'',
      bc_target_database = tg_database t, bc_conflict = None, bc_update = None\<rparr>"

definition db_insert_many ::
  "('r, 's) world \<Rightarrow> (pyval \<Rightarrow> nat) \<Rightarrow> sql_table \<Rightarrow> row list \<Rightarrow> target \<Rightarrow> failure_mode \<Rightarrow> insert_strategy \<Rightarrow> int option
     \<Rightarrow> real option \<Rightarrow> ('r, 's, execution_result) facade_op" where
  "db_insert_many w str_bytes tb rows t mode strategy batch_size timeout =
     db_bulk_write w (tb_column tb) str_bytes t (insert_call tb rows t mode strategy batch_size timeout)"

definition upsert_statement :: "sql_table \<Rightarrow> string list \<Rightarrow> string list option \<Rightarrow> statement_obj py" where
  "upsert_statement tb conflict update =
     (case update of
        None \<Rightarrow> tb_upsert tb conflict None
      | Some columns \<Rightarrow>
          sum_bind (map_sum (type_of_column (tb_column tb)) columns) (\<lambda>_. tb_upsert tb conflict (Some columns)))"

definition upsert_call ::
  "sql_table \<Rightarrow> statement_obj \<Rightarrow> row list \<Rightarrow> target \<Rightarrow> string list \<Rightarrow> string list option \<Rightarrow> failure_mode \<Rightarrow> insert_strategy
     \<Rightarrow> int option \<Rightarrow> real option \<Rightarrow> bulk_call" where
  "upsert_call tb statement rows t conflict update mode strategy batch_size timeout =
     (insert_call tb rows t mode strategy batch_size timeout)
       \<lparr>bc_statement := statement, bc_query_name := tb_name tb @ ''.upsert_many'', bc_conflict := Some conflict, bc_update := update\<rparr>"

definition db_upsert_many ::
  "('r, 's) world \<Rightarrow> (pyval \<Rightarrow> nat) \<Rightarrow> sql_table \<Rightarrow> row list \<Rightarrow> target \<Rightarrow> string list \<Rightarrow> string list option \<Rightarrow> failure_mode
     \<Rightarrow> insert_strategy \<Rightarrow> int option \<Rightarrow> real option \<Rightarrow> ('r, 's, execution_result) facade_op" where
  "db_upsert_many w str_bytes tb rows t conflict update mode strategy batch_size timeout tr st =
     (case upsert_statement tb conflict update of
        Inl e \<Rightarrow> (Inl e, tr, st)
      | Inr statement \<Rightarrow>
          db_bulk_write w (tb_column tb) str_bytes t
            (upsert_call tb statement rows t conflict update mode strategy batch_size timeout) tr st)"

subsection \<open>COPY\<close>

definition copy_body :: "env \<Rightarrow> string \<Rightarrow> string list \<Rightarrow> pyval list \<Rightarrow> string \<Rightarrow> int io" where
  "copy_body w table columns records database =
     except_exception (copy_from_records w table columns records)
       (\<lambda>exc. io_raise (DbErr (classify exc \<lparr>ctx_query_name = Some (table @ ''.copy''), ctx_database_name = Some database,
          ctx_shard_id = None, ctx_role = None\<rparr>)))"

definition db_copy_records ::
  "('r, 's) world \<Rightarrow> string \<Rightarrow> string list \<Rightarrow> pyval list \<Rightarrow> target \<Rightarrow> real option \<Rightarrow> ('r, 's, execution_result) facade_op" where
  "db_copy_records w table columns records t timeout tr st =
     (case lookup_entry w t (env_clock (wd_env w) tr) st of
        (Inl e, st1) \<Rightarrow> (Inl e, tr, st1)
      | (Inr entry, (r, f)) \<Rightarrow>
          if \<not> is_postgres (ee_target entry) then
            (raise_db DatabaseUnsupportedOperationError ''COPY is only supported on PostgreSQL'', tr, (r, f))
          else
            (case limiter_for (ek_database (ee_key entry)) (fd_executor f) of
               (Inl e, ex) \<Rightarrow> (Inl e, tr, (r, f\<lparr>fd_executor := ex\<rparr>))
             | (Inr slots, ex) \<Rightarrow>
                 timed_result w t (table @ ''.copy'')
                   (as_row_count (op_bind
                     (op_acquire (wd_env w) slots ''database'' (op_acquire (wd_env w) slots ''bulk''
                       (db_transaction w t (write_options (real_or timeout (d_transaction_timeout_seconds (defaults (fd_config f)))))
                         (\<lambda>cs. copy_body (wd_env w) table columns records (tg_database t)))))
                     (\<lambda>written. lift_io (io_then
                        (emit (MIncr ''db_bulk_rows_total'' (of_int written) (bulk_labels w entry (table @ ''.copy''))))
                        (io_return written)))))
                   tr (r, f\<lparr>fd_executor := ex\<rparr>)))"


subsection \<open>What a bulk write that returns has sent\<close>

lemma op_bind_ok:
  assumes "op_bind m f tr st = (Inr y, tr', st')"
  obtains x tr1 st1 where "m tr st = (Inr x, tr1, st1)" "f x tr1 st1 = (Inr y, tr', st')"
  using assms by (auto simp: op_bind_def split: prod.splits sum.splits)

text \<open>Slots are taken and given back outside of what an observation of the block shows.\<close>

lemma op_acquire_ok:
  assumes "op_acquire w sems tier body tr st = (Inr x, tr', st')"
    and "\<And>tr s. obs (tr @ [DAcquire tier s]) = obs tr" "\<And>tr. obs (tr @ [DRelease tier]) = obs tr"
  obtains tr0 tr1 where "obs tr0 = obs tr" "body tr0 st = (Inr x, tr1, st')" "obs tr' = obs tr1"
proof (cases "dict_get sems tier")
  case None
  with assms(1) that show ?thesis by (simp add: op_acquire_def)
next
  case (Some n)
  let ?tr = "tr @ [DAcquire tier None]"
  obtain y tr1 st1 where b: "body ?tr st = (y, tr1, st1)" by (cases "body ?tr st") auto
  have "y = Inr x \<and> st1 = st' \<and> tr' = tr1 @ [DRelease tier]"
    using assms(1) Some b
    by (auto simp: op_acquire_def op_bind_def lift_io_def semaphore_slots io_of_def raise_db_def split: sum.splits if_splits)
  with b assms(2,3) that [of ?tr tr1] show ?thesis by simp
qed

lemma written_own: "own_call m e \<Longrightarrow> e \<noteq> DTransCommit \<Longrightarrow> written w (tr @ [e]) = written w tr"
  by (cases e) (auto simp: own_call_def written_def)

lemma with_transaction_writes:
  assumes "with_transaction w m body tr = (Inr x, tr')"
  shows "\<exists>t1 t2. written w t1 = written w tr \<and> body (tx_scope m) t1 = (Inr x, t2) \<and> written w tr' = written w t2 @ [DTransCommit]"
proof -
  have "\<And>e tr. own_call m e \<Longrightarrow> e \<noteq> DTransCommit \<Longrightarrow> written w (tr @ [e]) = written w tr" by (rule written_own)
  from with_transaction_shows [where obs = "written w", OF assms this] obtain t1 t2 v where
    t: "written w t1 = written w tr" "body (tx_scope m) t1 = (Inr x, t2)" "env_answer w t2 DTransCommit = Inr v"
      "written w tr' = written w (t2 @ [DTransCommit])" by blast
  then have "written w tr' = written w t2 @ [DTransCommit]" by (simp add: written_def)
  with t show ?thesis by blast
qed

lemma db_transaction_ok:
  assumes "db_transaction w t opts body tr st = (Inr x, tr', st')"
  obtains cs t1 t2 where "written (wd_env w) t1 = written (wd_env w) tr" "body cs t1 = (Inr x, t2)"
    "written (wd_env w) tr' = written (wd_env w) t2 @ [DTransCommit]"
proof -
  obtain m where m: "with_transaction (wd_env w) m body tr = (Inr x, tr')"
    using assms by (auto simp: db_transaction_def split: prod.splits sum.splits)
  from with_transaction_writes [OF this] that show ?thesis by blast
qed

lemma written_other:
  "written w (tr @ [DAcquire tier s]) = written w tr" "written w (tr @ [DRelease tier]) = written w tr"
  "written w (tr @ [MIncr n v ls]) = written w tr" "written w (tr @ [MObserve n v ls]) = written w tr"
  "written w (tr @ [DClock]) = written w tr"
  by (simp_all add: written_def)

lemma lookup_config: "fd_config (snd (snd (lookup_entry w t clk st))) = fd_config (snd st)"
  by (simp add: lookup_entry_def fd_config_def case_prod_beta registry_get_config split: sum.split)

lemma bulk_lookup_config:
  assumes "bulk_lookup w t clk st = (x, st')" shows "fd_config (snd st') = fd_config (snd st)"
  using assms lookup_config [of w t clk st]
  by (auto simp: bulk_lookup_def fd_config_def split: prod.splits sum.splits)

text \<open>The parts of a bulk write that returns: the lookup, the plan, and the block under the limiter.\<close>

lemma rows_op_inner:
  assumes "rows_op w column_type str_bytes t c tr st = (Inr n, tr', st')"
  obtains entry slots st1 plan b limit labels tr1
  where "bulk_lookup w t (env_clock (wd_env w) tr) st = (Inr (entry, slots), st1)"
    and "plan_of column_type (is_postgres (ee_target entry)) c = Inr plan"
    and "b = batch_rows_of str_bytes (d_bulk (defaults (fd_config (snd st)))) c"
    and "limit = real_or (bc_timeout c) (d_transaction_timeout_seconds (defaults (fd_config (snd st))))"
    and "op_acquire (wd_env w) slots ''database'' (op_acquire (wd_env w) slots ''bulk''
           (if bc_mode c = Atomic then
              db_transaction w t (write_options limit) (\<lambda>cs. atomic_batches (wd_env w) plan limit (is_postgres (ee_target entry))
                (bulk_context c) (iter_batches (bc_rows c) b) 0)
            else best_effort_op w entry plan (iter_batches (bc_rows c) b) (bc_mode c) limit (bc_query_name c)))
           (tr @ [MObserve ''db_bulk_batch_size'' (of_int b) labels]) st1 = (Inr n, tr1, st')"
    and "tr' = tr1 @ [MIncr ''db_bulk_rows_total'' (of_int n) labels]"
proof -
  obtain y st1 where l: "bulk_lookup w t (env_clock (wd_env w) tr) st = (y, st1)"
    by (cases "bulk_lookup w t (env_clock (wd_env w) tr) st")
  obtain entry slots where y: "y = Inr (entry, slots)" using assms l by (cases y) (auto simp: rows_op_def)
  obtain plan where plan: "plan_of column_type (is_postgres (ee_target entry)) c = Inr plan"
    using assms l y by (cases "plan_of column_type (is_postgres (ee_target entry)) c") (auto simp: rows_op_def Let_def)
  have cfg: "fd_config (snd st1) = fd_config (snd st)" by (rule bulk_lookup_config [OF l])
  let ?b = "batch_rows_of str_bytes (d_bulk (defaults (fd_config (snd st)))) c"
  let ?limit = "real_or (bc_timeout c) (d_transaction_timeout_seconds (defaults (fd_config (snd st))))"
  let ?labels = "bulk_labels w entry (bc_query_name c)"
  let ?lim = "op_acquire (wd_env w) slots ''database'' (op_acquire (wd_env w) slots ''bulk''
       (if bc_mode c = Atomic then
          db_transaction w t (write_options ?limit) (\<lambda>cs. atomic_batches (wd_env w) plan ?limit (is_postgres (ee_target entry))
            (bulk_context c) (iter_batches (bc_rows c) ?b) 0)
        else best_effort_op w entry plan (iter_batches (bc_rows c) ?b) (bc_mode c) ?limit (bc_query_name c)))"
  have "op_bind ?lim (\<lambda>written. lift_io (io_then (emit (MIncr ''db_bulk_rows_total'' (of_int written) ?labels)) (io_return written)))
      (tr @ [MObserve ''db_bulk_batch_size'' (of_int ?b) ?labels]) st1 = (Inr n, tr', st')"
    using assms l y plan cfg by (cases "bc_mode c = Atomic") (simp_all add: rows_op_def Let_def)
  then obtain k tr1 st2 where "?lim (tr @ [MObserve ''db_bulk_batch_size'' (of_int ?b) ?labels]) st1 = (Inr k, tr1, st2)"
    "k = n" "st2 = st'" "tr' = tr1 @ [MIncr ''db_bulk_rows_total'' (of_int n) ?labels]"
    by (rule op_bind_ok) (auto simp: lift_io_def run_emit io_return_def)
  with that [OF l [unfolded y] plan refl refl] show ?thesis by blast
qed

lemma rows_op_atomic:
  assumes "bc_mode c = Atomic" "column_names (bc_rows c) \<noteq> []"
    and "rows_op w column_type str_bytes t c tr st = (Inr n, tr', st')"
  obtains pg plan ps t1 t2
  where "plan_of column_type pg c = Inr plan"
    and "map_sum (for_batch plan) (iter_batches (bc_rows c) (batch_rows_of str_bytes (d_bulk (defaults (fd_config (snd st)))) c)) = Inr ps"
    and "written (wd_env w) tr' = written (wd_env w) tr @ map batch_effect ps @ [DTransCommit]"
    and "atomic_batches (wd_env w) plan (real_or (bc_timeout c) (d_transaction_timeout_seconds (defaults (fd_config (snd st))))) pg
          (bulk_context c) (iter_batches (bc_rows c) (batch_rows_of str_bytes (d_bulk (defaults (fd_config (snd st)))) c)) 0 t1 = (Inr n, t2)"
proof -
  let ?wr = "written (wd_env w)"
  from assms(3) show ?thesis
  proof (cases rule: rows_op_inner)
    case (1 entry slots st1 plan b limit labels tr1)
    let ?pg = "is_postgres (ee_target entry)"
    let ?bs = "iter_batches (bc_rows c) b"
    let ?body = "\<lambda>cs :: conn_scope. atomic_batches (wd_env w) plan limit ?pg (bulk_context c) ?bs 0"
    let ?tr = "tr @ [MObserve ''db_bulk_batch_size'' (of_int b) labels]"
    have a: "op_acquire (wd_env w) slots ''database'' (op_acquire (wd_env w) slots ''bulk''
        (db_transaction w t (write_options limit) ?body)) ?tr st1 = (Inr n, tr1, st')" using 1(5) assms(1) by simp
    obtain tr2 tr3 where b: "?wr tr2 = ?wr ?tr"
        "op_acquire (wd_env w) slots ''bulk'' (db_transaction w t (write_options limit) ?body) tr2 st1 = (Inr n, tr3, st')"
        "?wr tr1 = ?wr tr3"
      by (rule op_acquire_ok [where obs = ?wr, OF a written_other(1,2)]) blast
    obtain tr4 tr5 where d: "?wr tr4 = ?wr tr2" "db_transaction w t (write_options limit) ?body tr4 st1 = (Inr n, tr5, st')"
        "?wr tr3 = ?wr tr5"
      by (rule op_acquire_ok [where obs = ?wr, OF b(2) written_other(1,2)]) blast
    obtain cs t1 t2 where e: "?wr t1 = ?wr tr4" "?body cs t1 = (Inr n, t2)" "?wr tr5 = ?wr t2 @ [DTransCommit]"
      by (rule db_transaction_ok [OF d(2)]) blast
    have cols: "bp_columns plan \<noteq> Some []"
      using 1(2) assms(2) by (auto simp: plan_of_def Let_def sum_bind_Inr_iff raise_db_def split: insert_strategy.splits if_splits)
    obtain ps where ps: "map_sum (for_batch plan) ?bs = Inr ps" "?wr t2 = ?wr t1 @ map batch_effect ps"
      using rows_written.atomic_batches_ok [OF e(2) iter_batches_no_empty cols] by blast
    show thesis
      by (rule that [OF 1(2) ps(1) [unfolded 1(3)] _ e(2) [unfolded 1(3,4)]]) (use 1(6) b d e ps written_other in simp)
  qed
qed

lemma batches_concat: "concat (iter_batches rows n) = rows"
  by (simp add: iter_batches_def slices_concat)

lemma db_bulk_write_rows:
  assumes "db_bulk_write w column_type str_bytes t c tr st = (Inr res, tr', st')" "bc_rows c \<noteq> []"
  obtains n tr1 where "rows_op w column_type str_bytes t c (tr @ [DClock]) st = (Inr n, tr1, st')" "tr' = tr1 @ [DClock]"
    "xr_row_count res = PInt n" "xr_query_name res = bc_query_name c" "xr_database_name res = tg_database t"
proof -
  obtain x tr1 st1 where r: "rows_op w column_type str_bytes t c (tr @ [DClock]) st = (x, tr1, st1)"
    by (cases "rows_op w column_type str_bytes t c (tr @ [DClock]) st") auto
  then show ?thesis
    using assms that
    by (cases x) (auto simp: db_bulk_write_def timed_result_def as_row_count_def op_bind_def lift_io_def io_return_def
        new_execution_result_def)
qed

text \<open>C14. An atomic \<^verbatim>\<open>insert_many\<close> that returns has written everything, and nothing else: over the whole call, the
  statements that carry rows are those of the batches, which partition the rows in order, each sent once with the
  statement and the parameters of the strategy, and then one COMMIT was acknowledged. The result names the query and
  the database of the call.\<close>

theorem insert_many_complete:
  assumes "column_names rows \<noteq> []"
    and "db_insert_many w str_bytes tb rows t Atomic strategy batch_size timeout tr st = (Inr res, tr', st')"
  shows "\<exists>pg plan batches ps.
      plan_of (tb_column tb) pg (insert_call tb rows t Atomic strategy batch_size timeout) = Inr plan
    \<and> batches = iter_batches rows (batch_rows_of str_bytes (d_bulk (defaults (fd_config (snd st))))
        (insert_call tb rows t Atomic strategy batch_size timeout))
    \<and> concat batches = rows \<and> map_sum (for_batch plan) batches = Inr ps
    \<and> written (wd_env w) tr' = written (wd_env w) tr @ map batch_effect ps @ [DTransCommit]
    \<and> xr_query_name res = tb_name tb @ ''.insert_many'' \<and> xr_database_name res = tg_database t"
proof -
  let ?c = "insert_call tb rows t Atomic strategy batch_size timeout"
  have c: "bc_mode ?c = Atomic" "bc_rows ?c = rows" by (simp_all add: insert_call_def)
  have "bc_rows ?c \<noteq> []" using assms(1) by (auto simp: c column_names_def)
  then obtain n tr1 where r: "rows_op w (tb_column tb) str_bytes t ?c (tr @ [DClock]) st = (Inr n, tr1, st')" "tr' = tr1 @ [DClock]"
      "xr_query_name res = bc_query_name ?c" "xr_database_name res = tg_database t"
    using assms(2) db_bulk_write_rows unfolding db_insert_many_def by metis
  obtain pg plan ps where
    "plan_of (tb_column tb) pg ?c = Inr plan"
    "map_sum (for_batch plan) (iter_batches (bc_rows ?c) (batch_rows_of str_bytes (d_bulk (defaults (fd_config (snd st)))) ?c)) = Inr ps"
    "written (wd_env w) tr1 = written (wd_env w) (tr @ [DClock]) @ map batch_effect ps @ [DTransCommit]"
    using rows_op_atomic [OF c(1) _ r(1)] assms(1) unfolding c by metis
  with r c batches_concat show ?thesis
    by (intro exI conjI; (assumption | rule refl)?) (simp_all add: insert_call_def written_other)
qed

subsection \<open>Row counts\<close>

lemma atomic_batches_zero:
  assumes "\<forall>tr. env_answer w tr (DCursor ''rowcount'') = Inr (PInt 0)"
  shows "atomic_batches w plan t pg ctx bs k tr = (Inr n, tr') \<Longrightarrow> n = k + int (length (concat bs))"
proof (induction bs arbitrary: k tr)
  case Nil
  then show ?case by (simp add: io_return_def)
next
  case (Cons b bs)
  obtain j tr1 where b: "atomic_batch w plan t pg ctx b tr = (Inr j, tr1)"
    "atomic_batches w plan t pg ctx bs (k + j) tr1 = (Inr n, tr')"
    using Cons.prems by (auto simp: io_bind_def split: prod.splits sum.splits)
  have "j = int (length b)"
    using b(1) assms
    by (auto simp: atomic_batch_def io_then_def io_bind_def io_of_def io_return_def perform_def affected_def
        split: prod.splits sum.splits)
  with Cons.IH [OF b(2)] show ?case by simp
qed

text \<open>A row count of zero is taken for an unknown one: when the driver reports that no row of any batch was written,
  as it does for an upsert with DO NOTHING whose rows are all there already, an atomic bulk upsert reports all of
  them as written.\<close>

theorem upsert_counts_skipped_rows:
  assumes "\<forall>tr. env_answer (wd_env w) tr (DCursor ''rowcount'') = Inr (PInt 0)" "column_names rows \<noteq> []"
    and "db_upsert_many w str_bytes tb rows t conflict None Atomic strategy batch_size timeout tr st = (Inr res, tr', st')"
  shows "xr_row_count res = PInt (int (length rows))"
proof -
  obtain stmt where c: "db_bulk_write w (tb_column tb) str_bytes t
      (upsert_call tb stmt rows t conflict None Atomic strategy batch_size timeout) tr st = (Inr res, tr', st')"
    using assms(3) by (auto simp: db_upsert_many_def split: sum.splits)
  let ?c = "upsert_call tb stmt rows t conflict None Atomic strategy batch_size timeout"
  have m: "bc_mode ?c = Atomic" "bc_rows ?c = rows" by (simp_all add: upsert_call_def insert_call_def)
  have "bc_rows ?c \<noteq> []" using assms(2) by (auto simp: m column_names_def)
  then obtain n tr1 where r: "rows_op w (tb_column tb) str_bytes t ?c (tr @ [DClock]) st = (Inr n, tr1, st')"
      "xr_row_count res = PInt n"
    using db_bulk_write_rows [OF c] by metis
  obtain pg plan t1 t2 b where "atomic_batches (wd_env w) plan
      (real_or (bc_timeout ?c) (d_transaction_timeout_seconds (defaults (fd_config (snd st))))) pg
      (bulk_context ?c) (iter_batches (bc_rows ?c) b) 0 t1 = (Inr n, t2)"
    using rows_op_atomic [OF m(1) _ r(1)] assms(2) unfolding m by metis
  from atomic_batches_zero [OF assms(1) this] r(2) show ?thesis by (simp add: m batches_concat)
qed

subsection \<open>COPY\<close>

lemma copy_rows_written:
  "copy_rows w rs k tr = (Inr n, tr') \<Longrightarrow> n = k + int (length rs) \<and> written v tr' = written v tr @ map (DCall ''copy.write_row'') rs"
proof (induction rs arbitrary: k tr)
  case (Cons r rs)
  have "copy_rows w rs (k + 1) (tr @ [DCall ''copy.write_row'' r]) = (Inr n, tr')"
    using Cons.prems by (simp add: io_then_def io_bind_def perform_def split: sum.splits)
  from Cons.IH [OF this] show ?case by (simp add: written_def)
qed (simp add: io_return_def)

lemma copy_body_written:
  assumes "copy_body w table columns records db tr = (Inr n, tr')"
  shows "n = int (length records) \<and> written v tr' = written v tr @ map (DCall ''copy.write_row'') records"
proof -
  let ?tr = "tr @ [DDriverConn ''pipeline'', DCall ''copy.enter'' (PStr (copy_sql table columns))]"
  have "on_raise (copy_rows w records 0)
      (\<lambda>n. io_then (perform w (DCall ''copy.exit'' PNone)) (io_return n))
      (\<lambda>e. io_then (perform w (DCall ''copy.abort'' PNone)) (io_raise e)) ?tr = (Inr n, tr')"
    using assms
    by (auto simp: copy_body_def copy_from_records_def except_exception_def try_except_def io_then_def io_bind_def perform_def
        io_raise_def io_of_def raise_db_def split: prod.splits sum.splits if_splits)
  then obtain tr1 where r: "copy_rows w records 0 ?tr = (Inr n, tr1)" "tr' = tr1 @ [DCall ''copy.exit'' PNone]"
    by (cases "copy_rows w records 0 ?tr")
      (auto simp: on_raise_def io_then_def io_bind_def perform_def io_return_def io_raise_def split: sum.splits)
  from copy_rows_written [OF r(1), of v] r(2) show ?thesis by (simp add: written_def)
qed

text \<open>C30. A \<^verbatim>\<open>copy_records\<close> that returns has written every record once, in order, and then one COMMIT was
  acknowledged; the result counts the records.\<close>

theorem copy_records_complete:
  assumes "db_copy_records w table columns records t timeout tr st = (Inr res, tr', st')"
  shows "written (wd_env w) tr' = written (wd_env w) tr @ map (DCall ''copy.write_row'') records @ [DTransCommit]
    \<and> xr_row_count res = PInt (int (length records)) \<and> xr_query_name res = table @ ''.copy''
    \<and> xr_database_name res = tg_database t"
proof -
  let ?wr = "written (wd_env w)"
  let ?body = "\<lambda>cs :: conn_scope. copy_body (wd_env w) table columns records (tg_database t)"
  obtain entry slots r f ex limit n tr1 st1 where
    op: "as_row_count (op_bind
        (op_acquire (wd_env w) slots ''database'' (op_acquire (wd_env w) slots ''bulk''
          (db_transaction w t (write_options limit) ?body)))
        (\<lambda>written. lift_io (io_then (emit (MIncr ''db_bulk_rows_total'' (of_int written) (bulk_labels w entry (table @ ''.copy''))))
          (io_return written)))) (tr @ [DClock]) (r, f\<lparr>fd_executor := ex\<rparr>) = (Inr n, tr1, st1)" (is "as_row_count ?op _ _ = _")
    and res: "tr' = tr1 @ [DClock]" "xr_row_count res = n" "xr_query_name res = table @ ''.copy''" "xr_database_name res = tg_database t"
    using assms
    by (fastforce simp: db_copy_records_def timed_result_def new_execution_result_def raise_db_def split: prod.splits sum.splits if_splits)
  obtain k tr2 where k: "?op (tr @ [DClock]) (r, f\<lparr>fd_executor := ex\<rparr>) = (Inr k, tr2, st1)" "n = PInt k" "tr1 = tr2"
    using op unfolding as_row_count_def by (rule op_bind_ok) (auto simp: lift_io_def io_return_def)
  obtain j tr3 st3 where a: "op_acquire (wd_env w) slots ''database'' (op_acquire (wd_env w) slots ''bulk''
      (db_transaction w t (write_options limit) ?body)) (tr @ [DClock]) (r, f\<lparr>fd_executor := ex\<rparr>) = (Inr j, tr3, st3)"
    "j = k" "?wr tr2 = ?wr tr3"
    using k(1) by (rule op_bind_ok) (auto simp: lift_io_def run_emit io_return_def written_other)
  obtain tr4 tr5 where b: "?wr tr4 = ?wr (tr @ [DClock])"
      "op_acquire (wd_env w) slots ''bulk'' (db_transaction w t (write_options limit) ?body) tr4 (r, f\<lparr>fd_executor := ex\<rparr>) = (Inr j, tr5, st3)"
      "?wr tr3 = ?wr tr5"
    by (rule op_acquire_ok [where obs = ?wr, OF a(1) written_other(1,2)]) blast
  obtain tr6 tr7 where d: "?wr tr6 = ?wr tr4" "db_transaction w t (write_options limit) ?body tr6 (r, f\<lparr>fd_executor := ex\<rparr>) = (Inr j, tr7, st3)"
      "?wr tr5 = ?wr tr7"
    by (rule op_acquire_ok [where obs = ?wr, OF b(2) written_other(1,2)]) blast
  obtain cs t1 t2 where e: "?wr t1 = ?wr tr6" "?body cs t1 = (Inr j, t2)" "?wr tr7 = ?wr t2 @ [DTransCommit]"
    by (rule db_transaction_ok [OF d(2)]) blast
  from copy_body_written [OF e(2), of "wd_env w"] res k a b d e show ?thesis by (simp add: written_other)
qed

subsection \<open>Batches on their own, over a target that stays served\<close>

text \<open>A program over the facade's state that does on the trace what a program of \<open>Bulk\<close> does, from every state of
  \<open>P\<close> and back into \<open>P\<close>.\<close>

definition simulates :: "(('r, 's) fstate \<Rightarrow> bool) \<Rightarrow> ('r, 's, 'a) facade_op \<Rightarrow> 'a io \<Rightarrow> bool" where
  "simulates P m n \<longleftrightarrow> (\<forall>tr st. P st \<longrightarrow> (\<exists>st'. m tr st = (fst (n tr), snd (n tr), st') \<and> P st'))"

named_theorems sim_intros \<open>programs that simulate each other\<close>

lemma sim_lift [sim_intros]: "simulates P (lift_io n) n"
  by (simp add: simulates_def lift_io_def case_prod_beta)

lemma sim_bind [sim_intros]:
  assumes "simulates P m n" "\<And>x. simulates P (f x) (g x)"
  shows "simulates P (op_bind m f) (io_bind n g)"
  unfolding simulates_def
proof (intro allI impI)
  fix tr st assume P: "P st"
  obtain st1 where m: "m tr st = (fst (n tr), snd (n tr), st1)" "P st1" using assms(1) P unfolding simulates_def by blast
  obtain r t1 where n: "n tr = (r, t1)" by (cases "n tr")
  show "\<exists>st'. op_bind m f tr st = (fst (io_bind n g tr), snd (io_bind n g tr), st') \<and> P st'"
  proof (cases r)
    case (Inl e)
    with m n show ?thesis by (simp add: op_bind_def io_bind_def)
  next
    case (Inr x)
    obtain st2 where "f x t1 st1 = (fst (g x t1), snd (g x t1), st2)" "P st2"
      using assms(2) m(2) unfolding simulates_def by blast
    with m n Inr show ?thesis by (simp add: op_bind_def io_bind_def)
  qed
qed

lemma sim_except [sim_intros]:
  assumes "simulates P m n" "\<And>e. simulates P (h e) (k e)"
  shows "simulates P (op_except m h) (except_exception n k)"
  unfolding simulates_def
proof (intro allI impI)
  fix tr st assume P: "P st"
  obtain st1 where m: "m tr st = (fst (n tr), snd (n tr), st1)" "P st1" using assms(1) P unfolding simulates_def by blast
  obtain r t1 where n: "n tr = (r, t1)" by (cases "n tr")
  show "\<exists>st'. op_except m h tr st = (fst (except_exception n k tr), snd (except_exception n k tr), st') \<and> P st'"
  proof (cases r)
    case (Inl e)
    obtain st2 where "h e t1 st1 = (fst (k e t1), snd (k e t1), st2)" "P st2"
      using assms(2) m(2) unfolding simulates_def by blast
    with m n Inl show ?thesis
      by (cases st1; cases st2) (simp add: op_except_def except_exception_def try_except_def io_raise_def)
  next
    case (Inr x)
    with m n show ?thesis by (simp add: op_except_def except_exception_def try_except_def)
  qed
qed

lemma sim_each [sim_intros]: "(\<And>x. simulates P (f x) (g x)) \<Longrightarrow> simulates P (op_each f xs) (io_each g xs)"
  by (induction xs) (auto simp: io_then_def intro!: sim_intros)

text \<open>What a batch relies on of the facade: as long as \<open>P\<close> holds, its target is served, with one scope.\<close>

locale served_target =
  fixes w :: "('r, 's) world" and t :: target and cfg :: dbkit_config and sc :: scope_info
    and P :: "('r, 's) fstate \<Rightarrow> bool"
  assumes served: "P st \<Longrightarrow> \<exists>entry st1. lookup_entry w t clk st = (Inr entry, st1) \<and> P st1 \<and> fd_config (snd st1) = cfg
      \<and> scope_info_of (wd_env w) cfg entry ''adhoc'' ''read'' = sc"
begin

lemma scope_simulates:
  assumes "be_write_scope be = sc" "be_config be = cfg"
  shows "simulates P (facade_scope w t (AStatement (BareStr q)) op (Some timeout) None) (timed_scope (wd_env w) (write_call be timeout) op)"
  unfolding simulates_def
proof (intro allI impI)
  fix tr st assume "P st"
  then obtain entry r f where l: "lookup_entry w t (env_clock (wd_env w) tr) st = (Inr entry, (r, f))" "P (r, f)" "fd_config f = cfg"
    "scope_info_of (wd_env w) cfg entry ''adhoc'' ''read'' = sc"
    using served [of st "env_clock (wd_env w) tr"] by auto
  have "timed_scope (wd_env w) \<lparr>ci_scope = sc, ci_query = None, ci_limiter = [], ci_config = cfg, ci_commit = True,
      ci_timeout = Some timeout, ci_deadline = None\<rparr> op = timed_scope (wd_env w) (write_call be timeout) op"
    using assms by (simp add: timed_scope_def write_call_def)
  with l show "\<exists>st'. facade_scope w t (AStatement (BareStr q)) op (Some timeout) None tr st
      = (fst (timed_scope (wd_env w) (write_call be timeout) op tr), snd (timed_scope (wd_env w) (write_call be timeout) op tr), st') \<and> P st'"
    by (simp add: facade_scope_def query_meta_def case_prod_beta)
qed

lemma own_batch_simulates:
  assumes be: "be_write_scope be = sc" "be_config be = cfg" "be_database be = tg_database t"
  shows "simulates P (own_batch w t (be_is_postgres be) plan mode timeout q b) (best_effort_batch (wd_env w) be plan mode timeout q b)"
  unfolding own_batch_def best_effort_batch_def batch_op_def row_op_def batch_attempt_def row_attempt_def be(3)
  by (auto intro!: sim_intros scope_simulates be)

end

text \<open>A write target without a shard key stays served while its engine is in the registry.\<close>

definition live_route :: "target \<Rightarrow> dbkit_config \<Rightarrow> engine_key \<Rightarrow> target_config \<Rightarrow> ('r, 's) fstate \<Rightarrow> bool" where
  "live_route t cfg key tgt st \<longleftrightarrow> tg_role t = RoleWrite \<and> tg_shard_key t = None \<and> fd_config (snd st) = cfg
     \<and> target_for cfg (primary_route (tg_database t) ''default'') = Inr tgt
     \<and> key_for cfg (primary_route (tg_database t) ''default'') tgt = Inr key
     \<and> (\<exists>e. dict_get (rg_entries (fd_registry (snd st))) (key_text key) = Some e \<and> ee_key e = key \<and> ee_target e = tgt)"

definition entry_scope :: "env \<Rightarrow> dbkit_config \<Rightarrow> engine_key \<Rightarrow> target_config \<Rightarrow> scope_info" where
  "entry_scope w cfg key tgt =
     scope_info_of w cfg \<lparr>ee_key = key, ee_engine = 0, ee_target = tgt, ee_labels = [], ee_last_used = 0\<rparr> ''adhoc'' ''read''"

lemma live_route_served:
  assumes "live_route t cfg key tgt st"
  shows "\<exists>entry st1. lookup_entry w t clk st = (Inr entry, st1) \<and> live_route t cfg key tgt st1 \<and> fd_config (snd st1) = cfg
    \<and> scope_info_of (wd_env w) cfg entry ''adhoc'' ''read'' = entry_scope (wd_env w) cfg key tgt"
proof -
  obtain r f where st: "st = (r, f)" by (cases st)
  obtain e where e: "dict_get (rg_entries (fd_registry f)) (key_text key) = Some e" "ee_key e = key" "ee_target e = tgt"
    using assms by (auto simp: live_route_def st)
  have t: "tg_role t = RoleWrite" "tg_shard_key t = None" "fd_config f = cfg"
    "target_for cfg (primary_route (tg_database t) ''default'') = Inr tgt"
    "key_for cfg (primary_route (tg_database t) ''default'') tgt = Inr key"
    using assms by (simp_all add: live_route_def st)
  obtain d where "dict_get (databases cfg) (tg_database t) = Some d"
    using t(4) by (auto simp: target_for_def primary_route_def raise_db_def split: option.splits)
  then have "lookup_entry w t clk st = (Inr (e\<lparr>ee_last_used := clk\<rparr>), (r, f\<lparr>fd_registry := touch (key_text key) clk (fd_registry f)\<rparr>))"
    using t e(1) by (simp add: lookup_entry_def resolve_def resolve_shard_def wants_replica_def registry_get_engine_def st fd_config_def)
  moreover have "live_route t cfg key tgt (r, f\<lparr>fd_registry := touch (key_text key) clk (fd_registry f)\<rparr>)"
    using t e by (simp add: live_route_def touch_def fd_config_def dict_get_set)
  ultimately show ?thesis using t(3) e by (simp add: entry_scope_def scope_info_of_def touch_def fd_config_def)
qed

interpretation live: served_target w t cfg "entry_scope (wd_env w) cfg key tgt" "live_route t cfg key tgt" for w t cfg key tgt
  by unfold_locales (rule live_route_served)

text \<open>C15. While the engine of its write target is there, a best-effort or split write of the facade does, call for call,
  what the loop of \<open>Bulk\<close> does with that engine's scope, and returns its count; afterwards the engine is still
  there. What \<open>Bulk\<close> shows of that loop so holds of the facade.\<close>

theorem best_effort_refines:
  assumes "t = \<lparr>tg_database = ek_database (ee_key entry), tg_role = RoleWrite, tg_shard_key = None\<rparr>" "live_route t cfg key tgt st"
    and "be_write_scope be = entry_scope (wd_env w) cfg key tgt" "be_config be = cfg" "be_database be = ek_database (ee_key entry)"
    and "be_is_postgres be = is_postgres (ee_target entry)" "ek_database (ee_key entry) \<noteq> []"
  shows "case best_effort_op w entry plan batches mode timeout q tr st of (x, tr', st') \<Rightarrow>
     (x, tr') = bulk_best_effort (wd_env w) be plan batches mode timeout q tr \<and> live_route t cfg key tgt st'"
proof -
  have be: "be_database be = tg_database t" using assms(1,5) by simp
  have "simulates (live_route t cfg key tgt) (op_each (own_batch w t (be_is_postgres be) plan mode timeout q) batches)
      (io_each (best_effort_batch (wd_env w) be plan mode timeout q) batches)"
    by (intro sim_each live.own_batch_simulates assms(3,4) be)
  then obtain st' where s: "live_route t cfg key tgt st'"
    "op_each (own_batch w t (is_postgres (ee_target entry)) plan mode timeout q) batches tr st
      = (fst (io_each (best_effort_batch (wd_env w) be plan mode timeout q) batches tr),
         snd (io_each (best_effort_batch (wd_env w) be plan mode timeout q) batches tr), st')"
    using assms(2) unfolding simulates_def assms(6) by blast
  have "new_target (ek_database (ee_key entry)) RoleWrite None = Inr t" using assms(1,7) by (simp add: new_target_def)
  with s show ?thesis
    by (cases "io_each (best_effort_batch (wd_env w) be plan mode timeout q) batches tr")
      (auto simp: best_effort_op_def bulk_best_effort_def counted_def split: sum.splits)
qed

subsection \<open>Best effort and shards\<close>

lemma for_batch_exception: "for_batch plan b = Inl e \<Longrightarrow> is_exception e"
  by (auto simp: for_batch_def columnar_params_def sum_bind_Inl_iff row_value_def is_exception_def isinstance_def plain_exn_def
      dest!: map_sum_fails split: option.splits)

definition refuses :: "('r, 's) world \<Rightarrow> target \<Rightarrow> ('r, 's) fstate \<Rightarrow> bool" where
  "refuses w t st \<longleftrightarrow> (\<exists>e. is_exception e \<and> (\<forall>clk. lookup_entry w t clk st = (Inl e, st)))"

lemma refused_ops:
  assumes "refuses w t st"
  shows "\<exists>e. is_exception e \<and> batch_op w t pg plan timeout q b tr st = (Inl e, tr, st)"
    and "\<exists>e. is_exception e \<and> row_op w t pg plan timeout q r tr st = (Inl e, tr, st)"
proof -
  obtain e where e: "is_exception e" "\<And>clk. lookup_entry w t clk st = (Inl e, st)" using assms unfolding refuses_def by blast
  show "\<exists>e. is_exception e \<and> batch_op w t pg plan timeout q b tr st = (Inl e, tr, st)"
    using e for_batch_exception [of plan b]
    by (cases "for_batch plan b") (auto simp: batch_op_def op_bind_def lift_io_def io_of_def facade_scope_def)
  show "\<exists>e. is_exception e \<and> row_op w t pg plan timeout q r tr st = (Inl e, tr, st)"
    using e for_batch_exception [of plan "[r]"]
    by (cases "for_batch plan [r]") (auto simp: row_op_def op_bind_def lift_io_def io_of_def facade_scope_def)
qed

text \<open>How far a trace has dropped rows without touching a connection or counting a row.\<close>

definition drops :: "effect list \<Rightarrow> effect list \<Rightarrow> nat \<Rightarrow> bool" where
  "drops tr tr' n \<longleftrightarrow> life tr' = life tr \<and> count_of tr' = count_of tr \<and> dropped_of tr' = dropped_of tr + int n"

lemma drops_trans: "drops tr tr1 m \<Longrightarrow> drops tr1 tr2 n \<Longrightarrow> drops tr tr2 (m + n)"
  by (simp add: drops_def)

lemma dropped_drops: "\<exists>tr'. lift_io (dropped db q n) tr st = (Inr (), tr', st) \<and> drops tr tr' n"
  by (simp add: lift_io_def dropped_def io_then_def io_bind_def emit_def drops_def)

lemma each_drops:
  assumes "\<And>x tr. x \<in> set xs \<Longrightarrow> \<exists>tr'. f x tr st = (Inr (), tr', st) \<and> drops tr tr' (n x)"
  shows "\<exists>tr'. op_each f xs tr st = (Inr (), tr', st) \<and> drops tr tr' (sum_list (map n xs))"
  using assms
proof (induction xs arbitrary: tr)
  case Nil
  then show ?case by (simp add: lift_io_def io_return_def drops_def)
next
  case (Cons x xs)
  obtain tr1 where "f x tr st = (Inr (), tr1, st)" "drops tr tr1 (n x)" using Cons.prems by fastforce
  moreover obtain tr2 where "op_each f xs tr1 st = (Inr (), tr2, st)" "drops tr1 tr2 (sum_list (map n xs))"
    using Cons.IH [of tr1] Cons.prems by auto
  ultimately show ?case by (auto simp: op_bind_def intro: drops_trans)
qed

lemma own_batch_drops:
  assumes "refuses w t st"
  shows "\<exists>tr'. own_batch w t pg plan mode timeout q b tr st = (Inr (), tr', st) \<and> drops tr tr' (length b)"
proof -
  obtain e where e: "is_exception e" "batch_op w t pg plan timeout q b tr st = (Inl e, tr, st)"
    using refused_ops(1) [OF assms] by blast
  have one: "\<exists>tr'. op_except (row_op w t pg plan timeout q r) (\<lambda>_. lift_io (dropped (tg_database t) q 1)) tr st = (Inr (), tr', st)
      \<and> drops tr tr' 1" for r tr
  proof -
    obtain e' where "is_exception e'" "row_op w t pg plan timeout q r tr st = (Inl e', tr, st)"
      using refused_ops(2) [OF assms] by blast
    then show ?thesis using dropped_drops by (simp add: op_except_def)
  qed
  have "\<exists>tr'. op_each (\<lambda>r. op_except (row_op w t pg plan timeout q r) (\<lambda>_. lift_io (dropped (tg_database t) q 1))) b tr st
      = (Inr (), tr', st) \<and> drops tr tr' (length b)"
    using each_drops [of b "\<lambda>r. op_except (row_op w t pg plan timeout q r) (\<lambda>_. lift_io (dropped (tg_database t) q 1))" st "\<lambda>_. 1", OF one]
    by (simp add: sum_list_triv)
  with e show ?thesis using dropped_drops [of "tg_database t" q "length b" tr st] by (simp add: own_batch_def op_except_def)
qed

lemma best_effort_drops:
  assumes "refuses w \<lparr>tg_database = ek_database (ee_key entry), tg_role = RoleWrite, tg_shard_key = None\<rparr> st"
    and "best_effort_op w entry plan batches mode timeout q tr st = (Inr n, tr', st')"
  shows "n = 0 \<and> st' = st \<and> drops tr tr' (length (concat batches))"
proof -
  let ?t = "\<lparr>tg_database = ek_database (ee_key entry), tg_role = RoleWrite, tg_shard_key = None\<rparr>"
  let ?f = "own_batch w ?t (is_postgres (ee_target entry)) plan mode timeout q"
  obtain tr1 where tr1: "op_each ?f batches tr st = (Inr (), tr1, st)" "drops tr tr1 (sum_list (map length batches))"
    using each_drops [of batches ?f st length, OF own_batch_drops [OF assms(1)]] by blast
  have "new_target (ek_database (ee_key entry)) RoleWrite None = Inr ?t"
    using assms(2) by (auto simp: best_effort_op_def new_target_def raise_db_def split: if_splits)
  with tr1 assms(2) show ?thesis by (auto simp: best_effort_op_def drops_def length_concat)
qed

lemma drops_simps [simp]:
  "drops (tr @ [MObserve m v ls]) tr' n = drops tr tr' n" "drops (tr @ [DAcquire tier s]) tr' n = drops tr tr' n"
  "drops (tr @ [DClock]) tr' n = drops tr tr' n"
  "drops tr (tr' @ [DRelease tier]) n = drops tr tr' n" "drops tr (tr' @ [MIncr m v ls]) n = drops tr tr' n"
  "drops tr (tr' @ [DClock]) n = drops tr tr' n"
  by (simp_all add: drops_def)

lemma op_acquire_inner:
  assumes "op_acquire w sems tier body tr st = (Inr x, tr', st')"
  obtains tr0 tr1 where "body tr0 st = (Inr x, tr1, st')" "\<And>n. drops tr tr' n = drops tr0 tr1 n"
proof (cases "dict_get sems tier")
  case None
  with assms that show ?thesis by (simp add: op_acquire_def)
next
  case (Some m)
  let ?tr = "tr @ [DAcquire tier None]"
  obtain y tr1 st1 where b: "body ?tr st = (y, tr1, st1)" by (cases "body ?tr st") auto
  have "y = Inr x \<and> st1 = st' \<and> tr' = tr1 @ [DRelease tier]"
    using assms Some b
    by (auto simp: op_acquire_def op_bind_def lift_io_def semaphore_slots io_of_def raise_db_def split: sum.splits if_splits)
  with b that [of ?tr tr1] show ?thesis by simp
qed

text \<open>A registry that is full and does not evict refuses the engine of a route it does not have, and stays as it is.\<close>

lemma full_registry_refuses:
  assumes "target_for (fd_config f) (primary_route db ''default'') = Inr tgt"
    and "key_for (fd_config f) (primary_route db ''default'') tgt = Inr key"
    and "dict_get (rg_entries (fd_registry f)) (key_text key) = None"
    and "rg_max_engines (fd_registry f) = Some cap" "cap \<le> int (engine_count (fd_registry f))" "\<not> rg_evict_lru (fd_registry f)"
  shows "refuses w \<lparr>tg_database = db, tg_role = RoleWrite, tg_shard_key = None\<rparr> (r, f)"
proof -
  obtain d where "dict_get (databases (fd_config f)) db = Some d"
    using assms(1) by (auto simp: target_for_def primary_route_def raise_db_def split: option.splits)
  then have "\<exists>e. \<forall>clk. lookup_entry w \<lparr>tg_database = db, tg_role = RoleWrite, tg_shard_key = None\<rparr> clk (r, f) = (Inl (DbErr e), (r, f))"
    using assms [unfolded fd_config_def]
    by (simp add: lookup_entry_def resolve_def resolve_shard_def wants_replica_def registry_get_engine_def insert_engine_def
        engine_count_def fd_config_def raise_db_def)
  then show ?thesis unfolding refuses_def by (auto simp: is_exception_def)
qed


subsection \<open>Witnesses\<close>

text \<open>A driver that answers everything alike.\<close>

definition const_env :: "pyval \<Rightarrow> env" where
  "const_env v = \<lparr>env_answer = (\<lambda>_ _. Inr v), env_clock = (\<lambda>_. 0), env_async = True\<rparr>"

lemma const_env_simps [simp]: "env_answer (const_env v) tr e = Inr v" "all_ok (const_env v)" "uninterrupted (const_env v)"
  by (simp_all add: const_env_def all_ok_def uninterrupted_def)

definition const_world :: "pyval \<Rightarrow> (unit, round_robin) world" where
  "const_world v = sample_world\<lparr>wd_env := const_env v\<rparr>"

definition app_write :: target where
  "app_write = \<lparr>tg_database = ''app'', tg_role = RoleWrite, tg_shard_key = None\<rparr>"

lemma succeeds_on_raise: "succeeds m \<Longrightarrow> (\<And>x. succeeds (k x)) \<Longrightarrow> succeeds (on_raise m k h)"
  unfolding succeeds_def on_raise_def by (metis (no_types, lifting) fst_conv old.sum.simps(6) prod.collapse prod.simps(2))

lemma transaction_succeeds:
  assumes "all_ok w" "uninterrupted w" "\<And>cs. succeeds (body cs)"
  shows "succeeds (with_transaction w m body)"
  unfolding succeeds_def
proof
  fix tr
  have "succeeds (tx_enter w m)"
    using assms(1) unfolding tx_enter_def tx_apply_settings_def
    by (auto intro!: succeeds_on_raise succeeds_basic succeeds_then split: option.split)
  then obtain st t1 where "tx_enter w m tr = (Inr st, t1)" unfolding succeeds_def by (metis prod.collapse)
  from with_transaction_returns [OF assms(1,2) this] assms(3) show "\<exists>x. fst (with_transaction w m body tr) = Inr x" by blast
qed

lemma app_driver: "driver (sample_target ''postgresql://h/db''\<lparr>t_pool := None\<rparr>) = Inr ''postgresql''"
  by code_simp

lemma app_lookup:
  assumes "dict_get (databases (rg_config (fd_registry f))) ''app'' = dict_get (databases (sample_config None)) ''app''"
    and "rg_max_engines (fd_registry f) = None"
  shows "\<exists>entry. fst (lookup_entry (const_world v) app_write clk ((), f)) = Inr entry"
  using assms
  by (simp add: lookup_entry_def const_world_def sample_world_def fd_config_def resolve_def resolve_shard_def wants_replica_def
      app_write_def sample_config_def primary_route_def registry_get_engine_def target_for_def key_for_def
      insert_engine_def build_engine_def Let_def app_driver split: option.split)

text \<open>The first lookup of a fresh facade, with the limiter: there are no limits.\<close>

lemma app_bulk_lookup:
  "\<exists>entry f. bulk_lookup (const_world v) app_write clk ((), sample_facade 1) = (Inr (entry, []), ((), f))
     \<and> is_postgres (ee_target entry)
     \<and> dict_get (databases (rg_config (fd_registry f))) ''app'' = dict_get (databases (sample_config None)) ''app''
     \<and> rg_max_engines (fd_registry f) = None"
proof -
  have pg: "is_postgres (sample_target ''postgresql://h/db''\<lparr>t_pool := None\<rparr>)" by code_simp
  show ?thesis
    by (simp add: bulk_lookup_def lookup_entry_def const_world_def sample_world_def sample_facade_def new_facade_def
        new_registry_def fd_config_def resolve_def resolve_shard_def wants_replica_def app_write_def sample_config_def
        primary_route_def registry_get_engine_def target_for_def key_for_def insert_engine_def build_engine_def Let_def app_driver
        limiter_for_def limits_of_def new_limiter_def pg)
qed

lemma app_transaction:
  assumes "dict_get (databases (rg_config (fd_registry f))) ''app'' = dict_get (databases (sample_config None)) ''app''"
    and "rg_max_engines (fd_registry f) = None" "\<And>cs. succeeds (body cs)"
  shows "\<exists>x tr' st'. db_transaction (const_world v) app_write opts body tr ((), f) = (Inr x, tr', st')"
proof -
  obtain entry r f1 where l: "lookup_entry (const_world v) app_write (env_clock (const_env v) tr) ((), f) = (Inr entry, (r, f1))"
    using app_lookup [OF assms(1,2), of v "env_clock (const_env v) tr"] by (metis prod.collapse)
  have "succeeds (with_transaction (const_env v) (manager_of (const_env v) (fd_config f1) entry opts) body)"
    by (rule transaction_succeeds) (simp_all add: assms(3))
  then obtain x tr' where "with_transaction (const_env v) (manager_of (const_env v) (fd_config f1) entry opts) body tr = (Inr x, tr')"
    unfolding succeeds_def by (metis prod.collapse)
  with l show ?thesis by (simp add: db_transaction_def const_world_def)
qed

definition sample_table :: sql_table where
  "sample_table = \<lparr>tb_name = ''t'', tb_column = (\<lambda>_. None), tb_insert = TextClause ''INSERT INTO t VALUES (:a)'',
     tb_upsert = (\<lambda>_ _. Inr (TextClause ''INSERT INTO t VALUES (:a) ON CONFLICT (a) DO NOTHING''))\<rparr>"

lemma app_atomic_returns:
  assumes "bc_mode c = Atomic" "bc_strategy c = ExecuteMany"
  shows "\<exists>res tr' st'. db_bulk_write (const_world v) ct sb app_write c [] ((), sample_facade 1) = (Inr res, tr', st')"
proof (cases "bc_rows c = []")
  case True
  then show ?thesis by (simp add: db_bulk_write_def)
next
  case False
  obtain entry f where l: "bulk_lookup (const_world v) app_write (env_clock (const_env v) [DClock]) ((), sample_facade 1) = (Inr (entry, []), ((), f))"
    "is_postgres (ee_target entry)"
    and f: "dict_get (databases (rg_config (fd_registry f))) ''app'' = dict_get (databases (sample_config None)) ''app''"
      "rg_max_engines (fd_registry f) = None"
    using app_bulk_lookup by blast
  let ?plan = "\<lparr>bp_statement = bc_statement c, bp_columns = None\<rparr>"
  have plan: "plan_of ct pg c = Inr ?plan" for pg using assms(2) by (simp add: plan_of_def)
  have w: "wd_env (const_world v) = const_env v" by (simp add: const_world_def)
  have "succeeds (atomic_batches (const_env v) ?plan t pg ctx bs k)" for t pg ctx bs k by (rule succeeds_atomic) simp_all
  then have tx: "\<exists>x tr' st'. db_transaction (const_world v) app_write opts
      (\<lambda>cs. atomic_batches (const_env v) ?plan t pg ctx bs k) tr ((), f) = (Inr x, tr', st')" for opts t pg ctx bs k tr
    by (intro app_transaction [OF f])
  show ?thesis
    using tx [of "write_options (real_or (bc_timeout c) (d_transaction_timeout_seconds (defaults (fd_config f))))"
        "real_or (bc_timeout c) (d_transaction_timeout_seconds (defaults (fd_config f)))" True "bulk_context c"
        "iter_batches (bc_rows c) (batch_rows_of sb (d_bulk (defaults (fd_config f))) c)" 0
        "[DClock, MObserve ''db_bulk_batch_size'' (of_int (batch_rows_of sb (d_bulk (defaults (fd_config f))) c)) (bulk_labels (const_world v) entry (bc_query_name c))]"]
      False l assms(1)
    by (auto simp: db_bulk_write_def timed_result_def as_row_count_def rows_op_def w plan Let_def op_acquire_def op_bind_def
        lift_io_def run_emit io_return_def)
qed

lemma insert_many_complete_witness:
  "\<exists>ps tr'. map_sum (for_batch \<lparr>bp_statement = tb_insert sample_table, bp_columns = None\<rparr>)
      (iter_batches [[(''a'', PInt 1)], [(''a'', PInt 2)]]
        (batch_rows_of (\<lambda>_. 1) (d_bulk (defaults (fd_config (snd ((), sample_facade 1)))))
          (insert_call sample_table [[(''a'', PInt 1)], [(''a'', PInt 2)]] app_write Atomic ExecuteMany (Some 1) None))) = Inr ps
     \<and> written (const_env PNone) tr' = map batch_effect ps @ [DTransCommit]"
proof -
  let ?rows = "[[(''a'', PInt 1)], [(''a'', PInt 2)]]"
  obtain res tr' st' where
    "db_insert_many (const_world PNone) (\<lambda>_. 1) sample_table ?rows app_write Atomic ExecuteMany (Some 1) None [] ((), sample_facade 1)
       = (Inr res, tr', st')"
    using app_atomic_returns [of "insert_call sample_table ?rows app_write Atomic ExecuteMany (Some 1) None" PNone "tb_column sample_table" "\<lambda>_. 1"]
    by (auto simp: insert_call_def db_insert_many_def)
  from insert_many_complete [OF _ this] show ?thesis
    by (auto simp: column_names_def plan_of_def insert_call_def const_world_def written_def)
qed

lemma upsert_counts_skipped_rows_witness:
  "\<exists>res tr' st'. db_upsert_many (const_world (PInt 0)) (\<lambda>_. 1) sample_table [[(''a'', PInt 1)], [(''a'', PInt 2)]] app_write [''a''] None
      Atomic ExecuteMany None None [] ((), sample_facade 1) = (Inr res, tr', st') \<and> xr_row_count res = PInt 2"
proof -
  let ?rows = "[[(''a'', PInt 1)], [(''a'', PInt 2)]]"
  let ?stmt = "TextClause ''INSERT INTO t VALUES (:a) ON CONFLICT (a) DO NOTHING''"
  let ?op = "db_upsert_many (const_world (PInt 0)) (\<lambda>_. 1) sample_table ?rows app_write [''a''] None Atomic ExecuteMany None None [] ((), sample_facade 1)"
  have "upsert_statement sample_table [''a''] None = Inr ?stmt" by (simp add: upsert_statement_def sample_table_def)
  then obtain res tr' st' where r: "?op = (Inr res, tr', st')"
    using app_atomic_returns [of "upsert_call sample_table ?stmt ?rows app_write [''a''] None Atomic ExecuteMany None None" "PInt 0" "tb_column sample_table" "\<lambda>_. 1"]
    by (auto simp: db_upsert_many_def upsert_call_def insert_call_def)
  from upsert_counts_skipped_rows [OF _ _ r] have "xr_row_count res = PInt 2" by (simp add: const_world_def column_names_def)
  with r show ?thesis by blast
qed

lemma copy_records_complete_witness:
  "\<exists>res tr' st'. db_copy_records (const_world (PBool True)) ''t'' [''a''] [PInt 1, PInt 2] app_write None [] ((), sample_facade 1)
      = (Inr res, tr', st') \<and> xr_row_count res = PInt 2"
proof -
  let ?op = "db_copy_records (const_world (PBool True)) ''t'' [''a''] [PInt 1, PInt 2] app_write None [] ((), sample_facade 1)"
  obtain entry f where l: "bulk_lookup (const_world (PBool True)) app_write (env_clock (const_env (PBool True)) []) ((), sample_facade 1) = (Inr (entry, []), ((), f))"
    "is_postgres (ee_target entry)"
    and f: "dict_get (databases (rg_config (fd_registry f))) ''app'' = dict_get (databases (sample_config None)) ''app''"
      "rg_max_engines (fd_registry f) = None"
    using app_bulk_lookup by blast
  have w: "wd_env (const_world v) = const_env v" for v by (simp add: const_world_def)
  have "succeeds (copy_body (const_env (PBool True)) ''t'' [''a''] [PInt 1, PInt 2] db)" for db
    by (simp add: succeeds_def copy_body_def copy_from_records_def on_raise_def io_defs)
  then have tx: "\<exists>x tr' st'. db_transaction (const_world (PBool True)) app_write opts
      (\<lambda>cs. copy_body (const_env (PBool True)) ''t'' [''a''] [PInt 1, PInt 2] db) tr ((), f) = (Inr x, tr', st')" for opts db tr
    by (intro app_transaction [OF f])
  have "\<exists>res tr' st'. ?op = (Inr res, tr', st')"
    using tx [of "write_options (d_transaction_timeout_seconds (defaults (fd_config f)))" "tg_database app_write" "[DClock]"] l
    by (auto simp: db_copy_records_def bulk_lookup_def timed_result_def as_row_count_def w Let_def op_acquire_def op_bind_def
        lift_io_def run_emit io_return_def real_or_def fd_config_def split: prod.splits sum.splits)
  then obtain res tr' st' where r: "?op = (Inr res, tr', st')" by blast
  from copy_records_complete [OF r] have "xr_row_count res = PInt 2" by simp
  with r show ?thesis by blast
qed

text \<open>A directory of shards, and a registry with room for one engine.\<close>

definition capped_config :: dbkit_config where
  "capped_config = (sample_config None)\<lparr>connection_budget := no_budget, max_engines := Some 1\<rparr>"

definition sharded_world :: "(directory, round_robin) world" where
  "sharded_world = \<lparr>wd_env = const_env PNone, wd_create = (\<lambda>_ _. Inr 1), wd_shards = directory_resolve, wd_select = rr_select,
     wd_clock = real, wd_random = (\<lambda>_. 1), wd_read_your_writes = False\<rparr>"

definition sharded_state :: "(directory, round_robin) fstate" where
  "sharded_state = ([(Some (key_class (KInt 1)), ''s1'')], new_facade capped_config (default_selector capped_config))"

definition shard_write :: target where
  "shard_write = \<lparr>tg_database = ''app'', tg_role = RoleWrite, tg_shard_key = Some (KInt 1)\<rparr>"

definition default_key :: engine_key where
  "default_key = \<lparr>ek_environment = ''development'', ek_database = ''app'', ek_shard_id = ''default'', ek_role = ''primary'',
     ek_driver = ''postgresql''\<rparr>"

lemma sharded_lookup:
  "\<exists>entry r f. bulk_lookup sharded_world shard_write clk sharded_state = (Inr (entry, []), (r, f))
     \<and> ek_database (ee_key entry) = ''app'' \<and> fd_config f = capped_config
     \<and> dict_get (rg_entries (fd_registry f)) (key_text default_key) = None
     \<and> rg_max_engines (fd_registry f) = Some 1 \<and> engine_count (fd_registry f) = 1 \<and> \<not> rg_evict_lru (fd_registry f)"
  by (simp add: bulk_lookup_def lookup_entry_def sharded_world_def sharded_state_def capped_config_def new_facade_def new_registry_def
      fd_config_def resolve_def resolve_shard_def directory_resolve_def wants_replica_def shard_write_def sample_config_def
      primary_route_def registry_get_engine_def target_for_def key_for_def insert_engine_def build_engine_def Let_def app_driver
      limiter_for_def limits_of_def new_limiter_def default_key_def key_text_def engine_count_def)

lemma capped_default_route:
  "target_for capped_config (primary_route ''app'' ''default'') = Inr ((sample_target ''postgresql://h/db'')\<lparr>t_pool := None\<rparr>)"
  "key_for capped_config (primary_route ''app'' ''default'') ((sample_target ''postgresql://h/db'')\<lparr>t_pool := None\<rparr>) = Inr default_key"
  by (simp_all add: target_for_def key_for_def primary_route_def capped_config_def sample_config_def app_driver default_key_def)

lemma best_effort_returns:
  assumes "refuses w \<lparr>tg_database = ek_database (ee_key entry), tg_role = RoleWrite, tg_shard_key = None\<rparr> st"
    and "ek_database (ee_key entry) \<noteq> []"
  shows "\<exists>n tr'. best_effort_op w entry plan batches mode timeout q tr st = (Inr n, tr', st)"
proof -
  let ?f = "own_batch w \<lparr>tg_database = ek_database (ee_key entry), tg_role = RoleWrite, tg_shard_key = None\<rparr>
      (is_postgres (ee_target entry)) plan mode timeout q"
  have "\<exists>tr1. op_each ?f batches tr st = (Inr (), tr1, st)"
    using each_drops [of batches ?f st length, OF own_batch_drops [OF assms(1)]] by blast
  with assms(2) show ?thesis by (auto simp: best_effort_op_def new_target_def)
qed


lemma live_sample_route:
  "\<exists>(entry :: engine_entry) (f :: round_robin facade). ek_database (ee_key entry) = ''app'' \<and> is_postgres (ee_target entry)
     \<and> live_route app_write (fd_config (sample_facade 1)) default_key ((sample_target ''postgresql://h/db'')\<lparr>t_pool := None\<rparr>) ((), f)"
proof -
  obtain y and st1 :: "(unit, round_robin) fstate" where l: "lookup_entry (const_world v) app_write 0 ((), sample_facade 1) = (y, st1)"
    by (cases "lookup_entry (const_world v) app_write 0 ((), sample_facade 1)")
  have pg: "is_postgres (sample_target ''postgresql://h/db''\<lparr>t_pool := None\<rparr>)" by code_simp
  have "\<exists>entry. y = Inr entry \<and> ek_database (ee_key entry) = ''app'' \<and> is_postgres (ee_target entry)
      \<and> live_route app_write (fd_config (sample_facade 1)) default_key ((sample_target ''postgresql://h/db'')\<lparr>t_pool := None\<rparr>) ((), snd st1)"
    using l
    by (auto simp: live_route_def lookup_entry_def const_world_def sample_world_def sample_facade_def new_facade_def
        new_registry_def fd_config_def resolve_def resolve_shard_def wants_replica_def app_write_def sample_config_def
        primary_route_def registry_get_engine_def target_for_def key_for_def insert_engine_def build_engine_def Let_def app_driver
        default_key_def pg dict_get_set)
  then show ?thesis by blast
qed

lemma best_effort_refines_witness:
  "\<exists>entry f be. ek_database (ee_key entry) = ''app''
     \<and> (case best_effort_op (const_world (PInt 1)) entry \<lparr>bp_statement = tb_insert sample_table, bp_columns = None\<rparr>
           [[[(''a'', PInt 1)]], [[(''a'', PInt 2)]]] SplitOnFailure 1 ''t.insert_many'' [] ((), f) of (x, tr', st') \<Rightarrow>
         (x, tr') = bulk_best_effort (const_env (PInt 1)) be \<lparr>bp_statement = tb_insert sample_table, bp_columns = None\<rparr>
           [[[(''a'', PInt 1)]], [[(''a'', PInt 2)]]] SplitOnFailure 1 ''t.insert_many'' [])"
proof -
  let ?cfg = "fd_config (sample_facade 1)"
  let ?tgt = "(sample_target ''postgresql://h/db'')\<lparr>t_pool := None\<rparr>"
  obtain entry :: engine_entry and f :: "round_robin facade" where e: "ek_database (ee_key entry) = ''app''" "is_postgres (ee_target entry)"
    and live: "live_route app_write ?cfg default_key ?tgt ((), f)" using live_sample_route by blast
  define be where "be = \<lparr>be_is_postgres = True, be_database = ''app'', be_labels = [], be_limiter = [], be_config = ?cfg,
     be_tx = sample_tx, be_write_scope = entry_scope (const_env (PInt 1)) ?cfg default_key ?tgt\<rparr>"
  have w: "wd_env (const_world (PInt 1)) = const_env (PInt 1)" by (simp add: const_world_def)
  have "case best_effort_op (const_world (PInt 1)) entry \<lparr>bp_statement = tb_insert sample_table, bp_columns = None\<rparr>
      [[[(''a'', PInt 1)]], [[(''a'', PInt 2)]]] SplitOnFailure 1 ''t.insert_many'' [] ((), f) of (x, tr', st') \<Rightarrow>
     (x, tr') = bulk_best_effort (wd_env (const_world (PInt 1))) be \<lparr>bp_statement = tb_insert sample_table, bp_columns = None\<rparr>
       [[[(''a'', PInt 1)]], [[(''a'', PInt 2)]]] SplitOnFailure 1 ''t.insert_many'' [] \<and> live_route app_write ?cfg default_key ?tgt st'"
    by (rule best_effort_refines [OF _ live]) (simp_all add: e be_def w app_write_def)
  with e(1) show ?thesis by (intro exI [of _ entry] exI [of _ f] exI [of _ be]) (auto simp: w split: prod.splits)
qed

end
