(* ===== verification/Twins.thy ===== *)
theory Twins
  imports Health Streaming
begin

text \<open>
  The synchronous frontend (\<^verbatim>\<open>_sync\<close>), as its files read: \<^verbatim>\<open>_compat.py\<close> has no client-side
  deadline, no cancellation and nothing to shield, so a statement runs under the server's timeout, a rollback and a
  release are plain calls, and every failure to enter a transaction is classified. The operations here are written
  without the asynchronous machinery; the other theories' operations are shown to be these in an environment that is
  not asynchronous, so that what is proved of them for every environment holds of these files. What the two
  frontends share word for word (routing, engines, limiter, breaker, scope) is not written again.
\<close>

definition blocking :: "env \<Rightarrow> env" where
  "blocking w = w\<lparr>env_async := False\<rparr>"

definition blocking_world :: "('r, 's) world \<Rightarrow> ('r, 's) world" where
  "blocking_world w = w\<lparr>wd_env := blocking (wd_env w)\<rparr>"

subsection \<open>Statements\<close>

definition sync_set_timeout :: "env \<Rightarrow> real option \<Rightarrow> bool \<Rightarrow> unit io" where
  "sync_set_timeout w seconds pg =
     (if \<not> pg then io_return ()
      else
        (case apply_statement_timeout_sql seconds of
           None \<Rightarrow> io_return ()
         | Some stmt \<Rightarrow> io_then (perform w (DExecute (TextClause stmt) (PDict []))) (io_return ())))"

definition sync_execute_statement :: "env \<Rightarrow> statement_obj \<Rightarrow> pyval option \<Rightarrow> real option \<Rightarrow> bool \<Rightarrow> pyval io" where
  "sync_execute_statement w statement params timeout pg =
     io_then (sync_set_timeout w timeout pg) (perform w (DExecute statement (params_or_empty params)))"

definition sync_run_fetch :: "env \<Rightarrow> statement_obj \<Rightarrow> pyval option \<Rightarrow> real option \<Rightarrow> bool \<Rightarrow> pyval io" where
  "sync_run_fetch w st ps t pg = io_then (sync_execute_statement w st ps t pg) (perform w (DCursor ''mappings.all''))"

definition sync_run_fetch_one :: "env \<Rightarrow> statement_obj \<Rightarrow> pyval option \<Rightarrow> real option \<Rightarrow> bool \<Rightarrow> pyval io" where
  "sync_run_fetch_one w st ps t pg = io_then (sync_execute_statement w st ps t pg) (perform w (DCursor ''mappings.one''))"

definition sync_run_fetch_optional :: "env \<Rightarrow> statement_obj \<Rightarrow> pyval option \<Rightarrow> real option \<Rightarrow> bool \<Rightarrow> pyval io" where
  "sync_run_fetch_optional w st ps t pg = io_then (sync_execute_statement w st ps t pg) (perform w (DCursor ''mappings.one_or_none''))"

definition sync_run_fetch_value :: "env \<Rightarrow> statement_obj \<Rightarrow> pyval option \<Rightarrow> real option \<Rightarrow> bool \<Rightarrow> pyval io" where
  "sync_run_fetch_value w st ps t pg = io_then (sync_execute_statement w st ps t pg) (perform w (DCursor ''scalar_one''))"

definition sync_run_fetch_values :: "env \<Rightarrow> statement_obj \<Rightarrow> pyval option \<Rightarrow> real option \<Rightarrow> bool \<Rightarrow> pyval io" where
  "sync_run_fetch_values w st ps t pg = io_then (sync_execute_statement w st ps t pg) (perform w (DCursor ''scalars.all''))"

definition sync_run_execute :: "env \<Rightarrow> statement_obj \<Rightarrow> pyval option \<Rightarrow> real option \<Rightarrow> bool \<Rightarrow> pyval io" where
  "sync_run_execute w st ps t pg = sync_execute_statement w st ps t pg"

subsection \<open>The connection scope\<close>

text \<open>The \<^verbatim>\<open>try\<close> block of an operation: the local settings, then the primitive.\<close>

definition sync_guarded ::
  "env \<Rightarrow> conn_scope \<Rightarrow> (env \<Rightarrow> statement_obj \<Rightarrow> pyval option \<Rightarrow> real option \<Rightarrow> bool \<Rightarrow> pyval io)
     \<Rightarrow> (string \<Rightarrow> raised \<Rightarrow> pyval io) \<Rightarrow> query_obj \<Rightarrow> pyval option \<Rightarrow> pyval io" where
  "sync_guarded w cs prim handler query params tr =
     (case scope_resolve cs query of
        Inl e \<Rightarrow> (Inl e, tr)
      | Inr rq \<Rightarrow>
          (case io_then (apply_local_settings w (settings_of (rq_query rq)) (cs_is_postgres cs))
                  (prim w (rq_statement rq) params (rq_timeout rq) (cs_is_postgres cs)) tr of
             (Inl e, tr1) \<Rightarrow> if is_exception e then handler (rq_name rq) e tr1 else (Inl e, tr1)
           | (Inr v, tr1) \<Rightarrow> (Inr v, tr1)))"

definition sync_fetch_all :: "env \<Rightarrow> conn_scope \<Rightarrow> query_obj \<Rightarrow> pyval option \<Rightarrow> map_to \<Rightarrow> pyval list io" where
  "sync_fetch_all w cs query params mt =
     io_bind (sync_guarded w cs sync_run_fetch (classified cs) query params) (\<lambda>rows. io_of (map_rows (rows_of rows) mt))"

definition sync_fetch_one :: "env \<Rightarrow> conn_scope \<Rightarrow> query_obj \<Rightarrow> pyval option \<Rightarrow> map_to \<Rightarrow> pyval io" where
  "sync_fetch_one w cs query params mt =
     io_bind (sync_guarded w cs sync_run_fetch_one
         (\<lambda>name e.
            if raised_isa e CNoResultFound then result_error cs name '' returned no rows, expected exactly one''
            else if raised_isa e CMultipleResultsFound then
              result_error cs name '' returned more than one row, expected exactly one''
            else classified cs name e) query params)
       (\<lambda>row. io_of (sum_bind (build_mapper mt) (\<lambda>mapper. mapper row)))"

definition sync_fetch_optional :: "env \<Rightarrow> conn_scope \<Rightarrow> query_obj \<Rightarrow> pyval option \<Rightarrow> map_to \<Rightarrow> pyval io" where
  "sync_fetch_optional w cs query params mt =
     io_bind (sync_guarded w cs sync_run_fetch_optional
         (\<lambda>name e.
            if raised_isa e CMultipleResultsFound then
              result_error cs name '' returned more than one row, expected at most one''
            else classified cs name e) query params)
       (\<lambda>row. if row = PNone then io_return PNone
              else io_of (sum_bind (build_mapper mt) (\<lambda>mapper. mapper row)))"

definition sync_fetch_value :: "env \<Rightarrow> conn_scope \<Rightarrow> query_obj \<Rightarrow> pyval option \<Rightarrow> pyval io" where
  "sync_fetch_value w cs query params =
     sync_guarded w cs sync_run_fetch_value
       (\<lambda>name e.
          if raised_isa e CNoResultFound then result_error cs name '' returned no rows, expected a single scalar value''
          else if raised_isa e CMultipleResultsFound then
            result_error cs name '' returned more than one row, expected a single scalar value''
          else classified cs name e) query params"

definition sync_fetch_values :: "env \<Rightarrow> conn_scope \<Rightarrow> query_obj \<Rightarrow> pyval option \<Rightarrow> pyval list io" where
  "sync_fetch_values w cs query params =
     io_bind (sync_guarded w cs sync_run_fetch_values (classified cs) query params) (\<lambda>v. io_return (rows_of v))"

definition sync_execute :: "env \<Rightarrow> conn_scope \<Rightarrow> query_obj \<Rightarrow> pyval option \<Rightarrow> pyval io" where
  "sync_execute w cs query params =
     sync_guarded w cs (\<lambda>w st ps t pg. io_then (sync_run_execute w st ps t pg) (perform w (DCursor ''rowcount'')))
       (classified cs) query params"

subsection \<open>Transactions\<close>

definition sync_rollback :: "env \<Rightarrow> unit io" where
  "sync_rollback w =
     except_exception (io_then (perform w DTransRollback) (io_return ())) (\<lambda>_. suppress (perform w DInvalidate))"

definition sync_release :: "env \<Rightarrow> unit io" where
  "sync_release w = suppress (perform w DClose)"

definition sync_cleanup_on_enter_failure :: "env \<Rightarrow> bool \<Rightarrow> bool \<Rightarrow> unit io" where
  "sync_cleanup_on_enter_failure w have_conn have_trans =
     io_then (if have_trans then suppress (perform w DTransRollback) else io_return ())
       (if have_conn then sync_release w else io_return ())"

definition sync_enter_failed :: "env \<Rightarrow> tx_manager \<Rightarrow> bool \<Rightarrow> bool \<Rightarrow> raised \<Rightarrow> 'a io" where
  "sync_enter_failed w m have_conn have_trans exc =
     io_then (sync_cleanup_on_enter_failure w have_conn have_trans) (io_raise (DbErr (classify exc (tx_context m))))"

definition sync_enter :: "env \<Rightarrow> tx_manager \<Rightarrow> real io" where
  "sync_enter w m =
     on_raise (perform w DConnect)
       (\<lambda>_. on_raise
          (if execution_options m = [] then io_return PNone else perform w (DSetOptions (execution_options m)))
          (\<lambda>_. on_raise (perform w DBegin)
             (\<lambda>_. on_raise (tx_apply_settings w m) (\<lambda>_. now w) (sync_enter_failed w m True True))
             (sync_enter_failed w m True False))
          (sync_enter_failed w m True False))
       (sync_enter_failed w m False False)"

definition sync_epilogue :: "env \<Rightarrow> tx_manager \<Rightarrow> real \<Rightarrow> tx_outcome \<Rightarrow> unit io" where
  "sync_epilogue w m started outcome =
     io_bind (now w) (\<lambda>t.
       let duration = t - started in
       io_then (emit (MIncr ''db_transaction_total'' 1 (tm_labels m)))
       (io_then (emit (MObserve ''db_transaction_duration_seconds'' duration (tm_labels m)))
       (io_then
         (if outcome = TxRolledBack then emit (MIncr ''db_transaction_rollback_total'' 1 (tm_labels m))
          else if outcome = TxCommitUnknown then emit (MIncr ''db_commit_unknown_total'' 1 (tm_labels m))
          else io_return ())
       (io_then
         (if duration \<ge> tm_long_transaction_warning m
          then emit (LLongTransaction (duration * 1000) (tx_outcome_value outcome)) else io_return ())
         (sync_release w)))))"

definition sync_exit :: "env \<Rightarrow> tx_manager \<Rightarrow> real \<Rightarrow> raised option \<Rightarrow> unit io" where
  "sync_exit w m started exc tr =
     (case exc of
        Some e \<Rightarrow> try_finally (sync_rollback w) (sync_epilogue w m started TxRolledBack) tr
      | None \<Rightarrow>
          (case tx_commit w m tr of (r, tr1) \<Rightarrow>
             try_finally (io_of r) (sync_epilogue w m started (commit_outcome r)) tr1))"

definition sync_transaction :: "env \<Rightarrow> tx_manager \<Rightarrow> (conn_scope \<Rightarrow> 'a io) \<Rightarrow> 'a io" where
  "sync_transaction w m body tr =
     (case sync_enter w m tr of
        (Inl e, tr1) \<Rightarrow> (Inl e, tr1)
      | (Inr started, tr1) \<Rightarrow>
          (case body (tx_scope m) tr1 of
             (Inr x, tr2) \<Rightarrow> io_then (sync_exit w m started None) (io_return x) tr2
           | (Inl e, tr2) \<Rightarrow> io_then (sync_exit w m started (Some e)) (io_raise e) tr2))"

subsection \<open>Streams and health\<close>

text \<open>The batch size is set on the connection before the statement is sent.\<close>

definition sync_open_cursor :: "env \<Rightarrow> stream_config \<Rightarrow> pyval io" where
  "sync_open_cursor w c =
     io_then (perform w (DCall ''yield_per'' (PInt (sc_batch_size c))))
       (perform w (DExecute (sc_statement c) (params_or_empty (sc_params c))))"

fun sync_gen_next :: "env \<Rightarrow> stream_config \<Rightarrow> generator \<Rightarrow> effect list \<Rightarrow> pyval option py \<times> generator \<times> effect list" where
  "sync_gen_next w c GenDone tr = (Inr None, GenDone, tr)"
| "sync_gen_next w c GenOpen tr = next_row w tr"
| "sync_gen_next w c GenFresh tr =
     (case sync_open_cursor w c tr of
        (Inl e, tr1) \<Rightarrow> (Inl e, GenDone, tr1)
      | (Inr _, tr1) \<Rightarrow> next_row w tr1)"

definition sync_ping :: "env \<Rightarrow> unit io" where
  "sync_ping w = except_exception (ping_body w) (\<lambda>exc. io_raise (DbErr (classify exc no_context)))"

subsection \<open>The facade\<close>

text \<open>A call of the facade runs the scope operation of its name through the executor, which the two frontends
  share; its world is the synchronous one.\<close>

definition sync_db_fetch_all ::
  "('r, 's) world \<Rightarrow> query_obj \<Rightarrow> pyval option \<Rightarrow> target \<Rightarrow> map_to \<Rightarrow> real option \<Rightarrow> real option \<Rightarrow> ('r, 's, pyval list) facade_op" where
  "sync_db_fetch_all w q params t mt timeout deadline =
     facade_call (blocking_world w) t q (\<lambda>cs. sync_fetch_all (wd_env w) cs q params mt) False timeout deadline"

definition sync_db_fetch_one ::
  "('r, 's) world \<Rightarrow> query_obj \<Rightarrow> pyval option \<Rightarrow> target \<Rightarrow> map_to \<Rightarrow> real option \<Rightarrow> real option \<Rightarrow> ('r, 's, pyval) facade_op" where
  "sync_db_fetch_one w q params t mt timeout deadline =
     facade_call (blocking_world w) t q (\<lambda>cs. sync_fetch_one (wd_env w) cs q params mt) False timeout deadline"

definition sync_db_fetch_optional ::
  "('r, 's) world \<Rightarrow> query_obj \<Rightarrow> pyval option \<Rightarrow> target \<Rightarrow> map_to \<Rightarrow> real option \<Rightarrow> real option \<Rightarrow> ('r, 's, pyval) facade_op" where
  "sync_db_fetch_optional w q params t mt timeout deadline =
     facade_call (blocking_world w) t q (\<lambda>cs. sync_fetch_optional (wd_env w) cs q params mt) False timeout deadline"

definition sync_db_fetch_value ::
  "('r, 's) world \<Rightarrow> query_obj \<Rightarrow> pyval option \<Rightarrow> target \<Rightarrow> real option \<Rightarrow> real option \<Rightarrow> ('r, 's, pyval) facade_op" where
  "sync_db_fetch_value w q params t timeout deadline =
     facade_call (blocking_world w) t q (\<lambda>cs. sync_fetch_value (wd_env w) cs q params) False timeout deadline"

definition sync_db_fetch_values ::
  "('r, 's) world \<Rightarrow> query_obj \<Rightarrow> pyval option \<Rightarrow> target \<Rightarrow> real option \<Rightarrow> real option \<Rightarrow> ('r, 's, pyval list) facade_op" where
  "sync_db_fetch_values w q params t timeout deadline =
     facade_call (blocking_world w) t q (\<lambda>cs. sync_fetch_values (wd_env w) cs q params) False timeout deadline"

definition sync_db_execute ::
  "('r, 's) world \<Rightarrow> query_obj \<Rightarrow> pyval option \<Rightarrow> target \<Rightarrow> real option \<Rightarrow> real option \<Rightarrow> ('r, 's, execution_result) facade_op" where
  "sync_db_execute w q params t timeout deadline =
     timed_result (blocking_world w) t (fst (query_meta q))
       (facade_call (blocking_world w) t q (\<lambda>cs. sync_execute (wd_env w) cs q params) True timeout deadline)"

definition sync_many_body :: "env \<Rightarrow> string \<Rightarrow> string \<Rightarrow> statement_obj \<Rightarrow> pyval list \<Rightarrow> conn_scope \<Rightarrow> pyval io" where
  "sync_many_body w query_name database statement params_seq cs =
     except_exception
       (io_then (sync_run_execute w statement (Some (PList params_seq)) (cs_default_timeout cs) (cs_is_postgres cs))
         (perform w (DCursor ''rowcount'')))
       (\<lambda>exc. io_raise (DbErr (classify exc \<lparr>ctx_query_name = Some query_name, ctx_database_name = Some database,
          ctx_shard_id = None, ctx_role = None\<rparr>)))"

definition sync_db_execute_many ::
  "('r, 's) world \<Rightarrow> query_obj \<Rightarrow> pyval list \<Rightarrow> target \<Rightarrow> real option \<Rightarrow> real option \<Rightarrow> ('r, 's, execution_result) facade_op" where
  "sync_db_execute_many w q params_seq t timeout deadline tr st =
     (case coerce_statement q of
        Inl e \<Rightarrow> (Inl e, tr, st)
      | Inr statement \<Rightarrow>
          timed_result (blocking_world w) t (fst (query_meta q))
            (facade_scope (blocking_world w) t q
              (sync_many_body (wd_env w) (fst (query_meta q)) (tg_database t) statement params_seq) timeout deadline)
            tr st)"

definition sync_db_transaction ::
  "('r, 's) world \<Rightarrow> target \<Rightarrow> tx_options \<Rightarrow> (conn_scope \<Rightarrow> 'a io) \<Rightarrow> ('r, 's, 'a) facade_op" where
  "sync_db_transaction w t opts body tr st =
     (case lookup_entry (blocking_world w) t (env_clock (wd_env w) tr) st of
        (Inl e, st1) \<Rightarrow> (Inl e, tr, st1)
      | (Inr entry, (r, f)) \<Rightarrow>
          (case sync_transaction (wd_env w) (manager_of (blocking (wd_env w)) (fd_config f) entry opts) body tr of
             (x, tr') \<Rightarrow> (x, tr', (r, f))))"

subsection \<open>The general operations in a blocking environment\<close>

lemma blocking_simps [simp]:
  "env_answer (blocking w) = env_answer w" "env_clock (blocking w) = env_clock w" "\<not> env_async (blocking w)"
  "wd_env (blocking_world v) = blocking (wd_env v)"
  by (simp_all add: blocking_def blocking_world_def)

text \<open>The combinators ask the environment for answers and the time only.\<close>

lemma blocking_perform [simp]: "perform (blocking w) = perform w" "now (blocking w) = now w"
  by (simp_all add: perform_def now_def fun_eq_iff)

lemma blocking_compat [simp]:
  "timeout_scope (blocking w) s m = m" "shield (blocking w) m = m" "is_cancellation (blocking w) e = False"
  by (auto simp: timeout_scope_def shield_def is_cancellation_def split: option.split)

lemma blocking_statement [simp]:
  "maybe_set_timeout (blocking w) s pg = sync_set_timeout w s pg"
  "run_statement (blocking w) st ps t pg = sync_execute_statement w st ps t pg"
  "run_execute (blocking w) st ps t pg = sync_run_execute w st ps t pg"
  "apply_local_settings (blocking w) settings pg = apply_local_settings w settings pg"
proof -
  have timeout: "maybe_set_timeout (blocking w) s pg = sync_set_timeout w s pg" for s
    by (simp add: maybe_set_timeout_def sync_set_timeout_def split: option.split)
  then show "maybe_set_timeout (blocking w) s pg = sync_set_timeout w s pg" .
  have "apply_setting (blocking w) = apply_setting w" by (simp add: apply_setting_def fun_eq_iff)
  then show "apply_local_settings (blocking w) settings pg = apply_local_settings w settings pg"
    by (simp add: apply_local_settings_def cong: if_cong split: option.split)
  show "run_statement (blocking w) st ps t pg = sync_execute_statement w st ps t pg"
    by (simp add: run_statement_def sync_execute_statement_def timeout)
  then show "run_execute (blocking w) st ps t pg = sync_run_execute w st ps t pg"
    by (simp add: run_execute_def sync_run_execute_def)
qed

lemma blocking_guarded:
  assumes "\<And>st ps t pg. prim (blocking w) st ps t pg = sync_prim w st ps t pg"
  shows "guarded (blocking w) cs prim handler q ps = sync_guarded w cs sync_prim handler q ps"
  by (auto simp: fun_eq_iff guarded_def sync_guarded_def assms io_bind_def io_of_def except_exception_def try_except_def io_raise_def
      split: sum.split prod.split)

lemma blocking_scope:
  "fetch_all (blocking w) cs q ps mt = sync_fetch_all w cs q ps mt"
  "fetch_one (blocking w) cs q ps mt = sync_fetch_one w cs q ps mt"
  "fetch_optional (blocking w) cs q ps mt = sync_fetch_optional w cs q ps mt"
  "fetch_value (blocking w) cs q ps = sync_fetch_value w cs q ps"
  "fetch_values (blocking w) cs q ps = sync_fetch_values w cs q ps"
  "execute (blocking w) cs q ps = sync_execute w cs q ps"
proof -
  have handlers: "cardinality_handler cs (Some a) b = (\<lambda>name e. if raised_isa e CNoResultFound then result_error cs name a
        else if raised_isa e CMultipleResultsFound then result_error cs name b else classified cs name e)"
    "cardinality_handler cs None b = (\<lambda>name e. if raised_isa e CMultipleResultsFound then result_error cs name b else classified cs name e)"
    for a b by (simp_all add: cardinality_handler_def fun_eq_iff)
  have prims: "run_fetch (blocking w) st ps t pg = sync_run_fetch w st ps t pg"
    "run_fetch_one (blocking w) st ps t pg = sync_run_fetch_one w st ps t pg"
    "run_fetch_optional (blocking w) st ps t pg = sync_run_fetch_optional w st ps t pg"
    "run_fetch_value (blocking w) st ps t pg = sync_run_fetch_value w st ps t pg"
    "run_fetch_values (blocking w) st ps t pg = sync_run_fetch_values w st ps t pg" for st ps t pg
    by (simp_all add: run_cursor_defs run_cursor_def sync_run_fetch_def sync_run_fetch_one_def sync_run_fetch_optional_def
        sync_run_fetch_value_def sync_run_fetch_values_def)
  show "fetch_all (blocking w) cs q ps mt = sync_fetch_all w cs q ps mt"
    by (simp add: fetch_all_def sync_fetch_all_def blocking_guarded [of run_fetch w sync_run_fetch, OF prims(1)])
  show "fetch_one (blocking w) cs q ps mt = sync_fetch_one w cs q ps mt"
    by (simp add: fetch_one_def sync_fetch_one_def handlers blocking_guarded [of run_fetch_one w sync_run_fetch_one, OF prims(2)])
  show "fetch_optional (blocking w) cs q ps mt = sync_fetch_optional w cs q ps mt"
    by (simp add: fetch_optional_def sync_fetch_optional_def handlers
        blocking_guarded [of run_fetch_optional w sync_run_fetch_optional, OF prims(3)])
  show "fetch_value (blocking w) cs q ps = sync_fetch_value w cs q ps"
    by (simp add: fetch_value_def sync_fetch_value_def handlers blocking_guarded [of run_fetch_value w sync_run_fetch_value, OF prims(4)])
  show "fetch_values (blocking w) cs q ps = sync_fetch_values w cs q ps"
    by (simp add: fetch_values_def sync_fetch_values_def blocking_guarded [of run_fetch_values w sync_run_fetch_values, OF prims(5)])
  show "execute (blocking w) cs q ps = sync_execute w cs q ps"
    unfolding execute_def sync_execute_def by (rule blocking_guarded) simp
qed

lemma blocking_transaction: "with_transaction (blocking w) m body = sync_transaction w m body"
proof -
  have release: "tx_release (blocking w) = sync_release w" by (simp add: tx_release_def sync_release_def)
  have rollback: "tx_rollback (blocking w) False = sync_rollback w"
    by (simp add: tx_rollback_def sync_rollback_def invalidate_def io_then_def io_bind_def io_return_def fun_eq_iff split: prod.split sum.split)
  have failed: "enter_failed (blocking w) m c t = sync_enter_failed w m c t" for c t
    by (simp add: fun_eq_iff enter_failed_def sync_enter_failed_def cleanup_on_enter_failure_def sync_cleanup_on_enter_failure_def release)
  have settings: "tx_apply_settings (blocking w) m = tx_apply_settings w m" by (simp add: tx_apply_settings_def cong: if_cong split: option.split)
  have enter: "tx_enter (blocking w) m = sync_enter w m" by (simp add: tx_enter_def sync_enter_def failed settings)
  have epilogue: "oc \<noteq> TxCancelled \<Longrightarrow> tx_epilogue (blocking w) m st oc = sync_epilogue w m st oc" for st oc
    by (simp add: tx_epilogue_def sync_epilogue_def release)
  have "commit_outcome r \<noteq> TxCancelled" for r by (simp add: commit_outcome_def split: sum.split raised.split)
  moreover have "tx_commit (blocking w) m = tx_commit w m" by (simp add: tx_commit_def cong: if_cong)
  ultimately have exit: "tx_exit (blocking w) m st x = sync_exit w m st x" for st x
    by (simp add: fun_eq_iff tx_exit_def sync_exit_def rollback epilogue split: option.split prod.split)
  show ?thesis by (simp add: fun_eq_iff exit with_transaction_def sync_transaction_def enter split: prod.split sum.split)
qed

lemma blocking_stream: "gen_next (blocking w) c g tr = sync_gen_next w c g tr"
proof -
  have "next_row (blocking w) = next_row w" by (simp add: next_row_def fun_eq_iff)
  moreover have "open_cursor (blocking w) c = sync_open_cursor w c"
    by (simp add: open_cursor_def sync_open_cursor_def io_then_def io_bind_assoc)
  ultimately show ?thesis by (cases g) (simp_all split: sum.split prod.split)
qed

lemma blocking_ping: "ping (blocking w) s = sync_ping w"
  by (simp add: ping_def sync_ping_def ping_body_def)

text \<open>C21. The synchronous facade is the general one in a blocking world: every read, write and transaction does the same
  to the driver, the engines and the breakers, and has the same outcome.\<close>

theorem sync_facade_is_general:
  "db_fetch_all (blocking_world w) q ps t mt timeout deadline = sync_db_fetch_all w q ps t mt timeout deadline
   \<and> db_fetch_one (blocking_world w) q ps t mt timeout deadline = sync_db_fetch_one w q ps t mt timeout deadline
   \<and> db_fetch_optional (blocking_world w) q ps t mt timeout deadline = sync_db_fetch_optional w q ps t mt timeout deadline
   \<and> db_fetch_value (blocking_world w) q ps t timeout deadline = sync_db_fetch_value w q ps t timeout deadline
   \<and> db_fetch_values (blocking_world w) q ps t timeout deadline = sync_db_fetch_values w q ps t timeout deadline
   \<and> db_execute (blocking_world w) q ps t timeout deadline = sync_db_execute w q ps t timeout deadline
   \<and> db_execute_many (blocking_world w) q seq t timeout deadline = sync_db_execute_many w q seq t timeout deadline
   \<and> db_transaction (blocking_world w) t opts body = sync_db_transaction w t opts body"
proof -
  have many: "many_body (blocking v) n d stmt seq = sync_many_body v n d stmt seq" for v n d stmt
    by (simp add: fun_eq_iff many_body_def sync_many_body_def)
  have "db_execute_many (blocking_world w) q seq t timeout deadline = sync_db_execute_many w q seq t timeout deadline"
    by (simp add: fun_eq_iff db_execute_many_def sync_db_execute_many_def many split: sum.split)
  moreover have "db_transaction (blocking_world w) t opts body = sync_db_transaction w t opts body"
    by (simp add: fun_eq_iff db_transaction_def sync_db_transaction_def blocking_transaction split: prod.split sum.split)
  ultimately show ?thesis
    by (simp add: db_fetch_all_def sync_db_fetch_all_def db_fetch_one_def sync_db_fetch_one_def db_fetch_optional_def
        sync_db_fetch_optional_def db_fetch_value_def sync_db_fetch_value_def db_fetch_values_def sync_db_fetch_values_def
        db_execute_def sync_db_execute_def blocking_scope)
qed

text \<open>So the synchronous transaction block gives its connection back, as the general one does.\<close>

lemma sync_transaction_closes:
  assumes "rollback_uninterrupted w" "quiet (body (tx_scope m))"
  shows "\<exists>L. life (snd (sync_transaction w m body tr)) = life tr @ L
    \<and> (closed_once L \<or> (L = [DConnect] \<and> (\<exists>x. env_answer w tr DConnect = Inl x)))"
  using with_transaction_closed [of "blocking w" body m tr] assms
  by (simp add: blocking_transaction rollback_uninterrupted_def)

text \<open>In the synchronous frontend an interrupt that arrives while a transaction is being entered
  (\<^verbatim>\<open>KeyboardInterrupt\<close>, \<^verbatim>\<open>SystemExit\<close>, whatever is raised) reaches the caller as an ordinary database
  error, which a handler for \<^verbatim>\<open>Exception\<close> catches; the body does not run.\<close>

lemma sync_enter_converts_interrupts:
  assumes "env_answer w tr DConnect = Inl e"
  shows "sync_transaction w m body tr = (Inl (DbErr (classify e (tx_context m))), tr @ [DConnect])
    \<and> is_exception (DbErr (classify e (tx_context m)))"
  using assms
  by (simp add: sync_transaction_def sync_enter_def on_raise_def perform_def sync_enter_failed_def sync_cleanup_on_enter_failure_def
      io_then_def io_bind_def io_return_def io_raise_def is_exception_def)

end
