(* ===== verification/TwinWrites.thy ===== *)
theory TwinWrites
  imports Twins Writes
begin

text \<open>
  The rest of the synchronous facade: bulk writes, COPY, scopes, streams, start and health (\<^verbatim>\<open>_sync/database.py\<close>,
  \<^verbatim>\<open>_sync/streaming.py\<close>, \<^verbatim>\<open>_sync/health.py\<close>), written over the synchronous operations of \<open>Twins\<close> and shown to
  be the general ones in a blocking world. Batches, plans, lookup, slots, and the auto-commit scope are the same text
  in both frontends and are the general definitions here too.
\<close>

subsection \<open>Bulk writes\<close>

definition sync_run_plan :: "env \<Rightarrow> real \<Rightarrow> bool \<Rightarrow> statement_obj \<times> pyval \<Rightarrow> pyval io" where
  "sync_run_plan w timeout pg p = sync_run_execute w (fst p) (Some (snd p)) (Some timeout) pg"

definition sync_atomic_batch :: "env \<Rightarrow> bulk_plan \<Rightarrow> real \<Rightarrow> bool \<Rightarrow> err_context \<Rightarrow> row list \<Rightarrow> int io" where
  "sync_atomic_batch w plan timeout pg ctx batch =
     io_bind (io_of (for_batch plan batch)) (\<lambda>p.
       io_then
         (except_exception (sync_run_plan w timeout pg p) (\<lambda>exc. io_raise (DbErr (classify exc ctx))))
         (io_bind (perform w (DCursor ''rowcount'')) (\<lambda>k. io_return (affected k (length batch)))))"

fun sync_atomic_batches :: "env \<Rightarrow> bulk_plan \<Rightarrow> real \<Rightarrow> bool \<Rightarrow> err_context \<Rightarrow> row list list \<Rightarrow> int \<Rightarrow> int io" where
  "sync_atomic_batches w plan timeout pg ctx [] sent = io_return sent"
| "sync_atomic_batches w plan timeout pg ctx (batch # batches) sent =
     io_bind (sync_atomic_batch w plan timeout pg ctx batch) (\<lambda>k.
       sync_atomic_batches w plan timeout pg ctx batches (sent + k))"

definition sync_db_connection ::
  "('r, 's) world \<Rightarrow> target \<Rightarrow> real option \<Rightarrow> (conn_scope \<Rightarrow> 'a io) \<Rightarrow> ('r, 's, 'a) facade_op" where
  "sync_db_connection w t timeout body = facade_scope (blocking_world w) t (AStatement (BareStr ''adhoc'')) body timeout None"

definition sync_batch_op ::
  "('r, 's) world \<Rightarrow> target \<Rightarrow> bool \<Rightarrow> bulk_plan \<Rightarrow> real \<Rightarrow> string \<Rightarrow> row list \<Rightarrow> ('r, 's, unit) facade_op" where
  "sync_batch_op w t pg plan timeout query_name batch =
     op_bind (lift_io (io_of (for_batch plan batch))) (\<lambda>p.
       facade_scope (blocking_world w) t (AStatement (BareStr query_name))
         (\<lambda>cs. io_then (sync_run_plan (wd_env w) timeout pg p)
            (io_bind (perform (wd_env w) (DCursor ''rowcount'')) (\<lambda>k. emit (LCount (affected k (length batch))))))
         (Some timeout) None)"

definition sync_row_op ::
  "('r, 's) world \<Rightarrow> target \<Rightarrow> bool \<Rightarrow> bulk_plan \<Rightarrow> real \<Rightarrow> string \<Rightarrow> row \<Rightarrow> ('r, 's, unit) facade_op" where
  "sync_row_op w t pg plan timeout query_name row =
     op_bind (lift_io (io_of (for_batch plan [row]))) (\<lambda>p.
       facade_scope (blocking_world w) t (AStatement (BareStr query_name))
         (\<lambda>cs. io_then (sync_run_plan (wd_env w) timeout pg p) (emit (LCount 1))) (Some timeout) None)"

definition sync_own_batch ::
  "('r, 's) world \<Rightarrow> target \<Rightarrow> bool \<Rightarrow> bulk_plan \<Rightarrow> failure_mode \<Rightarrow> real \<Rightarrow> string \<Rightarrow> row list \<Rightarrow> ('r, 's, unit) facade_op" where
  "sync_own_batch w t pg plan mode timeout query_name batch =
     op_except (sync_batch_op w t pg plan timeout query_name batch) (\<lambda>exc.
       if mode \<noteq> SplitOnFailure then lift_io (dropped (tg_database t) query_name (length batch))
       else op_each (\<lambda>row. op_except (sync_row_op w t pg plan timeout query_name row)
              (\<lambda>row_exc. lift_io (dropped (tg_database t) query_name 1))) batch)"

definition sync_best_effort_op ::
  "('r, 's) world \<Rightarrow> engine_entry \<Rightarrow> bulk_plan \<Rightarrow> row list list \<Rightarrow> failure_mode \<Rightarrow> real \<Rightarrow> string \<Rightarrow> ('r, 's, int) facade_op" where
  "sync_best_effort_op w entry plan batches mode timeout query_name tr st =
     (case new_target (ek_database (ee_key entry)) RoleWrite None of
        Inl e \<Rightarrow> (Inl e, tr, st)
      | Inr t \<Rightarrow>
          (case op_each (sync_own_batch w t (is_postgres (ee_target entry)) plan mode timeout query_name) batches tr st of
             (Inl e, tr1, st1) \<Rightarrow> (Inl e, tr1, st1)
           | (Inr _, tr1, st1) \<Rightarrow> (Inr (count_of tr1 - count_of tr), tr1, st1)))"

definition sync_rows_op ::
  "('r, 's) world \<Rightarrow> (string \<Rightarrow> string option) \<Rightarrow> (pyval \<Rightarrow> nat) \<Rightarrow> target \<Rightarrow> bulk_call \<Rightarrow> ('r, 's, int) facade_op" where
  "sync_rows_op w column_type str_bytes t c tr st =
     (case bulk_lookup (blocking_world w) t (env_clock (wd_env w) tr) st of
        (Inl e, st1) \<Rightarrow> (Inl e, tr, st1)
      | (Inr (entry, slots), st1) \<Rightarrow>
          (let pg = is_postgres (ee_target entry);
               cfg = fd_config (snd st1);
               labels = bulk_labels (blocking_world w) entry (bc_query_name c)
           in case plan_of column_type pg c of
                Inl e \<Rightarrow> (Inl e, tr, st1)
              | Inr plan \<Rightarrow>
                  (let batch_rows = batch_rows_of str_bytes (d_bulk (defaults cfg)) c;
                       batches = iter_batches (bc_rows c) batch_rows;
                       timeout = real_or (bc_timeout c) (d_transaction_timeout_seconds (defaults cfg))
                   in op_bind
                        (op_acquire (wd_env w) slots ''database'' (op_acquire (wd_env w) slots ''bulk''
                          (if bc_mode c = Atomic then
                             sync_db_transaction w t (write_options timeout)
                               (\<lambda>cs. sync_atomic_batches (wd_env w) plan timeout pg (bulk_context c) batches 0)
                           else sync_best_effort_op w entry plan batches (bc_mode c) timeout (bc_query_name c))))
                        (\<lambda>written. lift_io (io_then (emit (MIncr ''db_bulk_rows_total'' (of_int written) labels)) (io_return written)))
                        (tr @ [MObserve ''db_bulk_batch_size'' (of_int batch_rows) labels]) st1)))"

definition sync_db_bulk_write ::
  "('r, 's) world \<Rightarrow> (string \<Rightarrow> string option) \<Rightarrow> (pyval \<Rightarrow> nat) \<Rightarrow> target \<Rightarrow> bulk_call \<Rightarrow> ('r, 's, execution_result) facade_op" where
  "sync_db_bulk_write w column_type str_bytes t c tr st =
     (if bc_rows c = [] then
        (Inr (new_execution_result (PInt 0) (bc_query_name c) (tg_database t) 0), tr @ [DClock], st)
      else timed_result (blocking_world w) t (bc_query_name c) (as_row_count (sync_rows_op w column_type str_bytes t c)) tr st)"

definition sync_db_insert_many ::
  "('r, 's) world \<Rightarrow> (pyval \<Rightarrow> nat) \<Rightarrow> sql_table \<Rightarrow> row list \<Rightarrow> target \<Rightarrow> failure_mode \<Rightarrow> insert_strategy \<Rightarrow> int option
     \<Rightarrow> real option \<Rightarrow> ('r, 's, execution_result) facade_op" where
  "sync_db_insert_many w str_bytes tb rows t mode strategy batch_size timeout =
     sync_db_bulk_write w (tb_column tb) str_bytes t (insert_call tb rows t mode strategy batch_size timeout)"

definition sync_db_upsert_many ::
  "('r, 's) world \<Rightarrow> (pyval \<Rightarrow> nat) \<Rightarrow> sql_table \<Rightarrow> row list \<Rightarrow> target \<Rightarrow> string list \<Rightarrow> string list option \<Rightarrow> failure_mode
     \<Rightarrow> insert_strategy \<Rightarrow> int option \<Rightarrow> real option \<Rightarrow> ('r, 's, execution_result) facade_op" where
  "sync_db_upsert_many w str_bytes tb rows t conflict update mode strategy batch_size timeout tr st =
     (case upsert_statement tb conflict update of
        Inl e \<Rightarrow> (Inl e, tr, st)
      | Inr statement \<Rightarrow>
          sync_db_bulk_write w (tb_column tb) str_bytes t
            (upsert_call tb statement rows t conflict update mode strategy batch_size timeout) tr st)"

text \<open>\<^verbatim>\<open>copy_records_sync\<close> takes a list of records; the asynchronous one also an asynchronous iterator.\<close>

fun sync_copy_rows :: "env \<Rightarrow> pyval list \<Rightarrow> int \<Rightarrow> int io" where
  "sync_copy_rows w [] sent = io_return sent"
| "sync_copy_rows w (r # rows) sent =
     io_then (perform w (DCall ''copy.write_row'' r)) (sync_copy_rows w rows (sent + 1))"

definition sync_copy_from_records :: "env \<Rightarrow> string \<Rightarrow> string list \<Rightarrow> pyval list \<Rightarrow> int io" where
  "sync_copy_from_records w table columns records =
     io_bind (perform w (DDriverConn ''pipeline'')) (\<lambda>has.
       if has \<noteq> PBool True then
         io_of (raise_db DatabaseUnsupportedOperationError
           ''COPY requires the psycopg driver; this target uses a different driver'')
       else
         io_then (perform w (DCall ''copy.enter'' (PStr (copy_sql table columns))))
           (on_raise (sync_copy_rows w records 0)
             (\<lambda>n. io_then (perform w (DCall ''copy.exit'' PNone)) (io_return n))
             (\<lambda>e. io_then (perform w (DCall ''copy.abort'' PNone)) (io_raise e))))"

definition sync_copy_body :: "env \<Rightarrow> string \<Rightarrow> string list \<Rightarrow> pyval list \<Rightarrow> string \<Rightarrow> int io" where
  "sync_copy_body w table columns records database =
     except_exception (sync_copy_from_records w table columns records)
       (\<lambda>exc. io_raise (DbErr (classify exc \<lparr>ctx_query_name = Some (table @ ''.copy''), ctx_database_name = Some database,
          ctx_shard_id = None, ctx_role = None\<rparr>)))"

definition sync_db_copy_records ::
  "('r, 's) world \<Rightarrow> string \<Rightarrow> string list \<Rightarrow> pyval list \<Rightarrow> target \<Rightarrow> real option \<Rightarrow> ('r, 's, execution_result) facade_op" where
  "sync_db_copy_records w table columns records t timeout tr st =
     (case lookup_entry (blocking_world w) t (env_clock (wd_env w) tr) st of
        (Inl e, st1) \<Rightarrow> (Inl e, tr, st1)
      | (Inr entry, (r, f)) \<Rightarrow>
          if \<not> is_postgres (ee_target entry) then
            (raise_db DatabaseUnsupportedOperationError ''COPY is only supported on PostgreSQL'', tr, (r, f))
          else
            (case limiter_for (ek_database (ee_key entry)) (fd_executor f) of
               (Inl e, ex) \<Rightarrow> (Inl e, tr, (r, f\<lparr>fd_executor := ex\<rparr>))
             | (Inr slots, ex) \<Rightarrow>
                 timed_result (blocking_world w) t (table @ ''.copy'')
                   (as_row_count (op_bind
                     (op_acquire (wd_env w) slots ''database'' (op_acquire (wd_env w) slots ''bulk''
                       (sync_db_transaction w t (write_options (real_or timeout (d_transaction_timeout_seconds (defaults (fd_config f)))))
                         (\<lambda>cs. sync_copy_body (wd_env w) table columns records (tg_database t)))))
                     (\<lambda>written. lift_io (io_then
                        (emit (MIncr ''db_bulk_rows_total'' (of_int written) (bulk_labels (blocking_world w) entry (table @ ''.copy''))))
                        (io_return written)))))
                   tr (r, f\<lparr>fd_executor := ex\<rparr>)))"

subsection \<open>Streams\<close>

definition sync_stream_next :: "env \<Rightarrow> stream_config \<Rightarrow> pyval option stream_op" where
  "sync_stream_next w c s tr =
     (case st_gen s of
        None \<Rightarrow> (Inl (Foreign (plain_exn [CException] ''AssertionError'')), s, tr)
      | Some g \<Rightarrow>
          (let late = (case sc_max_duration c of None \<Rightarrow> False | Some d \<Rightarrow> env_clock w tr - st_started_at s > d);
               tr0 = (if sc_max_duration c = None then tr else tr @ [DClock])
           in if late then (Inl (DbErr (stream_timeout c)), s, tr0)
              else
                (case sync_gen_next w c g tr0 of
                   (Inl e, g', tr1) \<Rightarrow>
                     (Inl (if is_exception e then DbErr (classify e (stream_context c)) else e), s\<lparr>st_gen := Some g'\<rparr>, tr1)
                 | (Inr None, g', tr1) \<Rightarrow>
                     (Inr None, s\<lparr>st_gen := Some g'\<rparr>, tr1 @ [MObserve ''db_stream_rows_total'' (real (st_count s)) (sc_labels c)])
                 | (Inr (Some row), g', tr1) \<Rightarrow>
                     (case sc_mapper c row of
                        Inl e \<Rightarrow> (Inl e, s\<lparr>st_gen := Some g', st_count := st_count s + 1\<rparr>, tr1)
                      | Inr v \<Rightarrow> (Inr (Some v), s\<lparr>st_gen := Some g', st_count := st_count s + 1\<rparr>, tr1)))))"

definition sync_db_stream ::
  "('r, 's) world \<Rightarrow> query_obj \<Rightarrow> pyval option \<Rightarrow> target \<Rightarrow> int \<Rightarrow> map_to \<Rightarrow> real option \<Rightarrow> bool
     \<Rightarrow> ('r, 's, stream_config) facade_op" where
  "sync_db_stream w q params t batch_size mt max_duration traced tr st =
     (case lookup_entry (blocking_world w) t (env_clock (wd_env w) tr) st of
        (Inl e, st1) \<Rightarrow> (Inl e, tr, st1)
      | (Inr entry, st1) \<Rightarrow>
          (sum_bind (coerce_statement q) (\<lambda>statement.
           sum_bind (build_mapper mt) (\<lambda>mapper.
             case query_meta q of (query_name, operation, _) \<Rightarrow>
               Inr \<lparr>sc_statement = statement, sc_params = params, sc_batch_size = batch_size, sc_mapper = mapper,
                    sc_database = ek_database (ee_key entry), sc_role = ek_role (ee_key entry),
                    sc_query_name = query_name,
                    sc_labels = executor_labels (blocking (wd_env w)) (ee_key entry) query_name operation,
                    sc_max_duration = max_duration, sc_traced = traced\<rparr>)), tr, st1))"

subsection \<open>Start and health\<close>

fun sync_warm_engines :: "('r, 's) world \<Rightarrow> bool \<Rightarrow> (string \<times> database_config) list \<Rightarrow> ('r, 's, unit) facade_op" where
  "sync_warm_engines w warm [] tr st = (Inr (), tr, st)"
| "sync_warm_engines w warm ((name, db) # dbs) tr st =
     (if t_required (db_primary db) then
        (case primary_engine w name tr st of
           (Inl e, tr1, st1) \<Rightarrow> (Inl e, tr1, st1)
         | (Inr _, tr1, st1) \<Rightarrow>
             (case (if warm then sync_ping (wd_env w) else io_return ()) tr1 of
                (Inl e, tr2) \<Rightarrow> (Inl e, tr2, st1)
              | (Inr _, tr2) \<Rightarrow> sync_warm_engines w warm dbs tr2 st1))
      else sync_warm_engines w warm dbs tr st)"

definition sync_db_start :: "('r, 's) world \<Rightarrow> bool \<Rightarrow> ('r, 's, unit) facade_op" where
  "sync_db_start w warm tr st =
     (if fd_started (snd st) then (Inr (), tr, st)
      else
        (case validate (fd_config (snd st)) of
           Inl e \<Rightarrow> (Inl e, tr, st)
         | Inr _ \<Rightarrow>
             (case sync_warm_engines w warm (databases (fd_config (snd st))) tr st of
                (Inl e, tr1, st1) \<Rightarrow> (Inl e, tr1, st1)
              | (Inr _, tr1, st1) \<Rightarrow> (Inr (), tr1, (fst st1, (snd st1)\<lparr>fd_started := True\<rparr>)))))"

definition sync_check_target :: "('r, 's) world \<Rightarrow> string \<Rightarrow> ('r, 's, unit) facade_op" where
  "sync_check_target w name tr st =
     (case primary_engine w name tr st of
        (Inl e, tr1, st1) \<Rightarrow> (Inl e, tr1, st1)
      | (Inr _, tr1, st1) \<Rightarrow> (case sync_ping (wd_env w) tr1 of (x, tr2) \<Rightarrow> (x, tr2, st1)))"

text \<open>\<^verbatim>\<open>except Exception\<close> around one check turns its failure into an unhealthy entry; an interrupt passes.\<close>

fun sync_check_targets ::
  "('r, 's) world \<Rightarrow> (string \<times> database_config) list \<Rightarrow> ('r, 's, target_health list) facade_op" where
  "sync_check_targets w [] tr st = (Inr [], tr, st)"
| "sync_check_targets w ((name, db) # dbs) tr st =
     (if \<not> t_required (db_primary db) then sync_check_targets w dbs tr st
      else
        op_bind
          (op_except
            (op_bind (sync_check_target w name) (\<lambda>_. lift_io (io_return \<lparr>th_key = name @ ''.primary'', th_healthy = True, th_error = None\<rparr>)))
            (\<lambda>e. lift_io (io_return \<lparr>th_key = name @ ''.primary'', th_healthy = False, th_error = Some (exn_text e)\<rparr>)))
          (\<lambda>entry. op_bind (sync_check_targets w dbs) (\<lambda>ts. lift_io (io_return (entry # ts)))) tr st)"

definition sync_health :: "('r, 's) world \<Rightarrow> ('r, 's, health_report) facade_op" where
  "sync_health w tr st =
     (case sync_check_targets w (databases (fd_config (snd st))) tr st of
        (Inl e, tr1, st1) \<Rightarrow> (Inl e, tr1, st1)
      | (Inr ts, tr1, st1) \<Rightarrow> (Inr \<lparr>hr_live = True, hr_ready = list_all th_healthy ts, hr_targets = ts\<rparr>, tr1, st1))"

definition sync_require_ready :: "('r, 's) world \<Rightarrow> ('r, 's, unit) facade_op" where
  "sync_require_ready w tr st =
     (case sync_health w tr st of
        (Inl e, tr1, st1) \<Rightarrow> (Inl e, tr1, st1)
      | (Inr rep, tr1, st1) \<Rightarrow> ((if hr_ready rep then Inr () else Inl (not_ready (hr_targets rep))), tr1, st1))"

subsection \<open>They are the general operations in a blocking world\<close>

lemma blocking_db_transaction:
  "db_transaction (blocking_world w) t opts body = sync_db_transaction w t opts body"
  by (simp add: fun_eq_iff db_transaction_def sync_db_transaction_def blocking_transaction split: prod.split sum.split)

lemma blocking_batches:
  "atomic_batches (blocking w) plan timeout pg ctx bs k = sync_atomic_batches w plan timeout pg ctx bs k"
proof -
  have "atomic_batch (blocking w) plan timeout pg ctx b = sync_atomic_batch w plan timeout pg ctx b" for b
    by (simp add: atomic_batch_def sync_atomic_batch_def run_plan_def sync_run_plan_def)
  then show ?thesis by (induction bs arbitrary: k) simp_all
qed

lemma blocking_own_batch:
  "own_batch (blocking_world w) t pg plan mode timeout q = sync_own_batch w t pg plan mode timeout q"
  by (simp add: fun_eq_iff own_batch_def sync_own_batch_def batch_op_def sync_batch_op_def row_op_def sync_row_op_def
      run_plan_def sync_run_plan_def)

lemma blocking_copy: "copy_body (blocking w) table columns records db = sync_copy_body w table columns records db"
proof -
  have "copy_rows (blocking w) rs n = sync_copy_rows w rs n" for rs n by (induction rs arbitrary: n) simp_all
  then show ?thesis by (simp add: copy_body_def sync_copy_body_def copy_from_records_def sync_copy_from_records_def cong: if_cong)
qed

lemma blocking_acquire: "op_acquire (blocking w) = op_acquire w"
proof -
  have "semaphore_acquire (blocking w) tier s = semaphore_acquire w tier s" for tier s by (simp add: semaphore_acquire_def)
  then show ?thesis by (intro ext) (simp add: op_acquire_def split: option.split)
qed

lemma blocking_bulk_write:
  "db_bulk_write (blocking_world w) ct sb t c = sync_db_bulk_write w ct sb t c"
proof -
  have "best_effort_op (blocking_world w) entry plan bs mode timeout q = sync_best_effort_op w entry plan bs mode timeout q"
    for entry plan bs mode timeout q
    by (intro ext) (simp add: best_effort_op_def sync_best_effort_op_def blocking_own_batch split: sum.split)
  then have "rows_op (blocking_world w) ct sb t c = sync_rows_op w ct sb t c"
    by (intro ext) (simp add: rows_op_def sync_rows_op_def blocking_acquire blocking_db_transaction blocking_batches Let_def
        split: prod.split sum.split)
  then show ?thesis by (intro ext) (simp add: db_bulk_write_def sync_db_bulk_write_def)
qed

lemma blocking_stream_next: "stream_next (blocking w) c = sync_stream_next w c"
  by (simp add: fun_eq_iff stream_next_def sync_stream_next_def blocking_stream Let_def split: option.split)

lemma blocking_primary: "primary_engine (blocking_world w) = primary_engine w"
  by (simp add: fun_eq_iff primary_engine_def blocking_world_def)

lemma blocking_start: "db_start (blocking_world w) warm = sync_db_start w warm"
proof -
  have "warm_engines (blocking_world w) warm dbs tr st = sync_warm_engines w warm dbs tr st" for dbs tr st
    by (induction w warm dbs tr st rule: sync_warm_engines.induct)
      (auto simp: blocking_primary blocking_ping split: sum.split prod.split)
  then show ?thesis by (intro ext) (simp add: db_start_def sync_db_start_def split: sum.split)
qed

lemma blocking_health:
  "health (blocking_world w) = sync_health w" "require_ready (blocking_world w) = sync_require_ready w"
proof -
  have one: "check_target (blocking_world w) name = sync_check_target w name" for name
    by (simp add: fun_eq_iff check_target_def sync_check_target_def blocking_primary blocking_ping split: sum.split prod.split)
  have "check_targets (blocking_world w) dbs tr st = sync_check_targets w dbs tr st" for dbs tr st
  proof (induction dbs arbitrary: tr st)
    case (Cons d dbs)
    obtain name db where d: "d = (name, db)" by (cases d)
    show ?case
      by (auto simp: d one Cons.IH op_bind_def op_except_def lift_io_def io_return_def split: sum.split prod.split)
  qed simp
  then have h: "health (blocking_world w) = sync_health w" by (simp add: fun_eq_iff health_def sync_health_def)
  then show "health (blocking_world w) = sync_health w" .
  from h show "require_ready (blocking_world w) = sync_require_ready w" by (simp add: fun_eq_iff require_ready_def sync_require_ready_def)
qed


end
