(* ===== verification/Spec2Isabelle.thy ===== *)
theory Spec2Isabelle
  imports Prelude Errors Redaction Classifier Query Config Policies Circuit Routing Resilience Effects Result Connection Transaction Engine
    Executor Database Sizing Bulk Messaging Collector Facade Frontends Slots Loading Streaming Health Doubles Observability Telemetry Pool Lint Problem Console Generator Reach Status Loops Writes Twins TwinWrites
begin

text \<open>
  Verification development for dbkit, a Python toolkit over SQLAlchemy. File names are relative to
  \<^verbatim>\<open>src/src/dbkit\<close>. The asynchronous frontend \<^verbatim>\<open>_async\<close> is what is modelled;
  \<^verbatim>\<open>_sync\<close> is generated from it by \<^verbatim>\<open>tools/run_unasync.py\<close> except for its
  \<^verbatim>\<open>_compat.py\<close>, and both \<^verbatim>\<open>_compat.py\<close> files are in \<open>Effects\<close>, where the flag
  \<open>env_async\<close> chooses between them: a property proved for every environment holds of both frontends, and
  \<open>Frontends\<close> shows that calls and transactions of the two agree wherever nothing is cancelled and no
  deadline expires. The generator itself is in \<open>Generator\<close>.

  \<^bold>\<open>The program and its parts.\<close> The facade \<^verbatim>\<open>AsyncDatabase\<close> resolves a target to a
  route (a shard, and the primary or a replica), takes the engine of the route from the engine registry
  and runs the operation through the resilient executor: the circuit breaker of the engine is asked, the
  slots of the limiter are taken, a connection scope runs the statement and commits, the retry loop decides
  about another attempt. Transactions hold a connection over several operations. Errors of the driver are
  classified into the toolkit's own hierarchy; passwords in their messages are redacted. Bulk writes, streams,
  the inbox and outbox of message consumers and the batch collector are built on these; health checks, pool
  statistics, metrics, the web integration and the command line report on them.

  \<^bold>\<open>Theories and sources.\<close>
  \<^item> \<open>Prelude\<close>: shared types (Python values, exceptions, insertion-ordered dictionaries as association
    lists, results as sums), string functions, and their lemmas.
  \<^item> \<open>Errors\<close> (\<^verbatim>\<open>_core/errors/base.py\<close>): categories, the class hierarchy with its class
    attributes, construction, \<^verbatim>\<open>with_context\<close>, \<^verbatim>\<open>to_dict\<close>.
  \<^item> \<open>Redaction\<close> (\<^verbatim>\<open>_core/errors/redaction.py\<close>): the regular expression as a matcher, the URL
    rewrite, parameter redaction.
  \<^item> \<open>Classifier\<close> (\<^verbatim>\<open>_core/errors/classifier.py\<close>, \<^verbatim>\<open>sqlstate.py\<close>): SQLSTATE
    tables and the classification of foreign exceptions.
  \<^item> \<open>Query\<close> (\<^verbatim>\<open>_core/query.py\<close>): query objects and their registry.
  \<^item> \<open>Conversions\<close>: Python's conversions of values (\<^verbatim>\<open>int\<close>, \<^verbatim>\<open>float\<close>, truth, \<^verbatim>\<open>in\<close>) with the
    exceptions they raise.
  \<^item> \<open>Config\<close>, \<open>Loading\<close> (\<^verbatim>\<open>_core/config.py\<close>): the records, validation, connection budgets,
    warnings; environment references, the builders from parsed documents.
  \<^item> \<open>Policies\<close> (\<^verbatim>\<open>_core/policies.py\<close>): timeouts, retry eligibility, backoff.
  \<^item> \<open>Circuit\<close> (\<^verbatim>\<open>_core/circuit.py\<close>): the breaker, with the clock as an argument.
  \<^item> \<open>Routing\<close> (\<^verbatim>\<open>_core/routing.py\<close>): targets, shard resolvers, replica selectors.
  \<^item> \<open>Resilience\<close> (\<^verbatim>\<open>_async/resilience.py\<close>): \<^verbatim>\<open>run_with_retries\<close>.
  \<^item> \<open>Effects\<close> (\<^verbatim>\<open>_async/_compat.py\<close>, \<^verbatim>\<open>_sync/_compat.py\<close>): programs as functions from the
    trace of events to an outcome and a longer trace; the driver is the argument \<open>env\<close>.
  \<^item> \<open>Result\<close>, \<open>Connection\<close>, \<open>Transaction\<close>, \<open>Engine\<close>, \<open>Executor\<close>
    (\<^verbatim>\<open>_core/result.py\<close>, \<^verbatim>\<open>_async/connection.py\<close>, \<^verbatim>\<open>_async/transaction.py\<close>,
    \<^verbatim>\<open>_async/engine.py\<close>, \<^verbatim>\<open>_async/executor.py\<close>): row mapping, connection scopes,
    transactions, engines, and the attempts of a call.
  \<^item> \<open>Database\<close>, \<open>Facade\<close> (\<^verbatim>\<open>_async/database.py\<close>): routing and the dynamic registration of
    databases as a machine; the one-shot operations, scopes and transactions. \<open>Reach\<close>: the facade and its registry as
    one machine, which engine a call gets, \<^verbatim>\<open>drain_engine\<close>.
  \<^item> \<open>Sizing\<close>, \<open>Bulk\<close> (\<^verbatim>\<open>_core/bulk.py\<close>, \<^verbatim>\<open>postgres/unnest.py\<close>, \<^verbatim>\<open>postgres/copy.py\<close>, the bulk
    operations of \<^verbatim>\<open>_async/database.py\<close>): batches and the writes that use them; \<open>Writes\<close>: these operations
    with every lookup of the facade they make, to their results.
  \<^item> \<open>Messaging\<close> (\<^verbatim>\<open>integrations/inbox.py\<close>, \<^verbatim>\<open>integrations/outbox.py\<close>) and
    \<open>Collector\<close> (\<^verbatim>\<open>integrations/batch.py\<close>).
  \<^item> \<open>Frontends\<close> (both \<^verbatim>\<open>_compat.py\<close> files): the two frontends agree. \<open>Twins\<close>,
    \<open>TwinWrites\<close> (\<^verbatim>\<open>_sync/connection.py\<close>, \<^verbatim>\<open>transaction.py\<close>, \<^verbatim>\<open>database.py\<close>, \<^verbatim>\<open>streaming.py\<close>,
    \<^verbatim>\<open>health.py\<close>): the synchronous operations as their files read, and that they are the general ones in an
    environment that is not asynchronous; what the frontends share word for word is not written twice.
  \<^item> \<open>Slots\<close> (\<^verbatim>\<open>_async/resilience.py\<close>): the concurrency limiter among concurrent callers, as a step
    machine. \<open>Loops\<close>: the \<^verbatim>\<open>while\<close> statements of the package, written without a termination argument,
    return.
  \<^item> \<open>Streaming\<close> (\<^verbatim>\<open>_async/streaming.py\<close>), \<open>Health\<close> (\<^verbatim>\<open>_async/health.py\<close>), \<open>Pool\<close>
    (\<^verbatim>\<open>_pool.py\<close>): result streams, readiness, pool listeners.
  \<^item> \<open>Observability\<close>, \<open>Telemetry\<close> (\<^verbatim>\<open>observability\<close>): labels, sinks, span attributes, log
    payloads; that every metric of the operations is accepted.
  \<^item> \<open>Generator\<close> (\<^verbatim>\<open>tools/run_unasync.py\<close> of the repository): the translation of the asynchronous
    package, and the check that the synchronous one is up to date.
  \<^item> \<open>Problem\<close> (\<^verbatim>\<open>integrations/fastapi.py\<close>), \<open>Lint\<close> (\<^verbatim>\<open>_core/idempotency_lint.py\<close>),
    \<open>Doubles\<close> (\<^verbatim>\<open>testing/__init__.py\<close>), \<open>Console\<close> (\<^verbatim>\<open>cli/main.py\<close>).

  \<^bold>\<open>State and time.\<close> Objects are records passed through explicitly; a dictionary keeps its
  insertion order because eviction depends on it. Numbers of seconds are reals. Python's unbounded integers are
  \<open>int\<close>. An exception is a value of \<open>raised\<close>: the toolkit's own error or a foreign exception with the
  list of classes it is an instance of. The clock is read as an event, so no order between readings and
  calls is lost. Where a message holds a number of seconds, the model's message names the limit instead.

  \<^bold>\<open>What the lemmas show.\<close> The life cycle of connections (every connection opened is closed exactly
  once, COMMIT at most once and only where the body succeeded) is proved once for programs that leave it
  alone (\<open>quiet\<close>, \<open>keeps\<close>) and carried through scopes, transactions, attempts, retries and facade
  calls. The retry loop has its full trace characterised, from which the bounds on attempts, delays and
  deadlines follow. The breaker is related to a reference that keeps the whole failure log. The facade is a
  machine whose invariant is preserved by every operation, whatever resolver and selector are plugged in
  that satisfy the laws of the locales \<open>shard_resolver\<close>, \<open>replica_selector\<close>,
  \<open>facade_routing\<close> and \<open>facade_machine\<close>. The limiter is a machine too: its invariant gives the bound
  on concurrency, and the order in which calls take their tiers excludes a deadlock. That metrics cannot fail,
  which the other theories assume, is proved for the names, kinds, amounts and labels they carry, over any client
  library that keeps its documented contract (\<open>metrics_sink\<close>). The engine a call gets is the one of the target
  configured at that moment (\<open>Reach\<close>). A bulk write is shown over its whole call to send its batches and
  commit them (\<open>row_observation\<close>), and its best-effort loop to do what the loop over one resolved scope does
  while its engine is live (\<open>served_target\<close>). A configuration
  is read back from its document; what a password can influence is shown for redaction, for the classified
  messages and for the output of \<^verbatim>\<open>config-validate\<close>.

  \<^bold>\<open>Bounds.\<close> No definition carries fuel. Loops recurse on lists, on the attempts left (retries) or on a
  measure (text length in \<open>dsn_sub\<close>, rows left in \<open>slices\<close>), so every definition is total; the three
  \<^verbatim>\<open>while\<close> statements are also stated as partial functions, which are proved to return. A stream's
  consumer carries the number of rows it wants, which is its own choice and not a bound on the result.

  \<^bold>\<open>Not modelled.\<close> The driver, SQLAlchemy, the event loop and the broker are parameters. Interleavings
  of concurrent tasks are modelled only where a lock or a single step makes them sequences of atomic steps
  (breaker, registry, registration, collector, limiter, pool listeners). Metric client libraries, the logging
  module, SQLAlchemy's tables and pools, Starlette's application and Typer's argument parsing are parameters or left
  out, and so are the benchmarks and the choice of a default metrics sink. Spans are events only where they bear on a property
  (\<open>Streaming\<close>). The operations of \<open>Bulk\<close> yield the number of rows; \<open>Writes\<close> has the
  \<^verbatim>\<open>ExecutionResult\<close> around it.
\<close>

end
